(* ===== verification/Prelude.thy ===== *)
theory Prelude
  imports Complex_Main "HOL-Library.Word" "HOL-Library.Multiset"
begin

text \<open>
  The prelude of the development: Go's fixed-width integer arithmetic (\<open>int\<close> and
  \<open>int64\<close> are 64 bits wide on the platforms the services are built for), Go's truncating
  division, and the generic facts about lists, sorting and association lists that the component
  theories share.

  A Go \<open>int\<close>, \<open>int64\<close> or \<open>time.Duration\<close> is an \<^typ>\<open>int\<close> here; every arithmetic
  operation of the source whose result may leave the 64-bit range is wrapped by \<open>wrap64\<close>.
  The lemma \<open>wrap64_word\<close> ties \<open>wrap64\<close> to the two's complement reading of a 64-bit word.
\<close>

named_theorems go_simps \<open>unfolding rules of the Go primitives\<close>
named_theorems frame \<open>what an operation leaves unchanged\<close>
named_theorems repo_simps \<open>unfolding rules of the repository layer\<close>

subsection \<open>64-bit arithmetic\<close>

definition wrap64 :: "int \<Rightarrow> int" where
  "wrap64 x = (x + 2 ^ 63) mod 2 ^ 64 - 2 ^ 63"

definition int64 :: "int \<Rightarrow> bool" where
  "int64 x \<longleftrightarrow> - (2 ^ 63) \<le> x \<and> x < 2 ^ 63"

lemma wrap64_range: "int64 (wrap64 x)"
  by (simp add: wrap64_def int64_def)

lemma wrap64_id [simp]: "int64 x \<Longrightarrow> wrap64 x = x"
  by (simp add: wrap64_def int64_def)

lemma wrap64_idem [simp]: "wrap64 (wrap64 x) = wrap64 x"
  by (simp add: wrap64_range)

lemma wrap64_word: "wrap64 x = sint (word_of_int x :: 64 word)"
proof -
  have "sint (word_of_int x :: 64 word) = signed_take_bit 63 x"
    by (simp add: sint_sbintrunc')
  also have "\<dots> = (x + 2 ^ 63) mod 2 ^ 64 - 2 ^ 63"
    by (simp add: signed_take_bit_eq_take_bit_shift take_bit_eq_mod)
  finally show ?thesis by (simp add: wrap64_def)
qed

text \<open>Go's \<open>/\<close> and \<open>%\<close> on signed integers truncate towards zero.\<close>

definition go_div :: "int \<Rightarrow> int \<Rightarrow> int" where
  "go_div a b = (if (0 \<le> a) = (0 < b) then \<bar>a\<bar> div \<bar>b\<bar> else - (\<bar>a\<bar> div \<bar>b\<bar>))"

definition go_mod :: "int \<Rightarrow> int \<Rightarrow> int" where
  "go_mod a b = a - b * go_div a b"

lemma go_div_nonneg [simp]: "0 \<le> a \<Longrightarrow> 0 < b \<Longrightarrow> go_div a b = a div b"
  by (simp add: go_div_def)

lemma go_mod_nonneg [simp]: "0 \<le> a \<Longrightarrow> 0 < b \<Longrightarrow> go_mod a b = a mod b"
  by (simp add: go_mod_def minus_mult_div_eq_mod)

lemma go_div_mult [simp]: "0 < b \<Longrightarrow> go_div (a * b) b = a"
proof -
  assume b: "0 < b"
  then have "\<bar>a * b\<bar> div b = \<bar>a\<bar>"
    by (simp add: abs_mult)
  with b show ?thesis
    by (auto simp: go_div_def zero_le_mult_iff)
qed

lemma go_div_bounds:
  assumes "0 < b" "0 \<le> a"
  shows "b * go_div a b \<le> a" "a < b * go_div a b + b"
proof -
  have eq: "b * (a div b) + a mod b = a"
    by simp
  have "0 \<le> a mod b" "a mod b < b"
    using assms by simp_all
  then show "b * go_div a b \<le> a" "a < b * go_div a b + b"
    using assms eq by (simp_all only: go_div_nonneg)
qed

lemma go_div_int64: "0 < b \<Longrightarrow> int64 a \<Longrightarrow> int64 (go_div a b)"
proof -
  assume b: "0 < b" and a: "int64 a"
  have "\<bar>a\<bar> div b \<le> \<bar>a\<bar>"
    using b by (metis abs_of_nonneg div_0 dual_order.refl int_div_le_self zero_less_abs_iff)
  moreover have "0 \<le> \<bar>a\<bar> div b" using b by (simp add: pos_imp_zdiv_nonneg_iff)
  ultimately show ?thesis using a b by (auto simp: go_div_def int64_def)
qed

subsection \<open>Lists\<close>

lemma sort_key_filter: "filter P (sort_key f xs) = sort_key f (filter P xs)"
  by (induction xs) (auto simp: filter_insort_triv filter_insort)

lemma set_take_sort_key: "x \<in> set (take n (sort_key f xs)) \<Longrightarrow> x \<in> set xs"
  by (metis in_set_takeD set_sort)

lemma distinct_map_take: "distinct (map f xs) \<Longrightarrow> distinct (map f (take n xs))"
  by (simp add: distinct_map take_map [symmetric] distinct_take)

end
