(* ===== verification/Go_Time.thy ===== *)
theory Go_Time
  imports Prelude
begin

text \<open>
  What the services use of Go's package \<open>time\<close>. A \<open>time.Time\<close> is an instant (nanoseconds
  since the Unix epoch) read in a location; the location contributes the offset (in seconds east
  of UTC) that is in force at the instant. \<open>Hour\<close>, \<open>Minute\<close> and \<open>Weekday\<close> read the local clock.
  A \<open>time.Location\<close> is a function from instants (in seconds) to offsets, and
  \<open>time.LoadLocation\<close> reads the host's time zone database, so it is a parameter
  (\<open>load_location\<close>) of the definitions that use it. \<open>time.Parse\<close> and \<open>Time.Format\<close>
  are modelled for the one layout the sources use, \<open>15:04\<close>.
\<close>

record go_time =
  t_ns :: int
  t_off :: int

type_synonym duration = int
type_synonym location = "int \<Rightarrow> int"

definition Nanosecond :: duration where "Nanosecond = 1"
definition Millisecond :: duration where "Millisecond = 1000000"
definition Second :: duration where "Second = 1000000000"
definition Minute_d :: duration where "Minute_d = 60000000000"

lemmas duration_units = Nanosecond_def Millisecond_def Second_def Minute_d_def

definition Milliseconds :: "duration \<Rightarrow> int" where
  "Milliseconds d = go_div d Millisecond"

definition utc :: "int \<Rightarrow> go_time" where
  "utc ns = \<lparr>t_ns = ns, t_off = 0\<rparr>"

definition local_seconds :: "go_time \<Rightarrow> int" where
  "local_seconds t = t_ns t div 1000000000 + t_off t"

definition Hour :: "go_time \<Rightarrow> int" where
  "Hour t = local_seconds t mod 86400 div 3600"

definition Minute :: "go_time \<Rightarrow> int" where
  "Minute t = local_seconds t mod 3600 div 60"

text \<open>The epoch, 1 January 1970, was a Thursday; Go numbers Sunday 0.\<close>

definition Weekday :: "go_time \<Rightarrow> int" where
  "Weekday t = (local_seconds t div 86400 + 4) mod 7"

definition In_loc :: "location \<Rightarrow> go_time \<Rightarrow> go_time" where
  "In_loc loc t = t\<lparr>t_off := loc (t_ns t div 1000000000)\<rparr>"

text \<open>\<open>Time.Add\<close> and \<open>time.Until\<close>; the zero \<open>time.Time\<close> is 1 January of the year 1.\<close>

definition Add :: "go_time \<Rightarrow> duration \<Rightarrow> go_time" where
  "Add t d = t\<lparr>t_ns := t_ns t + d\<rparr>"

definition zero_time :: go_time where
  "zero_time = utc (- 62135596800 * 1000000000)"

text \<open>\<open>time.Date(y, m, d, hour, minute, 0, 0, time.UTC)\<close> for a day given by its midnight in
  seconds since the epoch; out-of-range hours and minutes carry over, as Go normalises them.\<close>

definition Date_hm :: "int \<Rightarrow> int \<Rightarrow> int \<Rightarrow> go_time" where
  "Date_hm midnight hour minute = utc ((midnight + hour * 3600 + minute * 60) * 1000000000)"

definition midnight_2000 :: int where "midnight_2000 = 946684800"
definition midnight_year0 :: int where "midnight_year0 = - 62167219200"

text \<open>The minute of the day, \<open>t.Hour()*60 + t.Minute()\<close> in the sources.\<close>

definition minute_of_day :: "go_time \<Rightarrow> int" where
  "minute_of_day t = Hour t * 60 + Minute t"

lemma Hour_bounds: "0 \<le> Hour t" "Hour t < 24"
  by (simp_all add: Hour_def)

lemma Minute_bounds: "0 \<le> Minute t" "Minute t < 60"
  by (simp_all add: Minute_def)

lemma Weekday_bounds: "0 \<le> Weekday t" "Weekday t < 7"
  by (simp_all add: Weekday_def)

lemma minute_of_day_bounds: "0 \<le> minute_of_day t" "minute_of_day t < 1440"
  using Hour_bounds [of t] Minute_bounds [of t] by (simp_all add: minute_of_day_def)

lemma minute_of_day_eq: "minute_of_day t = local_seconds t mod 86400 div 60"
proof -
  define r where "r = local_seconds t mod 86400"
  have m: "local_seconds t mod 3600 = r mod (60 * 60)"
    by (simp add: r_def mod_mod_cancel)
  have d: "r div 3600 = r div 60 div 60"
    by (simp add: zdiv_zmult2_eq [of 60, symmetric])
  have "r mod (60 * 60) div 60 = r div 60 mod 60"
    by (subst zmod_zmult2_eq) simp_all
  then have "minute_of_day t = r div 60 div 60 * 60 + r div 60 mod 60"
    unfolding minute_of_day_def Hour_def Minute_def m r_def [symmetric] d by (rule arg_cong)
  also have "\<dots> = r div 60"
    by (rule div_mult_mod_eq)
  finally show ?thesis
    by (simp only: r_def)
qed

lemma local_seconds_utc [simp]: "local_seconds (utc ns) = ns div 1000000000"
  by (simp add: local_seconds_def utc_def)

lemma local_seconds_Date: "local_seconds (Date_hm d h m) = d + h * 3600 + m * 60"
  by (simp add: Date_hm_def)

lemma Hour_Date [simp]:
  "0 \<le> h \<Longrightarrow> h < 24 \<Longrightarrow> 0 \<le> m \<Longrightarrow> m < 60 \<Longrightarrow> d mod 86400 = 0 \<Longrightarrow> Hour (Date_hm d h m) = h"
proof -
  assume a: "0 \<le> h" "h < 24" "0 \<le> m" "m < 60" "d mod 86400 = 0"
  then obtain k where k: "d = 86400 * k" by auto
  have "d + h * 3600 + m * 60 = (h * 3600 + m * 60) + k * 86400"
    using k by simp
  then have "(d + h * 3600 + m * 60) mod 86400 = h * 3600 + m * 60"
    using a by (simp only: mod_mult_self1) (simp add: mod_pos_pos_trivial)
  then have "local_seconds (Date_hm d h m) mod 86400 = h * 3600 + m * 60"
    by (simp only: local_seconds_Date)
  then show ?thesis using a by (simp add: Hour_def)
qed

lemma Minute_Date [simp]:
  "0 \<le> m \<Longrightarrow> m < 60 \<Longrightarrow> d mod 86400 = 0 \<Longrightarrow> Minute (Date_hm d h m) = m"
proof -
  assume a: "0 \<le> m" "m < 60" "d mod 86400 = 0"
  then obtain k where "d = 86400 * k" by auto
  then have "d + h * 3600 + m * 60 = m * 60 + (24 * k + h) * 3600" by simp
  then have "(d + h * 3600 + m * 60) mod 3600 = m * 60"
    using a by (simp only: mod_mult_self1) (simp add: mod_pos_pos_trivial)
  then have "local_seconds (Date_hm d h m) mod 3600 = m * 60"
    by (simp only: local_seconds_Date)
  then show ?thesis using a by (simp add: Minute_def)
qed

lemma midnights [simp]: "midnight_2000 mod 86400 = 0" "midnight_year0 mod 86400 = 0"
  by (simp_all add: midnight_2000_def midnight_year0_def)

subsection \<open>The layout 15:04\<close>

definition is_digit :: "char \<Rightarrow> bool" where
  "is_digit c \<longleftrightarrow> (48::nat) \<le> of_char c \<and> of_char c \<le> (57::nat)"

definition digit_val :: "char \<Rightarrow> int" where
  "digit_val c = int (of_char c) - 48"

definition digit_char :: "int \<Rightarrow> char" where
  "digit_char d = char_of (nat (d + 48))"

text \<open>Go's \<open>getnum\<close>: one or two digits, exactly two when \<open>fixed\<close>.\<close>

fun getnum :: "string \<Rightarrow> bool \<Rightarrow> (int \<times> string) option" where
  "getnum [] fixed = None"
| "getnum [a] fixed =
     (if \<not> is_digit a \<or> fixed then None else Some (digit_val a, []))"
| "getnum (a # b # rest) fixed =
     (if \<not> is_digit a then None
      else if \<not> is_digit b then (if fixed then None else Some (digit_val a, b # rest))
      else Some (digit_val a * 10 + digit_val b, rest))"

text \<open>\<open>time.Parse("15:04", value)\<close>: the hour is one or two digits below 24, the minute two
  digits below 60, and nothing may follow. The result is on 1 January of the year 0, UTC.\<close>

definition parse_hhmm :: "string \<Rightarrow> go_time option" where
  "parse_hhmm value =
     (case getnum value False of
        None \<Rightarrow> None
      | Some (hour, rest) \<Rightarrow>
          if hour < 0 \<or> 24 \<le> hour then None
          else (case rest of
                  [] \<Rightarrow> None
                | c # rest' \<Rightarrow>
                    if c \<noteq> CHR '':'' then None
                    else (case getnum rest' True of
                            None \<Rightarrow> None
                          | Some (minute, extra) \<Rightarrow>
                              if minute < 0 \<or> 60 \<le> minute then None
                              else if extra \<noteq> [] then None
                              else Some (Date_hm midnight_year0 hour minute))))"

text \<open>\<open>t.Format("15:04")\<close>: two digits each, zero padded.\<close>

definition two_digits :: "int \<Rightarrow> string" where
  "two_digits n = [digit_char (n div 10), digit_char (n mod 10)]"

definition format_hhmm :: "go_time \<Rightarrow> string" where
  "format_hhmm t = two_digits (Hour t) @ '':'' @ two_digits (Minute t)"

lemma digit_char_digit: "0 \<le> d \<Longrightarrow> d < 10 \<Longrightarrow> is_digit (digit_char d)"
  by (auto simp: is_digit_def digit_char_def of_char_of)

lemma digit_val_char: "0 \<le> d \<Longrightarrow> d < 10 \<Longrightarrow> digit_val (digit_char d) = d"
  by (auto simp: digit_val_def digit_char_def of_char_of)

lemma getnum_two_digits:
  "0 \<le> n \<Longrightarrow> n < 100 \<Longrightarrow> getnum (two_digits n @ rest) fixed = Some (n, rest)"
  by (simp add: two_digits_def digit_char_digit digit_val_char)

lemma parse_format_hhmm:
  "parse_hhmm (format_hhmm t) = Some (Date_hm midnight_year0 (Hour t) (Minute t))"
  using Hour_bounds [of t] Minute_bounds [of t] getnum_two_digits [of "Minute t" "[]"]
  by (simp add: parse_hhmm_def format_hhmm_def getnum_two_digits)

subsection \<open>Decimal numbers: the verb %d\<close>

fun show_nat :: "nat \<Rightarrow> string" where
  "show_nat n = (if n < 10 then [digit_char (int n)]
                 else show_nat (n div 10) @ [digit_char (int (n mod 10))])"

declare show_nat.simps [simp del]

definition show_int :: "int \<Rightarrow> string" where
  "show_int i = (if i < 0 then ''-'' @ show_nat (nat (- i)) else show_nat (nat i))"

text \<open>Reading the digits back.\<close>

definition read_digits :: "string \<Rightarrow> int" where
  "read_digits s = foldl (\<lambda>acc c. acc * 10 + digit_val c) 0 s"

lemma read_digits_snoc: "read_digits (s @ [c]) = read_digits s * 10 + digit_val c"
  by (simp add: read_digits_def)

lemma read_show_nat: "read_digits (show_nat n) = int n"
proof (induction n rule: show_nat.induct)
  case (1 n)
  show ?case
  proof (cases "n < 10")
    case True
    then show ?thesis by (simp add: show_nat.simps [of n] read_digits_def digit_val_char)
  next
    case False
    have "int (n div 10) * 10 + int (n mod 10) = int n"
      by (metis div_mult_mod_eq of_nat_add of_nat_mult of_nat_numeral)
    with False 1 show ?thesis
      by (simp add: show_nat.simps [of n] read_digits_snoc digit_val_char)
  qed
qed

lemma show_nat_inj: "show_nat a = show_nat b \<Longrightarrow> a = b"
  by (metis of_nat_eq_iff read_show_nat)

end
