(* ===== verification/Errors.thy ===== *)
theory Errors
  imports Prelude
begin

text \<open>
  Go's error values and the sentinels of \<open>pkg/errors\<close>. An error value is what the
  sources build: a sentinel, a plain error with its text (errors of drivers and servers are plain
  errors: none of them wraps a sentinel), the errors of a cancelled or expired context, an error
  wrapped by \<open>fmt.Errorf\<close> with one \<open>%w\<close> verb between two texts, and the pair built by
  \<open>errors.Join\<close>. A fallible call returns a value of \<open>go_error + 'a\<close>, \<open>Inl\<close> for the
  error; a call that only reports an error returns \<open>go_error option\<close>.
\<close>

datatype sentinel = ErrNotFound | ErrConflict | ErrValidation | ErrUnavailable | ErrQuotaExceeded

datatype go_error =
    Sentinel sentinel
  | New string
  | Canceled
  | DeadlineExceeded
  | Errorf string go_error string
  | Join go_error go_error

fun sentinel_text :: "sentinel \<Rightarrow> string" where
  "sentinel_text ErrNotFound = ''not found''"
| "sentinel_text ErrConflict = ''conflict''"
| "sentinel_text ErrValidation = ''validation error''"
| "sentinel_text ErrUnavailable = ''service unavailable''"
| "sentinel_text ErrQuotaExceeded = ''quota exceeded''"

fun Error :: "go_error \<Rightarrow> string" where
  "Error (Sentinel s) = sentinel_text s"
| "Error (New m) = m"
| "Error Canceled = ''context canceled''"
| "Error DeadlineExceeded = ''context deadline exceeded''"
| "Error (Errorf pre e post) = pre @ Error e @ post"
| "Error (Join a b) = Error a @ [CHR 0x0A] @ Error b"

text \<open>\<open>errors.Is(err, target)\<close> for a sentinel target: the target is somewhere in the tree of
  wrapped errors.\<close>

fun Is :: "go_error \<Rightarrow> sentinel \<Rightarrow> bool" where
  "Is (Sentinel s) target \<longleftrightarrow> s = target"
| "Is (New m) target \<longleftrightarrow> False"
| "Is Canceled target \<longleftrightarrow> False"
| "Is DeadlineExceeded target \<longleftrightarrow> False"
| "Is (Errorf pre e post) target \<longleftrightarrow> Is e target"
| "Is (Join a b) target \<longleftrightarrow> Is a target \<or> Is b target"

text \<open>\<open>Wrap\<close> of \<open>pkg/errors\<close>: a nil error stays nil, otherwise the message is joined in front.\<close>

definition Wrap :: "go_error option \<Rightarrow> string \<Rightarrow> go_error option" where
  "Wrap err message =
     (case err of None \<Rightarrow> None | Some e \<Rightarrow> Some (Join (New message) e))"

lemma Wrap_Is: "Wrap (Some e) m = Some e' \<Longrightarrow> Is e' s = Is e s"
  by (auto simp: Wrap_def)

lemma Wrap_text: "Wrap (Some e) m = Some e' \<Longrightarrow> Error e' = m @ [CHR 0x0A] @ Error e"
  by (auto simp: Wrap_def)

end
