(* ===== verification/Domain.thy ===== *)
theory Domain
  imports Go_Time Errors
begin

text \<open>
  The data of \<open>internal/domain/campaign.go\<close>, field by field. A \<open>uuid.UUID\<close> is a 128-bit
  word (its byte order is the numeric order, which is how PostgreSQL compares uuids). The status
  types of the source are open string types with named constants, and so they are here. A finite
  \<open>float64\<close> is a rational; \<open>map[string]any\<close> holds a decoded JSON object, or JSON null for
  the nil map.
\<close>

type_synonym uuid = "128 word"
type_synonym float64 = rat
type_synonym campaign_status = string
type_synonym call_status = string

definition uuid_Nil :: uuid where "uuid_Nil = 0"

datatype json =
    JNull
  | JBool bool
  | JNum rat
  | JStr string
  | JUuid uuid
  | JTime go_time
  | JArr "json list"
  | JObj "(string \<times> json) list"

text \<open>Go's \<open>map[string]any\<close>: nil or its entries, and what \<open>json.Marshal\<close> makes of it.\<close>

type_synonym metadata = "(string \<times> json) list option"

fun marshal_map :: "metadata \<Rightarrow> json" where
  "marshal_map None = JNull"
| "marshal_map (Some kvs) = JObj kvs"

definition CampaignStatusPending :: campaign_status where
  "CampaignStatusPending = ''pending''"
definition CampaignStatusInProgress :: campaign_status where
  "CampaignStatusInProgress = ''in_progress''"
definition CampaignStatusCompleted :: campaign_status where
  "CampaignStatusCompleted = ''completed''"
definition CampaignStatusFailed :: campaign_status where
  "CampaignStatusFailed = ''failed''"
definition CampaignStatusPaused :: campaign_status where
  "CampaignStatusPaused = ''paused''"

lemmas campaign_statuses = CampaignStatusPending_def CampaignStatusInProgress_def
  CampaignStatusCompleted_def CampaignStatusFailed_def CampaignStatusPaused_def

definition CallStatusPending :: call_status where "CallStatusPending = ''pending''"
definition CallStatusQueued :: call_status where "CallStatusQueued = ''queued''"
definition CallStatusDialing :: call_status where "CallStatusDialing = ''dialing''"
definition CallStatusCompleted :: call_status where "CallStatusCompleted = ''completed''"
definition CallStatusFailed :: call_status where "CallStatusFailed = ''failed''"
definition CallStatusRetrying :: call_status where "CallStatusRetrying = ''retrying''"

lemmas call_statuses = CallStatusPending_def CallStatusQueued_def CallStatusDialing_def
  CallStatusCompleted_def CallStatusFailed_def CallStatusRetrying_def

record BusinessHourWindow =
  DayOfWeek :: int
  Start :: go_time
  End :: go_time

record RetryPolicy =
  MaxAttempts :: int
  BaseDelay :: duration
  MaxDelay :: duration
  Jitter :: float64

record Campaign =
  c_ID :: uuid
  c_Name :: string
  c_Description :: string
  c_TimeZone :: string
  c_BusinessHours :: "BusinessHourWindow list"
  c_MaxConcurrentCalls :: int
  c_RetryPolicy :: RetryPolicy
  c_Status :: campaign_status
  c_CreatedAt :: go_time
  c_UpdatedAt :: go_time
  c_StartedAt :: "go_time option"
  c_CompletedAt :: "go_time option"

record Call =
  call_ID :: uuid
  call_CampaignID :: uuid
  call_PhoneNumber :: string
  call_Status :: call_status
  call_AttemptCount :: int
  call_LastAttemptAt :: "go_time option"
  call_ScheduledAt :: go_time
  call_CreatedAt :: go_time
  call_UpdatedAt :: go_time
  call_LastError :: "string option"

record CallAttempt =
  att_ID :: uuid
  att_CallID :: uuid
  att_AttemptNum :: int
  att_Status :: call_status
  att_Error :: string
  att_CreatedAt :: go_time
  att_Duration :: duration

record CampaignStats =
  TotalCalls :: int
  CompletedCalls :: int
  FailedCalls :: int
  InProgressCalls :: int
  PendingCalls :: int
  RetriesAttempted :: int

end
