(* ===== verification/Store.thy ===== *)
theory Store
  imports Domain
begin

text \<open>
  The stored state the services work on, and how a call to a server is made.

  The tables are those of \<open>db/migrations\<close>: PostgreSQL's \<open>campaigns\<close>,
  \<open>campaign_business_hours\<close>, \<open>campaign_targets\<close> and \<open>campaign_statistics\<close>, Scylla's
  \<open>calls_by_campaign\<close>, \<open>calls_by_status\<close> and \<open>call_attempts\<close>, and Kafka's log: the
  records appended to its topics and the records each consumer group has committed. The SQL and CQL texts of the sources are translated statement by statement
  into functions on these tables, with the constraints of the migration.

  What the servers do beyond their tables is a parameter, the record \<open>env\<close>: whether the
  \<open>n\<close>-th request succeeds, fails before it takes effect or loses its reply after it took
  effect (\<open>io_at\<close>), the readings of the clocks, the uuids drawn, the text of a constraint
  violation, SQL's \<open>LOWER\<close>, the order in which a table is scanned (SQL leaves rows that
  compare equal under \<open>ORDER BY\<close> in any order), the pages of the Scylla driver and the text of
  a uuid. Theorems quantify over all environments.
\<close>

subsection \<open>Rows\<close>

record campaign_row =
  r_id :: uuid
  r_name :: string
  r_description :: string
  r_time_zone :: string
  r_max_concurrent_calls :: int
  r_status :: string
  r_retry_max_attempts :: int
  r_retry_base_delay_ms :: int
  r_retry_max_delay_ms :: int
  r_retry_jitter :: float64
  r_created_at :: go_time
  r_updated_at :: go_time
  r_started_at :: "go_time option"
  r_completed_at :: "go_time option"

record hours_row =
  h_campaign_id :: uuid
  h_day_of_week :: int
  h_start_minute :: int
  h_end_minute :: int

record target_row =
  tg_id :: uuid
  tg_campaign_id :: uuid
  tg_phone_number :: string
  tg_payload :: json
  tg_state :: string
  tg_scheduled_at :: "go_time option"
  tg_last_attempt_at :: "go_time option"
  tg_attempt_count :: int
  tg_created_at :: go_time
  tg_updated_at :: go_time

type_synonym call_key = "uuid \<times> go_time \<times> uuid"
type_synonym status_key = "uuid \<times> string \<times> go_time \<times> uuid"

record call_row =
  cr_phone_number :: "string option"
  cr_status :: "string option"
  cr_attempt_count :: "int option"
  cr_scheduled_at :: "go_time option"
  cr_last_attempt_at :: "go_time option"
  cr_updated_at :: "go_time option"
  cr_created_at :: "go_time option"
  cr_last_error :: "string option"

record status_row =
  sr_phone_number :: "string option"
  sr_updated_at :: "go_time option"

record attempt_row =
  ar_status :: string
  ar_error :: string
  ar_created_at :: go_time
  ar_duration_ms :: int

text \<open>A record written to Kafka: its topic, its key (the call's id) and its JSON value.\<close>

record kafka_record =
  k_topic :: string
  k_key :: uuid
  k_value :: json
  k_time :: go_time

record world =
  w_campaigns :: "campaign_row list"
  w_hours :: "hours_row list"
  w_targets :: "target_row list"
  w_stats :: "uuid \<Rightarrow> CampaignStats option"
  w_calls :: "(call_key \<times> call_row) list"
  w_by_status :: "(status_key \<times> status_row) list"
  w_attempts :: "((uuid \<times> int) \<times> attempt_row) list"
  w_kafka :: "kafka_record list"
  w_commits :: "(string \<times> kafka_record) list"
  io_n :: nat
  now_n :: nat
  uuid_n :: nat

subsection \<open>The environment\<close>

datatype io_outcome = IoOk | IoErr string | IoLost string

record env =
  io_at :: "nat \<Rightarrow> io_outcome"
  now_at :: "nat \<Rightarrow> int"
  uuid_at :: "nat \<Rightarrow> uuid"
  db_now :: "nat \<Rightarrow> go_time"
  violation :: string
  sql_lower :: "string \<Rightarrow> string"
  scan_campaigns :: "campaign_row list \<Rightarrow> campaign_row list"
  scan_hours :: "hours_row list \<Rightarrow> hours_row list"
  scan_targets :: "target_row list \<Rightarrow> target_row list"
  scan_calls :: "(call_key \<times> call_row) list \<Rightarrow> (call_key \<times> call_row) list"
  page_rows :: "int \<Rightarrow> string \<Rightarrow> (call_key \<times> call_row) list \<Rightarrow> (call_key \<times> call_row) list \<times> string"
  uuid_text :: "uuid \<Rightarrow> string"

text \<open>A scan returns every row once; what it may choose is the order.\<close>

definition scans :: "('a list \<Rightarrow> 'a list) \<Rightarrow> bool" where
  "scans f \<longleftrightarrow> (\<forall>xs. mset (f xs) = mset xs)"

definition env_scans :: "env \<Rightarrow> bool" where
  "env_scans e \<longleftrightarrow> scans (scan_campaigns e) \<and> scans (scan_hours e) \<and> scans (scan_targets e)
     \<and> scans (scan_calls e)"

text \<open>No request fails.\<close>

definition no_faults :: "env \<Rightarrow> bool" where
  "no_faults e \<longleftrightarrow> (\<forall>n. io_at e n = IoOk)"

lemma scans_set: "scans f \<Longrightarrow> set (f xs) = set xs"
  by (metis scans_def set_mset_mset)

lemma scans_length: "scans f \<Longrightarrow> length (f xs) = length xs"
  by (metis scans_def size_mset)

lemma scans_distinct: "scans f \<Longrightarrow> distinct (map g xs) \<Longrightarrow> distinct (map g (f xs))"
  by (metis scans_def mset_map mset_eq_imp_distinct_iff)

lemma scans_id: "scans (\<lambda>xs. xs)"
  by (simp add: scans_def)

subsection \<open>Requests\<close>

definition tick_io :: "world \<Rightarrow> world" where
  "tick_io w = w\<lparr>io_n := Suc (io_n w)\<rparr>"

definition Now :: "env \<Rightarrow> world \<Rightarrow> go_time \<times> world" where
  "Now e w = (utc (now_at e (now_n w)), w\<lparr>now_n := Suc (now_n w)\<rparr>)"

definition uuid_New :: "env \<Rightarrow> world \<Rightarrow> uuid \<times> world" where
  "uuid_New e w = (uuid_at e (uuid_n w), w\<lparr>uuid_n := Suc (uuid_n w)\<rparr>)"

text \<open>A statement that changes a table: \<open>None\<close> when it violates a constraint. A lost reply is
  an error to the caller although the statement took effect.\<close>

definition exec :: "env \<Rightarrow> (world \<Rightarrow> ('a \<times> world) option) \<Rightarrow> world \<Rightarrow> (go_error + 'a) \<times> world" where
  "exec e stmt w =
     (let w1 = tick_io w
      in case io_at e (io_n w) of
           IoErr m \<Rightarrow> (Inl (New m), w1)
         | IoLost m \<Rightarrow> (Inl (New m), (case stmt w1 of None \<Rightarrow> w1 | Some (a, w2) \<Rightarrow> w2))
         | IoOk \<Rightarrow> (case stmt w1 of None \<Rightarrow> (Inl (New (violation e)), w1)
                                 | Some (a, w2) \<Rightarrow> (Inr a, w2)))"

text \<open>A request that only reads.\<close>

definition query :: "env \<Rightarrow> (world \<Rightarrow> 'a) \<Rightarrow> world \<Rightarrow> (go_error + 'a) \<times> world" where
  "query e q w =
     (case io_at e (io_n w) of
        IoErr m \<Rightarrow> (Inl (New m), tick_io w)
      | IoLost m \<Rightarrow> (Inl (New m), tick_io w)
      | IoOk \<Rightarrow> (Inr (q w), tick_io w))"

text \<open>The shape of the methods that run one statement: the error is wrapped with a prefix, the
  result is dropped.\<close>

definition run_stmt ::
    "env \<Rightarrow> string \<Rightarrow> (world \<Rightarrow> ('a \<times> world) option) \<Rightarrow> world \<Rightarrow> go_error option \<times> world" where
  "run_stmt e msg stmt w =
     (case exec e stmt w of
        (Inl err, w') \<Rightarrow> (Some (Errorf msg err []), w')
      | (Inr _, w') \<Rightarrow> (None, w'))"

text \<open>The row loop of the list queries: \<open>rows.Next\<close> and \<open>rows.StructScan\<close> for every row,
  then \<open>rows.Err\<close>.\<close>

fun scan_loop :: "env \<Rightarrow> 'a list \<Rightarrow> world \<Rightarrow> go_error option \<times> world" where
  "scan_loop e [] w = (None, w)"
| "scan_loop e (r # rs) w =
     (case query e (\<lambda>_. ()) w of
        (Inl err, w') \<Rightarrow> (Some err, w')
      | (Inr _, w') \<Rightarrow> scan_loop e rs w')"

definition fetch_rows ::
    "env \<Rightarrow> string \<Rightarrow> string \<Rightarrow> string \<Rightarrow> (world \<Rightarrow> 'a list) \<Rightarrow> world \<Rightarrow> (go_error + 'a list) \<times> world" where
  "fetch_rows e query_msg scan_msg rows_msg q w =
     (case query e q w of
        (Inl err, w1) \<Rightarrow> (Inl (Errorf query_msg err []), w1)
      | (Inr rows, w1) \<Rightarrow>
          (case scan_loop e rows w1 of
             (Some err, w2) \<Rightarrow> (Inl (Errorf scan_msg err []), w2)
           | (None, w2) \<Rightarrow>
               (case query e (\<lambda>_. ()) w2 of
                  (Inl err, w3) \<Rightarrow> (Inl (Errorf rows_msg err []), w3)
                | (Inr _, w3) \<Rightarrow> (Inr rows, w3))))"

subsection \<open>What requests leave unchanged\<close>

text \<open>\<open>same_store w w'\<close>: the two worlds hold the same tables and the same Kafka records; only
  the counters of requests, clock readings and uuids may differ.\<close>

definition same_store :: "world \<Rightarrow> world \<Rightarrow> bool" where
  "same_store w w' \<longleftrightarrow>
     w' = w\<lparr>io_n := io_n w', now_n := now_n w', uuid_n := uuid_n w'\<rparr>"

lemma same_store_refl [simp, intro]: "same_store w w"
  by (simp add: same_store_def)

lemma same_store_trans [trans]: "same_store a b \<Longrightarrow> same_store b c \<Longrightarrow> same_store a c"
  by (cases a; cases b; cases c) (simp add: same_store_def)

lemma same_store_sym: "same_store a b \<Longrightarrow> same_store b a"
  by (cases a; cases b) (simp add: same_store_def)

lemma same_store_fields:
  assumes "same_store w w'"
  shows "w_campaigns w' = w_campaigns w" "w_hours w' = w_hours w" "w_targets w' = w_targets w"
    "w_stats w' = w_stats w" "w_calls w' = w_calls w" "w_by_status w' = w_by_status w"
    "w_attempts w' = w_attempts w" "w_kafka w' = w_kafka w" "w_commits w' = w_commits w"
  using assms by (cases w; cases w'; simp add: same_store_def)+

lemma same_store_counters [simp, intro]:
  "same_store w (tick_io w)"
  "same_store w (w\<lparr>io_n := i\<rparr>)"
  "same_store w (w\<lparr>now_n := i\<rparr>)"
  "same_store w (w\<lparr>uuid_n := i\<rparr>)"
  by (simp_all add: same_store_def tick_io_def)

lemma Now_same [frame]: "Now e w = (t, w') \<Longrightarrow> same_store w w'"
  by (auto simp: Now_def)

lemma uuid_New_same [frame]: "uuid_New e w = (u, w') \<Longrightarrow> same_store w w'"
  by (auto simp: uuid_New_def)

lemma query_same [frame]: "query e q w = (r, w') \<Longrightarrow> same_store w w'"
  by (auto simp: query_def split: io_outcome.splits)

lemma query_Inr: "query e q w = (Inr a, w') \<Longrightarrow> a = q w"
  by (auto simp: query_def split: io_outcome.splits)

lemma scan_loop_same [frame]: "scan_loop e rs w = (r, w') \<Longrightarrow> same_store w w'"
proof (induction rs arbitrary: w)
  case Nil
  then show ?case by simp
next
  case (Cons x rs)
  then show ?case
    by (auto split: prod.splits sum.splits dest: query_same intro: same_store_trans)
qed

lemma fetch_rows_same [frame]: "fetch_rows e a b c q w = (r, w') \<Longrightarrow> same_store w w'"
  by (auto simp: fetch_rows_def split: prod.splits sum.splits option.splits
      dest!: query_same scan_loop_same intro: same_store_trans)

lemma fetch_rows_Inr: "fetch_rows e a b c q w = (Inr rows, w') \<Longrightarrow> rows = q w"
  by (auto simp: fetch_rows_def split: prod.splits sum.splits option.splits dest: query_Inr)

text \<open>Without faults every request succeeds.\<close>

lemma query_ok: "no_faults e \<Longrightarrow> query e q w = (Inr (q w), tick_io w)"
  by (simp add: query_def no_faults_def)

lemma scan_loop_ok: "no_faults e \<Longrightarrow> \<exists>w'. scan_loop e rs w = (None, w') \<and> same_store w w'"
proof (induction rs arbitrary: w)
  case Nil
  then show ?case by auto
next
  case (Cons x rs)
  then obtain w' where "scan_loop e rs (tick_io w) = (None, w')" "same_store (tick_io w) w'"
    by blast
  with Cons.prems show ?case
    by (auto simp: query_ok intro: same_store_trans [OF same_store_counters(1)])
qed

lemma fetch_rows_ok:
  assumes "no_faults e"
  shows "\<exists>w'. fetch_rows e a b c q w = (Inr (q w), w') \<and> same_store w w'"
proof -
  obtain w1 where s: "scan_loop e (q w) (tick_io w) = (None, w1)"
    using scan_loop_ok [OF assms] by blast
  then have "fetch_rows e a b c q w = (Inr (q w), tick_io w1)"
    using assms by (simp add: fetch_rows_def query_ok)
  then show ?thesis
    using fetch_rows_same by blast
qed

lemma exec_ok:
  "no_faults e \<Longrightarrow> exec e stmt w =
     (case stmt (tick_io w) of None \<Rightarrow> (Inl (New (violation e)), tick_io w)
                             | Some (a, w2) \<Rightarrow> (Inr a, w2))"
  by (simp add: exec_def no_faults_def Let_def)

text \<open>A statement either took effect or left the store as it was; a result means that it took
  effect.\<close>

lemma exec_cases:
  assumes "exec e stmt w = (r, w')"
  obtains (effect) a where "stmt (tick_io w) = Some (a, w')" "r = Inr a \<or> (\<exists>m. r = Inl (New m))"
  | (nothing) m where "w' = tick_io w" "r = Inl (New m)"
  using assms
  by (auto simp: exec_def Let_def split: io_outcome.splits option.splits)

lemma exec_Inr: "exec e stmt w = (Inr a, w') \<Longrightarrow> stmt (tick_io w) = Some (a, w')"
  by (auto simp: exec_def Let_def split: io_outcome.splits option.splits)

lemma run_stmt_cases:
  assumes "run_stmt e msg stmt w = (err, w')"
  obtains (effect) a where "stmt (tick_io w) = Some (a, w')"
  | (nothing) "w' = tick_io w" "err \<noteq> None"
  using assms by (auto simp: run_stmt_def split: prod.splits sum.splits elim: exec_cases)

lemma run_stmt_None: "run_stmt e msg stmt w = (None, w') \<Longrightarrow> \<exists>a. stmt (tick_io w) = Some (a, w')"
  by (auto simp: run_stmt_def split: prod.splits sum.splits dest: exec_Inr)

lemma run_stmt_ok:
  "no_faults e \<Longrightarrow> run_stmt e msg stmt w =
     (case stmt (tick_io w) of None \<Rightarrow> (Some (Errorf msg (New (violation e)) []), tick_io w)
                             | Some (a, w2) \<Rightarrow> (None, w2))"
  by (simp add: run_stmt_def exec_ok split: option.splits prod.splits)

lemma run_stmt_not_sentinel: "run_stmt e msg stmt w = (Some err, w') \<Longrightarrow> \<not> Is err s"
  by (auto simp: run_stmt_def split: prod.splits sum.splits elim: exec_cases)

lemma tick_io_fields [simp]:
  "w_campaigns (tick_io w) = w_campaigns w" "w_hours (tick_io w) = w_hours w"
  "w_targets (tick_io w) = w_targets w" "w_stats (tick_io w) = w_stats w"
  "w_calls (tick_io w) = w_calls w" "w_by_status (tick_io w) = w_by_status w"
  "w_attempts (tick_io w) = w_attempts w" "w_kafka (tick_io w) = w_kafka w"
  "w_commits (tick_io w) = w_commits w"
  "io_n (tick_io w) = Suc (io_n w)" "now_n (tick_io w) = now_n w" "uuid_n (tick_io w) = uuid_n w"
  by (simp_all add: tick_io_def)

subsection \<open>Invariants of the store\<close>

text \<open>
  The contract between the requests above and an invariant of the tables: an invariant that does
  not look at the counters is kept by every reading request, and by a statement's request as soon
  as the statement itself keeps it.
\<close>

locale store_invariant =
  fixes I :: "world \<Rightarrow> bool"
  assumes I_same: "same_store w w' \<Longrightarrow> I w \<Longrightarrow> I w'"
begin

lemma keeps_query: "query e q w = (r, w') \<Longrightarrow> I w \<Longrightarrow> I w'"
  by (blast intro: I_same query_same)

lemma keeps_fetch_rows: "fetch_rows e a b c q w = (r, w') \<Longrightarrow> I w \<Longrightarrow> I w'"
  by (blast intro: I_same fetch_rows_same)

lemma keeps_Now: "Now e w = (t, w') \<Longrightarrow> I w \<Longrightarrow> I w'"
  by (blast intro: I_same Now_same)

lemma keeps_uuid_New: "uuid_New e w = (u, w') \<Longrightarrow> I w \<Longrightarrow> I w'"
  by (blast intro: I_same uuid_New_same)

lemma keeps_tick: "I (tick_io w) \<longleftrightarrow> I w"
  by (meson I_same same_store_counters(1) same_store_sym)

lemma keeps_exec:
  assumes "exec e stmt w = (r, w')" "I w"
    and "\<And>w a w'. I w \<Longrightarrow> stmt w = Some (a, w') \<Longrightarrow> I w'"
  shows "I w'"
  using assms(1)
proof (cases rule: exec_cases)
  case (effect a)
  then show ?thesis using assms(2,3) keeps_tick by blast
next
  case (nothing m)
  then show ?thesis using assms(2) keeps_tick by simp
qed

lemma keeps_run_stmt:
  assumes "run_stmt e msg stmt w = (err, w')" "I w"
    and "\<And>w a w'. I w \<Longrightarrow> stmt w = Some (a, w') \<Longrightarrow> I w'"
  shows "I w'"
  using assms(1)
  by (auto simp: run_stmt_def split: prod.splits sum.splits
      dest: keeps_exec [OF _ assms(2)] intro: assms(3))

lemmas keeps = keeps_query keeps_fetch_rows keeps_Now keeps_uuid_New

end

end
