(* ===== verification/Postgres.thy ===== *)
theory Postgres
  imports Store "HOL-Library.Product_Lexorder"
begin

text \<open>
  The PostgreSQL repositories (\<open>internal/repository/postgres\<close>), one definition per SQL text of
  the sources and one per method. A statement is a partial function on the tables that fails
  exactly when the migration's constraints reject it; a method adds the error wrapping and the
  row counts. The records of \<open>internal/repository/interfaces.go\<close> are declared here too.
\<close>

record CampaignTargetRecord =
  ct_ID :: uuid
  ct_CampaignID :: uuid
  ct_PhoneNumber :: string
  ct_Payload :: metadata
  ct_State :: string
  ct_ScheduledAt :: "go_time option"
  ct_LastAttempt :: "go_time option"
  ct_AttemptCount :: int
  ct_CreatedAt :: go_time

record StatsDelta =
  TotalCallsDelta :: int
  CompletedCallsDelta :: int
  FailedCallsDelta :: int
  InProgressCallsDelta :: int
  PendingCallsDelta :: int
  RetriesDelta :: int

definition zero_delta :: StatsDelta where
  "zero_delta = \<lparr>TotalCallsDelta = 0, CompletedCallsDelta = 0, FailedCallsDelta = 0,
     InProgressCallsDelta = 0, PendingCallsDelta = 0, RetriesDelta = 0\<rparr>"

definition int32 :: "int \<Rightarrow> bool" where
  "int32 x \<longleftrightarrow> - (2 ^ 31) \<le> x \<and> x < 2 ^ 31"

definition limit_rows :: "int \<Rightarrow> 'a list \<Rightarrow> 'a list" where
  "limit_rows n xs = take (nat n) xs"

subsection \<open>CampaignRepository\<close>

definition to_row :: "Campaign \<Rightarrow> campaign_row" where
  "to_row c = \<lparr>r_id = c_ID c, r_name = c_Name c, r_description = c_Description c,
     r_time_zone = c_TimeZone c, r_max_concurrent_calls = c_MaxConcurrentCalls c,
     r_status = c_Status c, r_retry_max_attempts = MaxAttempts (c_RetryPolicy c),
     r_retry_base_delay_ms = Milliseconds (BaseDelay (c_RetryPolicy c)),
     r_retry_max_delay_ms = Milliseconds (MaxDelay (c_RetryPolicy c)),
     r_retry_jitter = Jitter (c_RetryPolicy c), r_created_at = c_CreatedAt c,
     r_updated_at = c_UpdatedAt c, r_started_at = c_StartedAt c,
     r_completed_at = c_CompletedAt c\<rparr>"

text \<open>\<open>campaignRecord.toDomain\<close>: the four time columns are not copied, and the business hours
  are left empty.\<close>

definition toDomain :: "campaign_row \<Rightarrow> Campaign" where
  "toDomain r = \<lparr>c_ID = r_id r, c_Name = r_name r, c_Description = r_description r,
     c_TimeZone = r_time_zone r, c_BusinessHours = [],
     c_MaxConcurrentCalls = r_max_concurrent_calls r,
     c_RetryPolicy = \<lparr>MaxAttempts = r_retry_max_attempts r,
        BaseDelay = wrap64 (r_retry_base_delay_ms r * Millisecond),
        MaxDelay = wrap64 (r_retry_max_delay_ms r * Millisecond),
        Jitter = r_retry_jitter r\<rparr>,
     c_Status = r_status r, c_CreatedAt = zero_time, c_UpdatedAt = zero_time,
     c_StartedAt = None, c_CompletedAt = None\<rparr>"

text \<open>The column constraints of table \<open>campaigns\<close>, and the unique index on the lower-cased
  name against the other rows.\<close>

definition campaign_checks :: "campaign_row \<Rightarrow> bool" where
  "campaign_checks r \<longleftrightarrow> 0 < r_max_concurrent_calls r \<and> int32 (r_max_concurrent_calls r)
     \<and> 0 \<le> r_retry_max_attempts r \<and> int32 (r_retry_max_attempts r)"

definition name_taken :: "env \<Rightarrow> campaign_row \<Rightarrow> campaign_row list \<Rightarrow> bool" where
  "name_taken e r rows \<longleftrightarrow>
     (\<exists>r' \<in> set rows. r_id r' \<noteq> r_id r \<and> sql_lower e (r_name r') = sql_lower e (r_name r))"

definition insert_campaign :: "env \<Rightarrow> campaign_row \<Rightarrow> world \<Rightarrow> (unit \<times> world) option" where
  "insert_campaign e r w =
     (if r_id r \<in> r_id ` set (w_campaigns w) \<or> name_taken e r (w_campaigns w)
         \<or> \<not> campaign_checks r then None
      else Some ((), w\<lparr>w_campaigns := w_campaigns w @ [r]\<rparr>))"

definition CampaignRepository_Create :: "env \<Rightarrow> Campaign \<Rightarrow> world \<Rightarrow> go_error option \<times> world" where
  "CampaignRepository_Create e c w =
     run_stmt e ''campaign repo: insert: '' (insert_campaign e (to_row c)) w"

definition find_campaign :: "uuid \<Rightarrow> world \<Rightarrow> campaign_row option" where
  "find_campaign i w = find (\<lambda>r. r_id r = i) (w_campaigns w)"

definition CampaignRepository_Get :: "env \<Rightarrow> uuid \<Rightarrow> world \<Rightarrow> (go_error + Campaign) \<times> world" where
  "CampaignRepository_Get e i w =
     (case query e (find_campaign i) w of
        (Inl err, w') \<Rightarrow> (Inl (Errorf ''campaign repo: get: '' err []), w')
      | (Inr None, w') \<Rightarrow> (Inl (Sentinel ErrNotFound), w')
      | (Inr (Some r), w') \<Rightarrow> (Inr (toDomain r), w'))"

text \<open>\<open>UPDATE campaigns SET \<dots> WHERE id = :id\<close>: every column but \<open>created_at\<close> is written
  from the campaign; the trigger sets \<open>updated_at\<close>. The result is the number of rows.\<close>

definition updated_row :: "env \<Rightarrow> world \<Rightarrow> campaign_row \<Rightarrow> campaign_row \<Rightarrow> campaign_row" where
  "updated_row e w r old = r\<lparr>r_created_at := r_created_at old, r_updated_at := db_now e (io_n w)\<rparr>"

definition update_campaign :: "env \<Rightarrow> campaign_row \<Rightarrow> world \<Rightarrow> (nat \<times> world) option" where
  "update_campaign e r w =
     (let n = length (filter (\<lambda>old. r_id old = r_id r) (w_campaigns w))
      in if n = 0 then Some (0, w)
         else if name_taken e r (w_campaigns w) \<or> \<not> campaign_checks r then None
         else Some (n, w\<lparr>w_campaigns :=
                map (\<lambda>old. if r_id old = r_id r then updated_row e w r old else old)
                  (w_campaigns w)\<rparr>))"

text \<open>\<open>res.RowsAffected()\<close> and the test for no row, shared by the two updates.\<close>

definition check_affected :: "env \<Rightarrow> nat \<Rightarrow> world \<Rightarrow> go_error option \<times> world" where
  "check_affected e n w =
     (case query e (\<lambda>_. n) w of
        (Inl err, w') \<Rightarrow> (Some (Errorf ''campaign repo: rows affected: '' err []), w')
      | (Inr k, w') \<Rightarrow> (if k = 0 then Some (Sentinel ErrNotFound) else None, w'))"

definition CampaignRepository_Update :: "env \<Rightarrow> Campaign \<Rightarrow> world \<Rightarrow> go_error option \<times> world" where
  "CampaignRepository_Update e c w =
     (case exec e (update_campaign e (to_row c)) w of
        (Inl err, w') \<Rightarrow> (Some (Errorf ''campaign repo: update: '' err []), w')
      | (Inr n, w') \<Rightarrow> check_affected e n w')"

definition update_status :: "env \<Rightarrow> uuid \<Rightarrow> string \<Rightarrow> world \<Rightarrow> (nat \<times> world) option" where
  "update_status e i status w =
     Some (length (filter (\<lambda>old. r_id old = i) (w_campaigns w)),
       w\<lparr>w_campaigns :=
          map (\<lambda>old. if r_id old = i then old\<lparr>r_status := status, r_updated_at := db_now e (io_n w)\<rparr>
                     else old) (w_campaigns w)\<rparr>)"

definition CampaignRepository_UpdateStatus ::
    "env \<Rightarrow> uuid \<Rightarrow> campaign_status \<Rightarrow> world \<Rightarrow> go_error option \<times> world" where
  "CampaignRepository_UpdateStatus e i status w =
     (case exec e (update_status e i status) w of
        (Inl err, w') \<Rightarrow> (Some (Errorf ''campaign repo: update status: '' err []), w')
      | (Inr n, w') \<Rightarrow> check_affected e n w')"

definition select_campaigns_after :: "env \<Rightarrow> uuid option \<Rightarrow> int \<Rightarrow> world \<Rightarrow> campaign_row list" where
  "select_campaigns_after e afterID limit w =
     limit_rows limit (sort_key r_id
       (filter (\<lambda>r. case afterID of None \<Rightarrow> True | Some a \<Rightarrow> a < r_id r)
         (scan_campaigns e (w_campaigns w))))"

definition CampaignRepository_List ::
    "env \<Rightarrow> uuid option \<Rightarrow> int \<Rightarrow> world \<Rightarrow> (go_error + Campaign list) \<times> world" where
  "CampaignRepository_List e afterID limit w =
     (let limit = (if limit \<le> 0 then 50 else limit)
      in case fetch_rows e ''campaign repo: list: '' ''campaign repo: scan: ''
                ''campaign repo: rows err: '' (select_campaigns_after e afterID limit) w of
           (Inl err, w') \<Rightarrow> (Inl err, w')
         | (Inr rows, w') \<Rightarrow> (Inr (map toDomain rows), w'))"

definition select_campaigns_by_status :: "env \<Rightarrow> string \<Rightarrow> int \<Rightarrow> world \<Rightarrow> campaign_row list" where
  "select_campaigns_by_status e status limit w =
     limit_rows limit (sort_key (\<lambda>r. t_ns (r_updated_at r))
       (filter (\<lambda>r. r_status r = status) (scan_campaigns e (w_campaigns w))))"

definition CampaignRepository_ListByStatus ::
    "env \<Rightarrow> campaign_status \<Rightarrow> int \<Rightarrow> world \<Rightarrow> (go_error + Campaign list) \<times> world" where
  "CampaignRepository_ListByStatus e status limit w =
     (let limit = (if limit \<le> 0 then 100 else limit)
      in case fetch_rows e ''campaign repo: list by status: '' ''campaign repo: scan: ''
                ''campaign repo: rows err: '' (select_campaigns_by_status e status limit) w of
           (Inl err, w') \<Rightarrow> (Inl err, w')
         | (Inr rows, w') \<Rightarrow> (Inr (map toDomain rows), w'))"

subsection \<open>Transactions\<close>

text \<open>\<open>withTx\<close> of \<open>tx.go\<close>. When the function or the commit fails, the tables are those
  before the transaction; a commit whose reply is lost has taken effect.\<close>

definition rollback_pg :: "world \<Rightarrow> world \<Rightarrow> world" where
  "rollback_pg before w =
     w\<lparr>w_campaigns := w_campaigns before, w_hours := w_hours before,
       w_targets := w_targets before, w_stats := w_stats before\<rparr>"

definition withTx ::
    "env \<Rightarrow> (world \<Rightarrow> go_error option \<times> world) \<Rightarrow> world \<Rightarrow> go_error option \<times> world" where
  "withTx e fn w =
     (case query e (\<lambda>_. ()) w of
        (Inl err, w1) \<Rightarrow> (Some (Errorf ''tx begin: '' err []), w1)
      | (Inr _, w1) \<Rightarrow>
          (case fn w1 of
             (Some err, w2) \<Rightarrow>
               (case query e (\<lambda>_. ()) (rollback_pg w1 w2) of
                  (Inl rbErr, w3) \<Rightarrow>
                    (Some (Errorf (''tx rollback: '' @ Error rbErr @ '' (original err: '') err '')''), w3)
                | (Inr _, w3) \<Rightarrow> (Some err, w3))
           | (None, w2) \<Rightarrow>
               (case io_at e (io_n w2) of
                  IoErr m \<Rightarrow> (Some (Errorf ''tx commit: '' (New m) []), rollback_pg w1 (tick_io w2))
                | IoLost m \<Rightarrow> (Some (Errorf ''tx commit: '' (New m) []), tick_io w2)
                | IoOk \<Rightarrow> (None, tick_io w2))))"

subsection \<open>BusinessHourRepository\<close>

definition minuteToTime :: "int \<Rightarrow> go_time" where
  "minuteToTime m = Date_hm midnight_2000 (go_div m 60) (go_mod m 60)"

definition hours_checks :: "hours_row \<Rightarrow> world \<Rightarrow> bool" where
  "hours_checks h w \<longleftrightarrow>
     h_campaign_id h \<in> r_id ` set (w_campaigns w)
     \<and> 0 \<le> h_day_of_week h \<and> h_day_of_week h \<le> 6
     \<and> 0 \<le> h_start_minute h \<and> h_start_minute h \<le> 1439
     \<and> 0 \<le> h_end_minute h \<and> h_end_minute h \<le> 1439 \<and> h_start_minute h < h_end_minute h
     \<and> h \<notin> set (w_hours w)"

definition insert_hours :: "hours_row \<Rightarrow> world \<Rightarrow> (unit \<times> world) option" where
  "insert_hours h w =
     (if hours_checks h w then Some ((), w\<lparr>w_hours := w_hours w @ [h]\<rparr>) else None)"

definition delete_hours :: "uuid \<Rightarrow> world \<Rightarrow> (unit \<times> world) option" where
  "delete_hours i w = Some ((), w\<lparr>w_hours := filter (\<lambda>h. h_campaign_id h \<noteq> i) (w_hours w)\<rparr>)"

definition window_row :: "uuid \<Rightarrow> BusinessHourWindow \<Rightarrow> hours_row" where
  "window_row i b = \<lparr>h_campaign_id = i, h_day_of_week = DayOfWeek b,
     h_start_minute = Hour (Start b) * 60 + Minute (Start b),
     h_end_minute = Hour (End b) * 60 + Minute (End b)\<rparr>"

fun insert_windows ::
    "env \<Rightarrow> uuid \<Rightarrow> BusinessHourWindow list \<Rightarrow> world \<Rightarrow> go_error option \<times> world" where
  "insert_windows e i [] w = (None, w)"
| "insert_windows e i (b # bs) w =
     (case exec e (insert_hours (window_row i b)) w of
        (Inl err, w') \<Rightarrow> (Some (Errorf ''business hours: insert: '' err []), w')
      | (Inr _, w') \<Rightarrow> insert_windows e i bs w')"

definition BusinessHourRepository_Replace ::
    "env \<Rightarrow> uuid \<Rightarrow> BusinessHourWindow list \<Rightarrow> world \<Rightarrow> go_error option \<times> world" where
  "BusinessHourRepository_Replace e i windows =
     withTx e (\<lambda>w.
       case exec e (delete_hours i) w of
         (Inl err, w') \<Rightarrow> (Some (Errorf ''business hours: delete existing: '' err []), w')
       | (Inr _, w') \<Rightarrow>
           if windows = [] then (None, w')
           else (case query e (\<lambda>_. ()) w' of
                   (Inl err, w'') \<Rightarrow> (Some (Errorf ''business hours: prepare insert: '' err []), w'')
                 | (Inr _, w'') \<Rightarrow> insert_windows e i windows w''))"

definition select_hours :: "env \<Rightarrow> uuid \<Rightarrow> world \<Rightarrow> hours_row list" where
  "select_hours e i w =
     sort_key (\<lambda>h. (h_day_of_week h, h_start_minute h))
       (filter (\<lambda>h. h_campaign_id h = i) (scan_hours e (w_hours w)))"

definition row_window :: "hours_row \<Rightarrow> BusinessHourWindow" where
  "row_window h = \<lparr>DayOfWeek = h_day_of_week h, Start = minuteToTime (h_start_minute h),
     End = minuteToTime (h_end_minute h)\<rparr>"

definition BusinessHourRepository_List ::
    "env \<Rightarrow> uuid \<Rightarrow> world \<Rightarrow> (go_error + BusinessHourWindow list) \<times> world" where
  "BusinessHourRepository_List e i w =
     (case fetch_rows e ''business hours: query: '' ''business hours: scan: ''
             ''business hours: rows err: '' (select_hours e i) w of
        (Inl err, w') \<Rightarrow> (Inl err, w')
      | (Inr rows, w') \<Rightarrow> (Inr (map row_window rows), w'))"

subsection \<open>CampaignTargetRepository\<close>

definition target_to_row :: "uuid \<Rightarrow> CampaignTargetRecord \<Rightarrow> target_row" where
  "target_to_row i t = \<lparr>tg_id = ct_ID t, tg_campaign_id = i, tg_phone_number = ct_PhoneNumber t,
     tg_payload = marshal_map (ct_Payload t), tg_state = ct_State t, tg_scheduled_at = ct_ScheduledAt t,
     tg_last_attempt_at = ct_LastAttempt t, tg_attempt_count = ct_AttemptCount t,
     tg_created_at = ct_CreatedAt t, tg_updated_at = ct_CreatedAt t\<rparr>"

text \<open>\<open>INSERT \<dots> ON CONFLICT (id) DO NOTHING\<close>: a row whose id is taken is skipped.\<close>

fun insert_rows :: "target_row list \<Rightarrow> target_row list \<Rightarrow> target_row list" where
  "insert_rows table [] = table"
| "insert_rows table (r # rs) =
     insert_rows (if tg_id r \<in> tg_id ` set table then table else table @ [r]) rs"

definition insert_targets :: "target_row list \<Rightarrow> world \<Rightarrow> (unit \<times> world) option" where
  "insert_targets rows w =
     (if \<exists>r \<in> set rows. tg_campaign_id r \<notin> r_id ` set (w_campaigns w) \<or> \<not> int32 (tg_attempt_count r)
      then None
      else Some ((), w\<lparr>w_targets := insert_rows (w_targets w) rows\<rparr>))"

definition CampaignTargetRepository_BulkInsert ::
    "env \<Rightarrow> uuid \<Rightarrow> CampaignTargetRecord list \<Rightarrow> world \<Rightarrow> go_error option \<times> world" where
  "CampaignTargetRepository_BulkInsert e i targets w =
     (if targets = [] then (None, w)
      else run_stmt e ''campaign targets: bulk insert: '' (insert_targets (map (target_to_row i) targets)) w)"

definition toModel :: "uuid \<Rightarrow> target_row \<Rightarrow> CampaignTargetRecord" where
  "toModel i r = \<lparr>ct_ID = tg_id r, ct_CampaignID = i, ct_PhoneNumber = tg_phone_number r,
     ct_Payload = (case tg_payload r of JObj kvs \<Rightarrow> Some kvs | _ \<Rightarrow> None),
     ct_State = tg_state r, ct_ScheduledAt = tg_scheduled_at r,
     ct_LastAttempt = tg_last_attempt_at r, ct_AttemptCount = tg_attempt_count r,
     ct_CreatedAt = tg_created_at r\<rparr>"

definition select_targets ::
    "env \<Rightarrow> uuid \<Rightarrow> string option \<Rightarrow> int \<Rightarrow> world \<Rightarrow> target_row list" where
  "select_targets e i state limit w =
     limit_rows limit (sort_key (\<lambda>r. t_ns (tg_created_at r))
       (filter (\<lambda>r. tg_campaign_id r = i \<and> (case state of None \<Rightarrow> True | Some s \<Rightarrow> tg_state r = s))
         (scan_targets e (w_targets w))))"

definition CampaignTargetRepository_NextBatchForScheduling ::
    "env \<Rightarrow> uuid \<Rightarrow> int \<Rightarrow> world \<Rightarrow> (go_error + CampaignTargetRecord list) \<times> world" where
  "CampaignTargetRepository_NextBatchForScheduling e i limit w =
     (let limit = (if limit \<le> 0 then 100 else limit)
      in case fetch_rows e ''campaign targets: select for scheduling: '' ''campaign targets: scan: ''
                ''campaign targets: rows err: '' (select_targets e i (Some ''pending'') limit) w of
           (Inl err, w') \<Rightarrow> (Inl err, w')
         | (Inr rows, w') \<Rightarrow> (Inr (map (toModel i) rows), w'))"

text \<open>\<open>UPDATE campaign_targets \<dots> WHERE campaign_id = $2 AND id = ANY($3)\<close>; the trigger sets
  \<open>updated_at\<close>.\<close>

definition update_targets ::
    "env \<Rightarrow> uuid \<Rightarrow> uuid list \<Rightarrow> (target_row \<Rightarrow> target_row) \<Rightarrow> world \<Rightarrow> (unit \<times> world) option" where
  "update_targets e i ids f w =
     Some ((), w\<lparr>w_targets :=
        map (\<lambda>r. if tg_campaign_id r = i \<and> tg_id r \<in> set ids
                  then (f r)\<lparr>tg_updated_at := db_now e (io_n w)\<rparr> else r) (w_targets w)\<rparr>)"

definition CampaignTargetRepository_MarkScheduled ::
    "env \<Rightarrow> uuid \<Rightarrow> uuid list \<Rightarrow> go_time \<Rightarrow> world \<Rightarrow> go_error option \<times> world" where
  "CampaignTargetRepository_MarkScheduled e i ids scheduledAt w =
     (if ids = [] then (None, w)
      else run_stmt e ''campaign targets: mark scheduled: '' (update_targets e i ids
                   (\<lambda>r. r\<lparr>tg_state := ''queued'', tg_scheduled_at := Some scheduledAt\<rparr>)) w)"

definition CampaignTargetRepository_SetState ::
    "env \<Rightarrow> uuid \<Rightarrow> uuid list \<Rightarrow> string \<Rightarrow> world \<Rightarrow> go_error option \<times> world" where
  "CampaignTargetRepository_SetState e i ids state w =
     (if ids = [] then (None, w)
      else run_stmt e ''campaign targets: set state: '' (update_targets e i ids (\<lambda>r. r\<lparr>tg_state := state\<rparr>)) w)"

definition CampaignTargetRepository_ListByCampaign ::
    "env \<Rightarrow> uuid \<Rightarrow> int \<Rightarrow> string \<Rightarrow> world \<Rightarrow> (go_error + CampaignTargetRecord list) \<times> world" where
  "CampaignTargetRepository_ListByCampaign e i limit state w =
     (let limit = (if limit \<le> 0 then 100 else limit)
      in case fetch_rows e ''campaign targets: list: '' ''campaign targets: scan: ''
                ''campaign targets: rows err: ''
                (select_targets e i (if state \<noteq> [] then Some state else None) limit) w of
           (Inl err, w') \<Rightarrow> (Inl err, w')
         | (Inr rows, w') \<Rightarrow> (Inr (map (toModel i) rows), w'))"

subsection \<open>CampaignStatisticsRepository\<close>

definition zero_stats :: CampaignStats where
  "zero_stats = \<lparr>TotalCalls = 0, CompletedCalls = 0, FailedCalls = 0, InProgressCalls = 0,
     PendingCalls = 0, RetriesAttempted = 0\<rparr>"

definition insert_stats :: "uuid \<Rightarrow> world \<Rightarrow> (unit \<times> world) option" where
  "insert_stats i w =
     (case w_stats w i of
        Some _ \<Rightarrow> Some ((), w)
      | None \<Rightarrow> if i \<in> r_id ` set (w_campaigns w)
                then Some ((), w\<lparr>w_stats := (w_stats w)(i \<mapsto> zero_stats)\<rparr>) else None)"

definition CampaignStatisticsRepository_Ensure :: "env \<Rightarrow> uuid \<Rightarrow> world \<Rightarrow> go_error option \<times> world" where
  "CampaignStatisticsRepository_Ensure e i w =
     run_stmt e ''campaign stats: ensure: '' (insert_stats i) w"

definition CampaignStatisticsRepository_Get ::
    "env \<Rightarrow> uuid \<Rightarrow> world \<Rightarrow> (go_error + CampaignStats) \<times> world" where
  "CampaignStatisticsRepository_Get e i w =
     (case query e (\<lambda>w. w_stats w i) w of
        (Inl err, w') \<Rightarrow> (Inl (Errorf ''campaign stats: get: '' err []), w')
      | (Inr None, w') \<Rightarrow> (Inl (Sentinel ErrNotFound), w')
      | (Inr (Some s), w') \<Rightarrow> (Inr s, w'))"

definition add_delta :: "StatsDelta \<Rightarrow> CampaignStats \<Rightarrow> CampaignStats" where
  "add_delta d s = \<lparr>TotalCalls = TotalCalls s + TotalCallsDelta d,
     CompletedCalls = CompletedCalls s + CompletedCallsDelta d,
     FailedCalls = FailedCalls s + FailedCallsDelta d,
     InProgressCalls = InProgressCalls s + InProgressCallsDelta d,
     PendingCalls = PendingCalls s + PendingCallsDelta d,
     RetriesAttempted = RetriesAttempted s + RetriesDelta d\<rparr>"

definition stats_in_range :: "CampaignStats \<Rightarrow> bool" where
  "stats_in_range s \<longleftrightarrow> int64 (TotalCalls s) \<and> int64 (CompletedCalls s) \<and> int64 (FailedCalls s)
     \<and> int64 (InProgressCalls s) \<and> int64 (PendingCalls s) \<and> int64 (RetriesAttempted s)"

text \<open>\<open>UPDATE campaign_statistics\<close>: a campaign without a row is no error, and the counters are
  BIGINT columns that reject a value out of range.\<close>

definition update_stats :: "uuid \<Rightarrow> StatsDelta \<Rightarrow> world \<Rightarrow> (unit \<times> world) option" where
  "update_stats i d w =
     (case w_stats w i of
        None \<Rightarrow> Some ((), w)
      | Some s \<Rightarrow> if stats_in_range (add_delta d s)
                  then Some ((), w\<lparr>w_stats := (w_stats w)(i \<mapsto> add_delta d s)\<rparr>) else None)"

definition CampaignStatisticsRepository_ApplyDelta ::
    "env \<Rightarrow> uuid \<Rightarrow> StatsDelta \<Rightarrow> world \<Rightarrow> go_error option \<times> world" where
  "CampaignStatisticsRepository_ApplyDelta e i d w =
     run_stmt e ''campaign stats: apply delta: '' (update_stats i d) w"

subsection \<open>The PostgreSQL tables are well formed\<close>

definition hours_row_ok :: "world \<Rightarrow> hours_row \<Rightarrow> bool" where
  "hours_row_ok w h \<longleftrightarrow> h_campaign_id h \<in> r_id ` set (w_campaigns w)
     \<and> 0 \<le> h_day_of_week h \<and> h_day_of_week h \<le> 6 \<and> 0 \<le> h_start_minute h
     \<and> h_start_minute h < h_end_minute h \<and> h_end_minute h \<le> 1439"

definition pg_wf :: "world \<Rightarrow> bool" where
  "pg_wf w \<longleftrightarrow>
     distinct (map r_id (w_campaigns w)) \<and> (\<forall>r \<in> set (w_campaigns w). campaign_checks r)
     \<and> distinct (w_hours w) \<and> (\<forall>h \<in> set (w_hours w). hours_row_ok w h)
     \<and> distinct (map tg_id (w_targets w))
     \<and> (\<forall>t \<in> set (w_targets w). tg_campaign_id t \<in> r_id ` set (w_campaigns w))
     \<and> (\<forall>i s. w_stats w i = Some s \<longrightarrow> i \<in> r_id ` set (w_campaigns w) \<and> stats_in_range s)"

text \<open>\<open>same_pg\<close>: equal PostgreSQL tables, whatever else differs.\<close>

definition same_pg :: "world \<Rightarrow> world \<Rightarrow> bool" where
  "same_pg w w' \<longleftrightarrow> w_campaigns w' = w_campaigns w \<and> w_hours w' = w_hours w
     \<and> w_targets w' = w_targets w \<and> w_stats w' = w_stats w"

lemma same_store_pg: "same_store w w' \<Longrightarrow> same_pg w w'"
  by (simp add: same_pg_def same_store_fields)

lemma rollback_same_pg: "same_pg before (rollback_pg before w)"
  by (simp add: same_pg_def rollback_pg_def)

text \<open>An invariant of the PostgreSQL tables alone survives a transaction, committed or not.\<close>

locale pg_invariant =
  fixes I :: "world \<Rightarrow> bool"
  assumes I_pg: "same_pg w w' \<Longrightarrow> I w \<Longrightarrow> I w'"
begin

sublocale store_invariant I
  by unfold_locales (blast intro: I_pg same_store_pg)

lemma keeps_withTx:
  assumes "withTx e fn w = (r, w')" "I w"
    and "\<And>w err w'. I w \<Longrightarrow> fn w = (err, w') \<Longrightarrow> I w'"
  shows "I w'"
proof -
  obtain q w1 where q: "query e (\<lambda>_. ()) w = (q, w1)" by force
  obtain err w2 where f: "fn w1 = (err, w2)" by force
  have I1: "I w1" using q assms(2) by (rule keeps_query)
  then have I2: "I w2" using f assms(3) by blast
  have Ir: "I (rollback_pg w1 w3)" for w3
    using I1 I_pg rollback_same_pg by blast
  show ?thesis
  proof (cases q)
    case (Inl x)
    with assms(1) q I1 show ?thesis by (simp add: withTx_def)
  next
    case (Inr u)
    show ?thesis
    proof (cases err)
      case None
      then show ?thesis
        using assms(1) q f Inr I2 Ir
        by (auto simp: withTx_def keeps_tick split: io_outcome.splits)
    next
      case (Some er)
      obtain q3 w3 where "query e (\<lambda>_. ()) (rollback_pg w1 w2) = (q3, w3)" by force
      moreover from this Ir have "I w3" by (rule keeps_query)
      ultimately show ?thesis
        using assms(1) q f Inr Some by (auto simp: withTx_def split: sum.splits)
    qed
  qed
qed

end

lemma pg_wf_same_pg: "same_pg w w' \<Longrightarrow> pg_wf w \<Longrightarrow> pg_wf w'"
  by (simp add: pg_wf_def hours_row_ok_def same_pg_def)

interpretation wf: pg_invariant pg_wf
  by unfold_locales (rule pg_wf_same_pg)

text \<open>What well-formedness depends on: the ids of the campaigns and of the targets, and that every
  target's campaign is known.\<close>

lemma pg_wf_cong:
  assumes wf: "pg_wf w"
    and ids: "map r_id (w_campaigns w') = map r_id (w_campaigns w)"
    and checks: "\<forall>r \<in> set (w_campaigns w'). campaign_checks r"
    and tids: "map tg_id (w_targets w') = map tg_id (w_targets w)"
    and tcs: "map tg_campaign_id (w_targets w') = map tg_campaign_id (w_targets w)"
    and rest: "w_hours w' = w_hours w" "w_stats w' = w_stats w"
  shows "pg_wf w'"
proof -
  have i: "r_id ` set (w_campaigns w') = r_id ` set (w_campaigns w)"
    and t: "tg_campaign_id ` set (w_targets w') = tg_campaign_id ` set (w_targets w)"
    using ids tcs by (metis list.set_map)+
  have "tg_campaign_id ` set (w_targets w) \<subseteq> r_id ` set (w_campaigns w)"
    using wf unfolding pg_wf_def image_subset_iff by blast
  then have "\<forall>t \<in> set (w_targets w'). tg_campaign_id t \<in> r_id ` set (w_campaigns w)"
    unfolding t [symmetric] image_subset_iff .
  then show ?thesis
    using wf checks unfolding pg_wf_def hours_row_ok_def i ids tids rest by simp
qed

text \<open>Each statement keeps the tables well formed.\<close>

lemma insert_campaign_wf: "pg_wf w \<Longrightarrow> insert_campaign e r w = Some (a, w') \<Longrightarrow> pg_wf w'"
  by (auto simp: pg_wf_def insert_campaign_def hours_row_ok_def split: if_splits)

lemma update_rows_wf:
  assumes "pg_wf w" "w' = w\<lparr>w_campaigns := map (\<lambda>old. if r_id old = i then f old else old) (w_campaigns w)\<rparr>"
    and "\<And>old. r_id old = i \<Longrightarrow> old \<in> set (w_campaigns w) \<Longrightarrow> r_id (f old) = i \<and> campaign_checks (f old)"
  shows "pg_wf w'"
proof (rule pg_wf_cong [OF assms(1)])
  show "\<forall>r \<in> set (w_campaigns w'). campaign_checks r"
    using assms by (auto simp: pg_wf_def)
qed (use assms in auto)

lemma update_campaign_wf: "pg_wf w \<Longrightarrow> update_campaign e r w = Some (a, w') \<Longrightarrow> pg_wf w'"
  by (auto simp: update_campaign_def Let_def updated_row_def campaign_checks_def
      split: if_splits intro: update_rows_wf)

lemma update_status_wf: "pg_wf w \<Longrightarrow> update_status e i s w = Some (a, w') \<Longrightarrow> pg_wf w'"
  by (rule update_rows_wf [where i = i and
        f = "\<lambda>old. old\<lparr>r_status := s, r_updated_at := db_now e (io_n w)\<rparr>"])
    (auto simp: update_status_def pg_wf_def campaign_checks_def)

lemma insert_hours_wf: "pg_wf w \<Longrightarrow> insert_hours h w = Some (a, w') \<Longrightarrow> pg_wf w'"
  by (auto simp: pg_wf_def insert_hours_def hours_checks_def hours_row_ok_def split: if_splits)

lemma delete_hours_wf: "pg_wf w \<Longrightarrow> delete_hours i w = Some (a, w') \<Longrightarrow> pg_wf w'"
  by (auto simp: pg_wf_def delete_hours_def hours_row_ok_def)

lemma insert_rows_set: "set (insert_rows table rs) \<subseteq> set table \<union> set rs"
  by (induction table rs rule: insert_rows.induct) (auto split: if_splits)

lemma insert_rows_distinct:
  "distinct (map tg_id table) \<Longrightarrow> distinct (map tg_id (insert_rows table rs))"
  by (induction table rs rule: insert_rows.induct) auto

lemma insert_targets_wf: "pg_wf w \<Longrightarrow> insert_targets rows w = Some (a, w') \<Longrightarrow> pg_wf w'"
  using insert_rows_set [of "w_targets w" rows] insert_rows_distinct [of "w_targets w" rows]
  by (auto simp: pg_wf_def insert_targets_def hours_row_ok_def split: if_splits)

lemma update_targets_wf:
  assumes "pg_wf w" "update_targets e i ids f w = Some (a, w')"
    and "\<And>r. tg_id (f r) = tg_id r \<and> tg_campaign_id (f r) = tg_campaign_id r"
  shows "pg_wf w'"
proof (rule pg_wf_cong [OF assms(1)])
  show "\<forall>r \<in> set (w_campaigns w'). campaign_checks r"
    using assms by (auto simp: pg_wf_def update_targets_def)
qed (use assms in \<open>auto simp: update_targets_def\<close>)

lemma insert_stats_wf: "pg_wf w \<Longrightarrow> insert_stats i w = Some (a, w') \<Longrightarrow> pg_wf w'"
  by (auto simp: pg_wf_def insert_stats_def hours_row_ok_def stats_in_range_def zero_stats_def int64_def
      split: option.splits if_splits)

lemma update_stats_wf: "pg_wf w \<Longrightarrow> update_stats i d w = Some (a, w') \<Longrightarrow> pg_wf w'"
  by (auto simp: pg_wf_def update_stats_def hours_row_ok_def split: option.splits if_splits)

end
