(* ===== verification/Postgres_Laws.thy ===== *)
theory Postgres_Laws
  imports Postgres
begin

text \<open>
  The contracts of the PostgreSQL repositories, stated as locales over the methods a client calls
  and interpreted on the methods of theory \<open>Postgres\<close>: what a read returns, what a write
  changes and what it leaves alone, with every request allowed to fail.
\<close>

subsection \<open>Campaigns\<close>

definition campaign_at :: "uuid \<Rightarrow> world \<Rightarrow> Campaign option" where
  "campaign_at i w = map_option toDomain (find_campaign i w)"

text \<open>What a campaign reads back as once it is stored: delays in whole milliseconds, the time
  columns dropped.\<close>

definition stored :: "Campaign \<Rightarrow> Campaign" where
  "stored c = toDomain (to_row c)"

lemma stored_fields [simp]:
  "c_ID (stored c) = c_ID c" "c_Name (stored c) = c_Name c" "c_Status (stored c) = c_Status c"
  "c_Description (stored c) = c_Description c" "c_TimeZone (stored c) = c_TimeZone c"
  "c_MaxConcurrentCalls (stored c) = c_MaxConcurrentCalls c"
  "MaxAttempts (c_RetryPolicy (stored c)) = MaxAttempts (c_RetryPolicy c)"
  "Jitter (c_RetryPolicy (stored c)) = Jitter (c_RetryPolicy c)"
  by (simp_all add: stored_def toDomain_def to_row_def)

lemma find_campaign_Some: "find_campaign i w = Some r \<Longrightarrow> r_id r = i \<and> r \<in> set (w_campaigns w)"
  by (auto simp: find_campaign_def find_Some_iff)

lemma campaign_at_ID: "campaign_at i w = Some c \<Longrightarrow> c_ID c = i"
  by (auto simp: campaign_at_def toDomain_def dest: find_campaign_Some)

lemma campaign_at_same: "same_store w w' \<Longrightarrow> campaign_at i w' = campaign_at i w"
  by (simp add: campaign_at_def find_campaign_def same_store_fields)

lemma find_map_other:
  "j \<noteq> i \<Longrightarrow> (\<And>old. r_id old = i \<Longrightarrow> r_id (f old) = i) \<Longrightarrow>
   find (\<lambda>r. r_id r = j) (map (\<lambda>old. if r_id old = i then f old else old) xs)
     = find (\<lambda>r. r_id r = j) xs"
  by (induction xs) auto

lemma find_map_hit:
  "(\<And>old. r_id old = i \<Longrightarrow> r_id (f old) = i) \<Longrightarrow>
   find (\<lambda>r. r_id r = i) (map (\<lambda>old. if r_id old = i then f old else old) xs)
     = map_option f (find (\<lambda>r. r_id r = i) xs)"
  by (induction xs) auto

locale campaign_repository =
  fixes lookup :: "uuid \<Rightarrow> world \<Rightarrow> Campaign option"
    and get :: "env \<Rightarrow> uuid \<Rightarrow> world \<Rightarrow> (go_error + Campaign) \<times> world"
    and update :: "env \<Rightarrow> Campaign \<Rightarrow> world \<Rightarrow> go_error option \<times> world"
    and readback :: "Campaign \<Rightarrow> Campaign"
  assumes lookup_same: "same_store w w' \<Longrightarrow> lookup i w' = lookup i w"
    and lookup_ID: "lookup i w = Some c \<Longrightarrow> c_ID c = i"
    and get_same: "get e i w = (r, w') \<Longrightarrow> same_store w w'"
    and get_found: "get e i w = (Inr c, w') \<Longrightarrow> lookup i w = Some c"
    and get_total: "no_faults e \<Longrightarrow> lookup i w = Some c \<Longrightarrow> fst (get e i w) = Inr c"
    and update_other: "update e c w = (err, w') \<Longrightarrow> j \<noteq> c_ID c \<Longrightarrow> lookup j w' = lookup j w"
    and update_done: "update e c w = (None, w') \<Longrightarrow> lookup (c_ID c) w' = Some (readback c)"
    and update_either: "update e c w = (err, w') \<Longrightarrow>
          lookup (c_ID c) w' = lookup (c_ID c) w \<or> lookup (c_ID c) w' = Some (readback c)"
begin

text \<open>Reading a campaign, changing it and writing it back, as \<open>Start\<close>, \<open>Pause\<close> and
  \<open>Complete\<close> do.\<close>

lemma read_write:
  assumes g: "get e i w = (Inr c, w1)" and s: "same_store w1 w2"
    and id: "c_ID c' = c_ID c" and u: "update e c' w2 = (err, w')"
  shows "j \<noteq> i \<Longrightarrow> lookup j w' = lookup j w"
    and "err = None \<Longrightarrow> lookup i w' = Some (readback c')"
    and "lookup i w' = Some c \<or> lookup i w' = Some (readback c')"
proof -
  have c: "lookup i w = Some c"
    by (rule get_found [OF g])
  then have i: "c_ID c' = i"
    using lookup_ID id by simp
  have eq: "lookup k w2 = lookup k w" for k
    using get_same [OF g] s by (simp add: lookup_same)
  show "j \<noteq> i \<Longrightarrow> lookup j w' = lookup j w"
    using update_other [OF u] i eq by simp
  show "err = None \<Longrightarrow> lookup i w' = Some (readback c')"
    using update_done u i by auto
  show "lookup i w' = Some c \<or> lookup i w' = Some (readback c')"
    using update_either [OF u] i eq c by auto
qed

end

lemma Get_same [frame]: "CampaignRepository_Get e i w = (r, w') \<Longrightarrow> same_store w w'"
  by (auto simp: CampaignRepository_Get_def split: prod.splits sum.splits option.splits dest: query_same)

lemma Get_found: "CampaignRepository_Get e i w = (Inr c, w') \<Longrightarrow> campaign_at i w = Some c"
  by (auto simp: CampaignRepository_Get_def campaign_at_def
      split: prod.splits sum.splits option.splits dest!: query_Inr sym [where s = "Some _"])

lemma Get_ok:
  "no_faults e \<Longrightarrow> CampaignRepository_Get e i w =
     (case campaign_at i w of None \<Rightarrow> Inl (Sentinel ErrNotFound) | Some c \<Rightarrow> Inr c, tick_io w)"
  by (simp add: CampaignRepository_Get_def query_ok campaign_at_def split: option.splits)

lemma check_affected_same: "check_affected e n w = (err, w') \<Longrightarrow> same_store w w'"
  by (auto simp: check_affected_def split: prod.splits sum.splits dest: query_same)

lemma check_affected_None: "check_affected e n w = (None, w') \<Longrightarrow> n \<noteq> 0"
  by (auto simp: check_affected_def split: prod.splits sum.splits if_splits dest: query_Inr)

text \<open>An update either leaves the store as it is or rewrites the rows with the campaign's id.\<close>

definition rewritten :: "env \<Rightarrow> Campaign \<Rightarrow> world \<Rightarrow> world" where
  "rewritten e c w = w\<lparr>w_campaigns :=
     map (\<lambda>old. if r_id old = c_ID c then updated_row e w (to_row c) old else old) (w_campaigns w)\<rparr>"

lemma Update_cases:
  assumes "CampaignRepository_Update e c w = (err, w')"
  obtains (same) "same_store w w'" "err \<noteq> None"
  | (rewrote) "same_store (rewritten e c (tick_io w)) w'"
       "err = None \<Longrightarrow> \<exists>r \<in> set (w_campaigns w). r_id r = c_ID c"
proof -
  obtain r w1 where x: "exec e (update_campaign e (to_row c)) w = (r, w1)" by force
  have id: "r_id (to_row c) = c_ID c" by (simp add: to_row_def)
  show thesis
  proof (cases r)
    case (Inl er)
    with assms x have w': "w' = w1" "err \<noteq> None"
      by (auto simp: CampaignRepository_Update_def)
    from x show thesis
    proof (cases rule: exec_cases)
      case (effect n)
      then have "w1 = tick_io w \<or> w1 = rewritten e c (tick_io w)"
        by (auto simp: update_campaign_def rewritten_def Let_def id split: if_splits)
      then show thesis
        using w' same rewrote by (metis same_store_counters(1) same_store_refl)
    next
      case (nothing m)
      then show thesis using w' same by auto
    qed
  next
    case (Inr n)
    have st: "update_campaign e (to_row c) (tick_io w) = Some (n, w1)"
      using x Inr by (auto dest: exec_Inr)
    have ca: "check_affected e n w1 = (err, w')"
      using assms x Inr by (auto simp: CampaignRepository_Update_def)
    show thesis
    proof (cases "n = 0")
      case True
      then have "err \<noteq> None"
        using ca check_affected_None [of e n w1 w'] by auto
      moreover have "w1 = tick_io w \<or> w1 = rewritten e c (tick_io w)"
        using st by (auto simp: update_campaign_def rewritten_def Let_def id split: if_splits)
      ultimately show thesis
        using check_affected_same [OF ca] same rewrote
        by (metis same_store_counters(1) same_store_trans)
    next
      case False
      then have "w1 = rewritten e c (tick_io w)"
        using st by (auto simp: update_campaign_def rewritten_def Let_def id split: if_splits)
      moreover have "\<exists>r \<in> set (w_campaigns w). r_id r = c_ID c"
        using st False by (auto simp: update_campaign_def Let_def id filter_empty_conv split: if_splits)
      ultimately show thesis
        using check_affected_same [OF ca] rewrote by blast
    qed
  qed
qed

lemma updated_row_id [simp]: "r_id (updated_row e w (to_row c) old) = c_ID c"
  by (simp add: updated_row_def to_row_def)

lemma toDomain_updated [simp]: "toDomain (updated_row e w (to_row c) old) = stored c"
  by (simp add: updated_row_def stored_def toDomain_def)

lemma campaign_at_rewritten:
  "campaign_at j (rewritten e c w) =
     (if j = c_ID c then map_option (\<lambda>_. stored c) (campaign_at j w) else campaign_at j w)"
  by (simp add: campaign_at_def find_campaign_def rewritten_def find_map_other find_map_hit
      option.map_comp comp_def)

lemma campaign_at_exists: "\<exists>r \<in> set (w_campaigns w). r_id r = i \<Longrightarrow> campaign_at i w \<noteq> None"
  by (auto simp: campaign_at_def find_campaign_def find_None_iff)

interpretation campaigns: campaign_repository
  campaign_at CampaignRepository_Get CampaignRepository_Update stored
proof
  fix e i w c r w' err j
  show "same_store w w' \<Longrightarrow> campaign_at i w' = campaign_at i w" by (rule campaign_at_same)
  show "campaign_at i w = Some c \<Longrightarrow> c_ID c = i" by (rule campaign_at_ID)
  show "CampaignRepository_Get e i w = (r, w') \<Longrightarrow> same_store w w'" by (rule Get_same)
  show "CampaignRepository_Get e i w = (Inr c, w') \<Longrightarrow> campaign_at i w = Some c" by (rule Get_found)
  show "no_faults e \<Longrightarrow> campaign_at i w = Some c \<Longrightarrow> fst (CampaignRepository_Get e i w) = Inr c"
    by (simp add: Get_ok)
  assume u: "CampaignRepository_Update e c w = (err, w')"
  then show "j \<noteq> c_ID c \<Longrightarrow> campaign_at j w' = campaign_at j w"
    by (cases rule: Update_cases)
      (simp_all add: campaign_at_same campaign_at_rewritten campaign_at_same [of w "tick_io w"])
  from u show "campaign_at (c_ID c) w' = campaign_at (c_ID c) w
      \<or> campaign_at (c_ID c) w' = Some (stored c)"
    by (cases rule: Update_cases; cases "campaign_at (c_ID c) w")
      (simp_all add: campaign_at_same campaign_at_rewritten campaign_at_same [of w "tick_io w"])
next
  fix e c w w'
  assume "CampaignRepository_Update e c w = (None, w')"
  then show "campaign_at (c_ID c) w' = Some (stored c)"
    by (cases rule: Update_cases)
      (auto simp: campaign_at_same campaign_at_rewritten campaign_at_same [of w "tick_io w"]
        dest!: campaign_at_exists)
qed

subsection \<open>Business hours\<close>

text \<open>A window by its day and its two minutes of the day, which is all that is stored of it.\<close>

definition window_key :: "BusinessHourWindow \<Rightarrow> int \<times> int \<times> int" where
  "window_key b = (DayOfWeek b, minute_of_day (Start b), minute_of_day (End b))"

definition hours_key :: "hours_row \<Rightarrow> int \<times> int \<times> int" where
  "hours_key h = (h_day_of_week h, h_start_minute h, h_end_minute h)"

definition hours_at :: "uuid \<Rightarrow> world \<Rightarrow> (int \<times> int \<times> int) multiset" where
  "hours_at i w = mset (map hours_key (filter (\<lambda>h. h_campaign_id h = i) (w_hours w)))"

lemma hours_at_same: "same_pg w w' \<Longrightarrow> hours_at i w' = hours_at i w"
  by (simp add: hours_at_def same_pg_def)

lemma window_row_key [simp]: "hours_key (window_row i b) = window_key b"
  by (simp add: hours_key_def window_row_def window_key_def minute_of_day_def)

lemma window_row_id [simp]: "h_campaign_id (window_row i b) = i"
  by (simp add: window_row_def)

lemma minuteToTime_minute: "0 \<le> m \<Longrightarrow> m < 1440 \<Longrightarrow> minute_of_day (minuteToTime m) = m"
  by (simp add: minute_of_day_def minuteToTime_def)

lemma row_window_key:
  "0 \<le> h_start_minute h \<Longrightarrow> h_start_minute h < 1440 \<Longrightarrow> 0 \<le> h_end_minute h \<Longrightarrow>
   h_end_minute h < 1440 \<Longrightarrow> window_key (row_window h) = hours_key h"
  by (simp add: window_key_def row_window_def hours_key_def minuteToTime_minute)

text \<open>The windows PostgreSQL accepts: the window must close after it opens on the same day.\<close>

definition storable :: "BusinessHourWindow \<Rightarrow> bool" where
  "storable b \<longleftrightarrow> 0 \<le> DayOfWeek b \<and> DayOfWeek b \<le> 6
     \<and> minute_of_day (Start b) < minute_of_day (End b)"

lemma hours_checks_storable: "hours_checks (window_row i b) w \<Longrightarrow> storable b"
  by (simp add: hours_checks_def storable_def window_row_def minute_of_day_def)

text \<open>The insert loop: on success every window was storable and its row is appended; in any case
  only the hours of this campaign change.\<close>

lemma insert_windows_None:
  assumes "insert_windows e i bs w = (None, w')"
  shows "w_hours w' = w_hours w @ map (window_row i) bs" "\<forall>b \<in> set bs. storable b"
  using assms
proof (induction bs arbitrary: w)
  case Nil
  { case 1 then show ?case by simp }
  { case 2 then show ?case by simp }
next
  case (Cons b bs)
  { case 1
    then obtain w1 where x: "exec e (insert_hours (window_row i b)) w = (Inr (), w1)"
      and r: "insert_windows e i bs w1 = (None, w')"
      by (auto split: prod.splits sum.splits)
    from x have "w_hours w1 = w_hours w @ [window_row i b]"
      by (auto dest!: exec_Inr simp: insert_hours_def split: if_splits)
    with Cons.IH(1) [OF r] show ?case by simp }
  { case 2
    then obtain w1 where x: "exec e (insert_hours (window_row i b)) w = (Inr (), w1)"
      and r: "insert_windows e i bs w1 = (None, w')"
      by (auto split: prod.splits sum.splits)
    from x have "storable b"
      by (auto dest!: exec_Inr hours_checks_storable simp: insert_hours_def split: if_splits)
    with Cons.IH(2) [OF r] show ?case by simp }
qed

text \<open>\<open>only_hours i w w'\<close>: the two worlds agree but for the hours of campaign \<open>i\<close>.\<close>

definition only_hours :: "uuid \<Rightarrow> world \<Rightarrow> world \<Rightarrow> bool" where
  "only_hours i w w' \<longleftrightarrow> same_store (w\<lparr>w_hours := w_hours w'\<rparr>) w'
     \<and> filter (\<lambda>h. h_campaign_id h \<noteq> i) (w_hours w') = filter (\<lambda>h. h_campaign_id h \<noteq> i) (w_hours w)"

lemma only_hours_same: "same_store w w' \<Longrightarrow> only_hours i w w'"
  by (cases w; cases w') (simp add: only_hours_def same_store_def)

lemma only_hours_trans [trans]: "only_hours i a b \<Longrightarrow> only_hours i b c \<Longrightarrow> only_hours i a c"
  by (cases a; cases b; cases c) (simp add: only_hours_def same_store_def)

lemma only_hours_insert: "insert_hours (window_row i b) w = Some (a, w') \<Longrightarrow> only_hours i w w'"
  by (auto simp: insert_hours_def only_hours_def same_store_def split: if_splits)

lemma only_hours_delete: "delete_hours i w = Some (a, w') \<Longrightarrow> only_hours i w w'"
  by (auto simp: delete_hours_def only_hours_def same_store_def)

lemma only_hours_exec:
  assumes "exec e stmt w = (r, w')" "\<And>w a w'. stmt w = Some (a, w') \<Longrightarrow> only_hours i w w'"
  shows "only_hours i w w'"
  using assms(1)
proof (cases rule: exec_cases)
  case (effect a)
  then show ?thesis
    using assms(2) only_hours_same only_hours_trans same_store_counters(1) by blast
next
  case (nothing m)
  then show ?thesis by (simp add: only_hours_same)
qed

lemma only_hours_insert_windows: "insert_windows e i bs w = (r, w') \<Longrightarrow> only_hours i w w'"
proof (induction bs arbitrary: w)
  case Nil
  then show ?case by (simp add: only_hours_same)
next
  case (Cons b bs)
  obtain q w1 where x: "exec e (insert_hours (window_row i b)) w = (q, w1)" by force
  then have o: "only_hours i w w1"
    using only_hours_exec only_hours_insert by blast
  then show ?case
    using Cons x by (cases q) (auto intro: only_hours_trans)
qed

lemma withTx_cases:
  assumes "withTx e fn w = (err, w')"
  obtains (unbegun) "same_store w w'" "err \<noteq> None"
  | (undone) w1 q w2 where "same_store w w1" "fn w1 = (q, w2)" "same_store (rollback_pg w1 w2) w'" "err \<noteq> None"
  | (committed) w1 w2 where "same_store w w1" "fn w1 = (None, w2)" "same_store w2 w'"
proof -
  obtain b w1 where b: "query e (\<lambda>_. ()) w = (b, w1)" by force
  obtain q w2 where f: "fn w1 = (q, w2)" by force
  have s1: "same_store w w1" using b by (rule query_same)
  show thesis
  proof (cases b)
    case (Inl x)
    then show thesis using assms b s1 unbegun by (auto simp: withTx_def)
  next
    case (Inr u)
    show thesis
    proof (cases q)
      case None
      have tick: "same_store (rollback_pg w1 w2) (rollback_pg w1 (tick_io w2))"
        by (simp add: rollback_pg_def same_store_def tick_io_def)
      show thesis
        using assms b f Inr None s1 tick undone committed
        by (auto simp: withTx_def split: io_outcome.splits)
    next
      case (Some er)
      obtain q3 w3 where r: "query e (\<lambda>_. ()) (rollback_pg w1 w2) = (q3, w3)" by force
      then have "same_store (rollback_pg w1 w2) w3" by (rule query_same)
      moreover have "w' = w3" "err \<noteq> None"
        using assms b f r Inr Some by (auto simp: withTx_def split: sum.splits)
      ultimately show thesis using undone s1 f by blast
    qed
  qed
qed

lemma only_hours_rollback: "only_hours i w1 w2 \<Longrightarrow> same_store w1 (rollback_pg w1 w2)"
  by (cases w1; cases w2) (simp add: only_hours_def same_store_def rollback_pg_def)

text \<open>The body of the transaction in \<open>Replace\<close>.\<close>

definition replace_body :: "env \<Rightarrow> uuid \<Rightarrow> BusinessHourWindow list \<Rightarrow> world \<Rightarrow> go_error option \<times> world" where
  "replace_body e i windows w =
     (case exec e (delete_hours i) w of
        (Inl err, w') \<Rightarrow> (Some (Errorf ''business hours: delete existing: '' err []), w')
      | (Inr _, w') \<Rightarrow>
          if windows = [] then (None, w')
          else (case query e (\<lambda>_. ()) w' of
                  (Inl err, w'') \<Rightarrow> (Some (Errorf ''business hours: prepare insert: '' err []), w'')
                | (Inr _, w'') \<Rightarrow> insert_windows e i windows w''))"

lemma Replace_withTx: "BusinessHourRepository_Replace e i ws w = withTx e (replace_body e i ws) w"
  by (simp add: BusinessHourRepository_Replace_def replace_body_def [abs_def])

lemma replace_body_only_hours: "replace_body e i ws w = (r, w') \<Longrightarrow> only_hours i w w'"
proof -
  assume r: "replace_body e i ws w = (r, w')"
  obtain q w1 where x: "exec e (delete_hours i) w = (q, w1)" by force
  then have o: "only_hours i w w1"
    using only_hours_exec only_hours_delete by blast
  obtain q2 w2 where y: "query e (\<lambda>_. ()) w1 = (q2, w2)" by force
  then have "only_hours i w1 w2"
    by (intro only_hours_same query_same)
  then have o2: "only_hours i w w2"
    using o only_hours_trans by blast
  show ?thesis
    using r x y o o2
    by (cases q; cases q2)
      (auto simp: replace_body_def split: if_splits
        dest: only_hours_insert_windows intro: only_hours_trans)
qed

lemma replace_body_None:
  assumes "replace_body e i ws w = (None, w')"
  shows "hours_at i w' = mset (map window_key ws)" "\<forall>b \<in> set ws. storable b"
proof -
  obtain u w1 where x: "exec e (delete_hours i) w = (Inr u, w1)"
    using assms by (auto simp: replace_body_def split: prod.splits sum.splits)
  then have w1: "filter (\<lambda>h. h_campaign_id h = i) (w_hours w1) = []"
    by (auto dest!: exec_Inr simp: delete_hours_def)
  obtain w2 where ins: "insert_windows e i ws w2 = (None, w')" and s: "same_store w1 w2"
    using assms x
    by (auto simp: replace_body_def split: prod.splits sum.splits if_splits dest: query_same)
  show "\<forall>b \<in> set ws. storable b"
    using insert_windows_None(2) [OF ins] .
  have "filter (\<lambda>h. h_campaign_id h = i) (w_hours w') = map (window_row i) ws"
    using insert_windows_None(1) [OF ins] w1 s by (simp add: same_store_fields filter_id_conv)
  then show "hours_at i w' = mset (map window_key ws)"
    by (simp add: hours_at_def comp_def)
qed

lemma Replace_cases:
  assumes "BusinessHourRepository_Replace e i ws w = (err, w')"
  obtains (same) "same_store w w'" "err \<noteq> None"
  | (replaced) "only_hours i w w'" "hours_at i w' = mset (map window_key ws)"
      "\<forall>b \<in> set ws. storable b"
  using assms unfolding Replace_withTx
proof (cases rule: withTx_cases)
  case unbegun
  then show thesis by (rule same)
next
  case (undone w1 q w2)
  then have "same_store w1 (rollback_pg w1 w2)"
    by (intro only_hours_rollback replace_body_only_hours)
  then show thesis using undone same same_store_trans by blast
next
  case (committed w1 w2)
  have "only_hours i w w'"
    using committed replace_body_only_hours only_hours_same only_hours_trans by metis
  moreover have "hours_at i w' = hours_at i w2"
    using committed by (simp add: hours_at_same same_store_pg)
  ultimately show thesis
    using replaced replace_body_None [OF committed(2)] by metis
qed

lemma List_hours_same [frame]: "BusinessHourRepository_List e i w = (r, w') \<Longrightarrow> same_store w w'"
  by (auto simp: BusinessHourRepository_List_def split: prod.splits sum.splits dest: fetch_rows_same)

lemma List_hours_Inr:
  "BusinessHourRepository_List e i w = (Inr ws, w') \<Longrightarrow> ws = map row_window (select_hours e i w)"
  by (auto simp: BusinessHourRepository_List_def split: prod.splits sum.splits dest!: fetch_rows_Inr)

lemma select_hours_set: "scans (scan_hours e) \<Longrightarrow> h \<in> set (select_hours e i w) \<longleftrightarrow>
    h \<in> set (w_hours w) \<and> h_campaign_id h = i"
  by (auto simp: select_hours_def scans_set)

lemma select_hours_mset: "scans (scan_hours e) \<Longrightarrow>
    mset (map hours_key (select_hours e i w)) = hours_at i w"
  by (simp add: select_hours_def hours_at_def scans_def mset_filter)

text \<open>In a well-formed store a listed window has the key of its row.\<close>

lemma listed_keys:
  assumes "pg_wf w" "scans (scan_hours e)"
  shows "mset (map window_key (map row_window (select_hours e i w))) = hours_at i w"
proof -
  have "window_key (row_window h) = hours_key h" if "h \<in> set (select_hours e i w)" for h
  proof -
    have "hours_row_ok w h"
      using that assms by (simp add: select_hours_set pg_wf_def)
    then show ?thesis
      by (intro row_window_key) (auto simp: hours_row_ok_def)
  qed
  then have "map window_key (map row_window (select_hours e i w)) = map hours_key (select_hours e i w)"
    by simp
  then show ?thesis
    using select_hours_mset [OF assms(2)] by metis
qed

locale business_hour_repository =
  fixes view :: "uuid \<Rightarrow> world \<Rightarrow> (int \<times> int \<times> int) multiset"
    and ok :: "env \<Rightarrow> world \<Rightarrow> bool"
    and replace :: "env \<Rightarrow> uuid \<Rightarrow> BusinessHourWindow list \<Rightarrow> world \<Rightarrow> go_error option \<times> world"
    and list_hours :: "env \<Rightarrow> uuid \<Rightarrow> world \<Rightarrow> (go_error + BusinessHourWindow list) \<times> world"
  assumes replace_ok: "ok e w \<Longrightarrow> replace e i ws w = (err, w') \<Longrightarrow> ok e w'"
    and replace_done: "replace e i ws w = (None, w') \<Longrightarrow> view i w' = mset (map window_key ws)"
    and list_view: "ok e w \<Longrightarrow> list_hours e i w = (Inr ws, w') \<Longrightarrow> mset (map window_key ws) = view i w"
begin

lemma list_after_replace:
  assumes "ok e w" "replace e i ws w = (None, w1)" "list_hours e i w1 = (Inr ws', w2)"
  shows "mset (map window_key ws') = mset (map window_key ws)"
  using assms replace_ok list_view replace_done by metis

end

lemma insert_windows_wf: "insert_windows e i bs w = (r, w') \<Longrightarrow> pg_wf w \<Longrightarrow> pg_wf w'"
proof (induction bs arbitrary: w)
  case Nil
  then show ?case by simp
next
  case (Cons b bs)
  obtain q w1 where x: "exec e (insert_hours (window_row i b)) w = (q, w1)" by force
  then have "pg_wf w1"
    using Cons.prems(2) insert_hours_wf by (rule wf.keeps_exec)
  then show ?case
    using Cons x by (cases q) auto
qed

lemma replace_body_wf: "pg_wf w \<Longrightarrow> replace_body e i ws w = (err, w') \<Longrightarrow> pg_wf w'"
proof -
  assume wf: "pg_wf w" and r: "replace_body e i ws w = (err, w')"
  obtain q w1 where x: "exec e (delete_hours i) w = (q, w1)" by force
  then have w1: "pg_wf w1"
    using wf delete_hours_wf by (rule wf.keeps_exec)
  obtain q2 w2 where y: "query e (\<lambda>_. ()) w1 = (q2, w2)" by force
  then have w2: "pg_wf w2"
    using w1 by (rule wf.keeps_query)
  show ?thesis
    using r x y w1 w2
    by (cases q; cases q2)
      (auto simp: replace_body_def split: if_splits dest: insert_windows_wf)
qed

lemma Replace_wf: "BusinessHourRepository_Replace e i ws w = (err, w') \<Longrightarrow> pg_wf w \<Longrightarrow> pg_wf w'"
  unfolding Replace_withTx by (rule wf.keeps_withTx) (auto intro: replace_body_wf)

interpretation hours: business_hour_repository
  hours_at "\<lambda>e w. pg_wf w \<and> scans (scan_hours e)" BusinessHourRepository_Replace BusinessHourRepository_List
proof
  fix e w i ws err w'
  show "pg_wf w \<and> scans (scan_hours e) \<Longrightarrow> BusinessHourRepository_Replace e i ws w = (err, w') \<Longrightarrow>
      pg_wf w' \<and> scans (scan_hours e)"
    using Replace_wf by blast
  show "BusinessHourRepository_Replace e i ws w = (None, w') \<Longrightarrow> hours_at i w' = mset (map window_key ws)"
    by (auto elim: Replace_cases)
  show "pg_wf w \<and> scans (scan_hours e) \<Longrightarrow> BusinessHourRepository_List e i w = (Inr ws, w') \<Longrightarrow>
      mset (map window_key ws) = hours_at i w"
    using listed_keys List_hours_Inr by metis
qed

subsection \<open>Targets\<close>

definition targets_of :: "uuid \<Rightarrow> world \<Rightarrow> target_row set" where
  "targets_of i w = {r \<in> set (w_targets w). tg_campaign_id r = i}"

definition phones_of :: "uuid \<Rightarrow> world \<Rightarrow> string set" where
  "phones_of i w = tg_phone_number ` targets_of i w"

lemma phones_of_same: "same_store w w' \<Longrightarrow> phones_of i w' = phones_of i w"
  by (simp add: phones_of_def targets_of_def same_store_fields)

lemma distinct_map_sort_key: "distinct (map f (sort_key g xs)) \<longleftrightarrow> distinct (map f xs)"
  by (metis mset_eq_imp_distinct_iff mset_map mset_sort)

text \<open>The rows a list query can return.\<close>

lemma select_targets_set:
  "scans (scan_targets e) \<Longrightarrow> r \<in> set (select_targets e i st limit w) \<Longrightarrow>
     r \<in> targets_of i w \<and> (\<forall>s. st = Some s \<longrightarrow> tg_state r = s)"
  by (auto simp: select_targets_def limit_rows_def targets_of_def scans_set
      dest!: set_take_sort_key)

lemma select_targets_all:
  assumes "scans (scan_targets e)" "int (card (targets_of i w)) \<le> limit" "pg_wf w"
  shows "set (select_targets e i None limit w) = targets_of i w"
proof -
  let ?f = "filter (\<lambda>r. tg_campaign_id r = i) (scan_targets e (w_targets w))"
  have "distinct (scan_targets e (w_targets w))"
    using assms(1,3) scans_distinct [of "scan_targets e" tg_id "w_targets w"]
    by (simp add: pg_wf_def distinct_map)
  then have d: "distinct ?f" by simp
  have st: "set ?f = targets_of i w"
    using assms(1) by (auto simp: scans_set targets_of_def)
  then have "length ?f = card (targets_of i w)"
    using d distinct_card by fastforce
  then have "length ?f \<le> nat limit"
    using assms(2) by simp
  then show ?thesis
    using st by (simp add: select_targets_def limit_rows_def)
qed

lemma select_targets_length: "length (select_targets e i st limit w) \<le> nat limit"
  by (simp add: select_targets_def limit_rows_def)

lemma select_targets_distinct:
  "scans (scan_targets e) \<Longrightarrow> pg_wf w \<Longrightarrow> distinct (map tg_id (select_targets e i st limit w))"
  unfolding select_targets_def limit_rows_def
  by (intro distinct_map_take)
    (simp add: pg_wf_def scans_distinct distinct_map_filter distinct_map_sort_key)

lemma ListByCampaign_same [frame]:
  "CampaignTargetRepository_ListByCampaign e i limit st w = (r, w') \<Longrightarrow> same_store w w'"
  by (auto simp: CampaignTargetRepository_ListByCampaign_def Let_def
      split: prod.splits sum.splits dest: fetch_rows_same)

lemma ListByCampaign_all:
  "CampaignTargetRepository_ListByCampaign e i 10000 [] w = (Inr ts, w') \<Longrightarrow>
     ts = map (toModel i) (select_targets e i None 10000 w)"
  by (auto simp: CampaignTargetRepository_ListByCampaign_def Let_def
      split: prod.splits sum.splits dest!: fetch_rows_Inr)

lemma NextBatch_same [frame]:
  "CampaignTargetRepository_NextBatchForScheduling e i limit w = (r, w') \<Longrightarrow> same_store w w'"
  by (auto simp: CampaignTargetRepository_NextBatchForScheduling_def Let_def
      split: prod.splits sum.splits dest: fetch_rows_same)

lemma NextBatch_Inr:
  "CampaignTargetRepository_NextBatchForScheduling e i limit w = (Inr ts, w') \<Longrightarrow>
     ts = map (toModel i) (select_targets e i (Some ''pending'') (if limit \<le> 0 then 100 else limit) w)"
  by (auto simp: CampaignTargetRepository_NextBatchForScheduling_def Let_def
      split: prod.splits sum.splits if_splits dest!: fetch_rows_Inr)

lemma BulkInsert_cases:
  assumes "CampaignTargetRepository_BulkInsert e i targets w = (err, w')"
  obtains (same) "same_store w w'" "err \<noteq> None \<or> targets = []"
  | (inserted) "same_store (w\<lparr>w_targets := insert_rows (w_targets w) (map (target_to_row i) targets)\<rparr>) w'"
      "targets \<noteq> []" "i \<in> r_id ` set (w_campaigns w)"
proof (cases "targets = []")
  case True
  then show thesis using assms same by (auto simp: CampaignTargetRepository_BulkInsert_def)
next
  case False
  then obtain t ts where ts: "targets = t # ts" by (cases targets) auto
  have r: "run_stmt e ''campaign targets: bulk insert: ''
      (insert_targets (map (target_to_row i) targets)) w = (err, w')"
    using assms False by (simp add: CampaignTargetRepository_BulkInsert_def)
  from r show thesis
  proof (cases rule: run_stmt_cases)
    case (effect a)
    then show thesis
      using False ts
      by (intro inserted)
        (auto simp: insert_targets_def target_to_row_def same_store_def tick_io_def split: if_splits)
  next
    case nothing
    then show thesis using same by simp
  qed
qed

lemma BulkInsert_wf:
  "CampaignTargetRepository_BulkInsert e i targets w = (err, w') \<Longrightarrow> pg_wf w \<Longrightarrow> pg_wf w'"
  by (auto simp: CampaignTargetRepository_BulkInsert_def split: if_splits
      dest: wf.keeps_run_stmt [OF _ _ insert_targets_wf])

text \<open>\<open>retargeted\<close>: the rows of some targets of one campaign rewritten by \<open>f\<close>.\<close>

definition retargeted ::
    "go_time \<Rightarrow> uuid \<Rightarrow> uuid list \<Rightarrow> (target_row \<Rightarrow> target_row) \<Rightarrow> target_row list \<Rightarrow> target_row list" where
  "retargeted t i ids f rows =
     map (\<lambda>r. if tg_campaign_id r = i \<and> tg_id r \<in> set ids then (f r)\<lparr>tg_updated_at := t\<rparr> else r) rows"

lemma run_update_targets_cases:
  assumes "run_stmt e msg (update_targets e i ids f) w = (err, w')"
  obtains (same) "same_store w w'" "err \<noteq> None"
  | (marked) t where "same_store (w\<lparr>w_targets := retargeted t i ids f (w_targets w)\<rparr>) w'"
  using assms
proof (cases rule: run_stmt_cases)
  case (effect a)
  then have "w' = (tick_io w)\<lparr>w_targets := retargeted (db_now e (Suc (io_n w))) i ids f (w_targets w)\<rparr>"
    by (auto simp: update_targets_def retargeted_def tick_io_def)
  then show thesis
    by (intro marked [of "db_now e (Suc (io_n w))"]) (simp add: same_store_def tick_io_def)
next
  case nothing
  then show thesis using same by simp
qed

subsection \<open>Statistics\<close>

lemma ApplyDelta_cases:
  assumes "CampaignStatisticsRepository_ApplyDelta e i d w = (err, w')"
  obtains (same) "same_store w w'" "err \<noteq> None"
  | (absent) "same_store w w'" "w_stats w i = None"
  | (applied) s where "w_stats w i = Some s"
      "same_store (w\<lparr>w_stats := (w_stats w)(i \<mapsto> add_delta d s)\<rparr>) w'"
  using assms unfolding CampaignStatisticsRepository_ApplyDelta_def
proof (cases rule: run_stmt_cases)
  case (effect a)
  then show thesis
    using absent applied
    by (auto simp: update_stats_def same_store_def tick_io_def split: option.splits if_splits)
next
  case nothing
  then show thesis using same by simp
qed

lemma ApplyDelta_wf:
  "CampaignStatisticsRepository_ApplyDelta e i d w = (err, w') \<Longrightarrow> pg_wf w \<Longrightarrow> pg_wf w'"
  unfolding CampaignStatisticsRepository_ApplyDelta_def by (rule wf.keeps_run_stmt [OF _ _ update_stats_wf])

lemma Ensure_wf: "CampaignStatisticsRepository_Ensure e i w = (err, w') \<Longrightarrow> pg_wf w \<Longrightarrow> pg_wf w'"
  unfolding CampaignStatisticsRepository_Ensure_def by (rule wf.keeps_run_stmt [OF _ _ insert_stats_wf])

lemma Ensure_cases:
  assumes "CampaignStatisticsRepository_Ensure e i w = (err, w')"
  obtains (same) "same_store w w'" "err \<noteq> None \<or> w_stats w i \<noteq> None"
  | (created) "same_store (w\<lparr>w_stats := (w_stats w)(i \<mapsto> zero_stats)\<rparr>) w'" "w_stats w i = None"
  using assms unfolding CampaignStatisticsRepository_Ensure_def
proof (cases rule: run_stmt_cases)
  case (effect a)
  then show thesis
    using same created
    by (auto simp: insert_stats_def same_store_def tick_io_def split: option.splits if_splits)
next
  case nothing
  then show thesis using same by simp
qed

lemma Create_wf: "CampaignRepository_Create e c w = (err, w') \<Longrightarrow> pg_wf w \<Longrightarrow> pg_wf w'"
  unfolding CampaignRepository_Create_def by (rule wf.keeps_run_stmt [OF _ _ insert_campaign_wf])

lemma Update_wf: "CampaignRepository_Update e c w = (err, w') \<Longrightarrow> pg_wf w \<Longrightarrow> pg_wf w'"
proof -
  assume u: "CampaignRepository_Update e c w = (err, w')" and wf: "pg_wf w"
  obtain q w1 where x: "exec e (update_campaign e (to_row c)) w = (q, w1)" by force
  then have w1: "pg_wf w1"
    using wf update_campaign_wf by (rule wf.keeps_exec)
  then show ?thesis
    using u x
    by (cases q) (auto simp: CampaignRepository_Update_def dest: check_affected_same wf.I_same)
qed

lemma Create_cases:
  assumes "CampaignRepository_Create e c w = (err, w')"
  obtains (same) "same_store w w'" "err \<noteq> None"
  | (created) "same_store (w\<lparr>w_campaigns := w_campaigns w @ [to_row c]\<rparr>) w'"
      "c_ID c \<notin> r_id ` set (w_campaigns w)" "campaign_checks (to_row c)"
  using assms unfolding CampaignRepository_Create_def
proof (cases rule: run_stmt_cases)
  case (effect a)
  moreover have "r_id (to_row c) = c_ID c" by (simp add: to_row_def)
  ultimately show thesis
    using created
    by (auto simp: insert_campaign_def same_store_def tick_io_def split: if_splits)
next
  case nothing
  then show thesis using same by simp
qed

end
