(* ===== verification/Samples.thy ===== *)
theory Samples
  imports Postgres
begin

text \<open>
  Concrete environments and worlds on which the theorems of the development are instantiated:
  an environment in which no request fails and the clock advances one second per reading, an
  empty store and a store with one campaign.
\<close>

definition sample_env :: env where
  "sample_env = \<lparr>io_at = (\<lambda>_. IoOk), now_at = (\<lambda>n. int n * Second), uuid_at = (\<lambda>n. of_nat (n + 100)),
     db_now = (\<lambda>n. utc (int n * Second)), violation = ''constraint violation'',
     sql_lower = (\<lambda>s. s), scan_campaigns = (\<lambda>xs. xs), scan_hours = (\<lambda>xs. xs),
     scan_targets = (\<lambda>xs. xs), scan_calls = (\<lambda>xs. xs), page_rows = (\<lambda>n st xs. (take (nat n) xs, [])),
     uuid_text = (\<lambda>u. show_nat (unat u))\<rparr>"

definition empty_world :: world where
  "empty_world = \<lparr>w_campaigns = [], w_hours = [], w_targets = [], w_stats = (\<lambda>_. None),
     w_calls = [], w_by_status = [], w_attempts = [], w_kafka = [], w_commits = [],
     io_n = 0, now_n = 0, uuid_n = 0\<rparr>"

definition sample_row :: campaign_row where
  "sample_row = \<lparr>r_id = 1, r_name = ''spring'', r_description = [], r_time_zone = ''UTC'',
     r_max_concurrent_calls = 2, r_status = CampaignStatusPending, r_retry_max_attempts = 5,
     r_retry_base_delay_ms = 2000, r_retry_max_delay_ms = 120000, r_retry_jitter = 1 / 4,
     r_created_at = utc 0, r_updated_at = utc 0, r_started_at = None, r_completed_at = None\<rparr>"

definition sample_target :: target_row where
  "sample_target = \<lparr>tg_id = 7, tg_campaign_id = 1, tg_phone_number = ''+15550100'', tg_payload = JNull,
     tg_state = ''pending'', tg_scheduled_at = None, tg_last_attempt_at = None, tg_attempt_count = 0,
     tg_created_at = utc 0, tg_updated_at = utc 0\<rparr>"

definition sample_world :: world where
  "sample_world = empty_world\<lparr>w_campaigns := [sample_row], w_targets := [sample_target],
     w_stats := (\<lambda>_. None)(1 \<mapsto> zero_stats)\<rparr>"

text \<open>A time zone database with one entry.\<close>

definition sample_zones :: "string \<Rightarrow> go_error + location" where
  "sample_zones name = (if name = ''UTC'' then Inr (\<lambda>_. 0) else Inl (New ''unknown time zone''))"

lemmas sample_defs = sample_env_def empty_world_def sample_row_def sample_target_def sample_world_def

lemma sample_no_faults [simp]: "no_faults sample_env"
  by (simp add: no_faults_def sample_env_def)

lemma sample_scans [simp]: "env_scans sample_env"
  by (simp add: env_scans_def scans_def sample_env_def)

lemma sample_world_wf [simp]: "pg_wf sample_world"
  by (simp add: pg_wf_def sample_defs campaign_checks_def int32_def zero_stats_def stats_in_range_def int64_def)

end
