(* ===== verification/Scylla.thy ===== *)
theory Scylla
  imports Store Samples "HOL-Library.AList"
begin

text \<open>
  The call store (\<open>internal/repository/scylla/call_store.go\<close>). The CQL statements are functions
  on the three tables of the migration: \<open>INSERT\<close> and \<open>UPDATE\<close> write the named columns of the
  row with the given key and create the row when there is none, \<open>DELETE\<close> removes it. A
  timestamp column keeps milliseconds, an \<open>int\<close> column 32 bits. A column that was never written
  is null and reads as the zero value. The uuid columns are written from and read into the text of
  a uuid, which is the uuid itself here; the pages of the driver are the parameter
  \<open>page_rows\<close>.
\<close>

subsection \<open>Columns\<close>

definition bucketDate :: "go_time \<Rightarrow> go_time" where
  "bucketDate t = utc (((t_ns t + t_off t * Second) div (86400 * Second)) * (86400 * Second))"

text \<open>A timestamp column.\<close>

definition timestamp :: "go_time \<Rightarrow> go_time" where
  "timestamp t = utc ((t_ns t div Millisecond) * Millisecond)"

definition fits_int :: "int \<Rightarrow> bool" where
  "fits_int x \<longleftrightarrow> - (2 ^ 31) \<le> x \<and> x < 2 ^ 31"

definition null_call :: call_row where
  "null_call = \<lparr>cr_phone_number = None, cr_status = None, cr_attempt_count = None, cr_scheduled_at = None,
     cr_last_attempt_at = None, cr_updated_at = None, cr_created_at = None, cr_last_error = None\<rparr>"

definition null_status :: status_row where
  "null_status = \<lparr>sr_phone_number = None, sr_updated_at = None\<rparr>"

subsection \<open>Statements\<close>

definition upsert :: "'k \<Rightarrow> 'r \<Rightarrow> ('r \<Rightarrow> 'r) \<Rightarrow> ('k \<times> 'r) list \<Rightarrow> ('k \<times> 'r) list" where
  "upsert k null f table =
     AList.update k (f (case map_of table k of None \<Rightarrow> null | Some r \<Rightarrow> r)) table"

definition insert_call :: "Call \<Rightarrow> world \<Rightarrow> (unit \<times> world) option" where
  "insert_call c w =
     (if \<not> fits_int (call_AttemptCount c) then None
      else Some ((), w\<lparr>w_calls := upsert (call_CampaignID c, bucketDate (call_CreatedAt c), call_ID c) null_call
        (\<lambda>r. \<lparr>cr_phone_number = Some (call_PhoneNumber c), cr_status = Some (call_Status c),
              cr_attempt_count = Some (call_AttemptCount c),
              cr_scheduled_at = Some (timestamp (call_ScheduledAt c)),
              cr_last_attempt_at = map_option timestamp (call_LastAttemptAt c),
              cr_updated_at = Some (timestamp (call_UpdatedAt c)),
              cr_created_at = Some (timestamp (call_CreatedAt c)), cr_last_error = None\<rparr>) (w_calls w)\<rparr>))"

definition insert_status :: "status_key \<Rightarrow> string \<Rightarrow> go_time \<Rightarrow> world \<Rightarrow> (unit \<times> world) option" where
  "insert_status k phone updated w =
     Some ((), w\<lparr>w_by_status := upsert k null_status
       (\<lambda>r. \<lparr>sr_phone_number = Some phone, sr_updated_at = Some (timestamp updated)\<rparr>) (w_by_status w)\<rparr>)"

definition update_call ::
    "call_key \<Rightarrow> string \<Rightarrow> int \<Rightarrow> go_time \<Rightarrow> go_time \<Rightarrow> string option \<Rightarrow> world \<Rightarrow> (unit \<times> world) option" where
  "update_call k status attemptCount lastAttempt updated lastError w =
     (if \<not> fits_int attemptCount then None
      else Some ((), w\<lparr>w_calls := upsert k null_call
        (\<lambda>r. r\<lparr>cr_status := Some status, cr_attempt_count := Some attemptCount,
               cr_last_attempt_at := Some (timestamp lastAttempt),
               cr_updated_at := Some (timestamp updated), cr_last_error := lastError\<rparr>) (w_calls w)\<rparr>))"

definition touch_status :: "status_key \<Rightarrow> go_time \<Rightarrow> world \<Rightarrow> (unit \<times> world) option" where
  "touch_status k updated w =
     Some ((), w\<lparr>w_by_status := upsert k null_status
       (\<lambda>r. r\<lparr>sr_updated_at := Some (timestamp updated)\<rparr>) (w_by_status w)\<rparr>)"

definition delete_status :: "status_key \<Rightarrow> world \<Rightarrow> (unit \<times> world) option" where
  "delete_status k w = Some ((), w\<lparr>w_by_status := AList.delete k (w_by_status w)\<rparr>)"

definition insert_attempt :: "CallAttempt \<Rightarrow> world \<Rightarrow> (unit \<times> world) option" where
  "insert_attempt a w =
     (if \<not> fits_int (att_AttemptNum a) then None
      else Some ((), w\<lparr>w_attempts := AList.update (att_CallID a, att_AttemptNum a)
        \<lparr>ar_status = att_Status a, ar_error = att_Error a, ar_created_at = timestamp (att_CreatedAt a),
         ar_duration_ms = go_div (att_Duration a) Millisecond\<rparr> (w_attempts w)\<rparr>))"

subsection \<open>CallStore\<close>

definition CreateCall :: "env \<Rightarrow> Call \<Rightarrow> world \<Rightarrow> go_error option \<times> world" where
  "CreateCall e c w =
     (case run_stmt e ''call store: insert calls_by_campaign: '' (insert_call c) w of
        (Some err, w1) \<Rightarrow> (Some err, w1)
      | (None, w1) \<Rightarrow>
          run_stmt e ''call store: insert calls_by_status: ''
            (insert_status (call_CampaignID c, call_Status c, bucketDate (call_CreatedAt c), call_ID c)
               (call_PhoneNumber c) (call_UpdatedAt c)) w1)"

definition row_call :: "call_key \<times> call_row \<Rightarrow> Call" where
  "row_call kr = (case kr of ((campaignID, bucket, callID), r) \<Rightarrow>
     \<lparr>call_ID = callID, call_CampaignID = campaignID,
      call_PhoneNumber = (case cr_phone_number r of None \<Rightarrow> [] | Some p \<Rightarrow> p),
      call_Status = (case cr_status r of None \<Rightarrow> [] | Some s \<Rightarrow> s),
      call_AttemptCount = (case cr_attempt_count r of None \<Rightarrow> 0 | Some n \<Rightarrow> n),
      call_LastAttemptAt = cr_last_attempt_at r,
      call_ScheduledAt = (case cr_scheduled_at r of None \<Rightarrow> zero_time | Some t \<Rightarrow> t),
      call_CreatedAt = (case cr_created_at r of None \<Rightarrow> zero_time | Some t \<Rightarrow> t),
      call_UpdatedAt = (case cr_updated_at r of None \<Rightarrow> zero_time | Some t \<Rightarrow> t),
      call_LastError = cr_last_error r\<rparr>)"

text \<open>\<open>SELECT \<dots> WHERE call_id = ? ALLOW FILTERING\<close>: the first row of the scan.\<close>

definition select_call :: "env \<Rightarrow> uuid \<Rightarrow> world \<Rightarrow> (call_key \<times> call_row) option" where
  "select_call e i w = find (\<lambda>((campaignID, bucket, callID), r). callID = i) (scan_calls e (w_calls w))"

definition GetCall :: "env \<Rightarrow> uuid \<Rightarrow> world \<Rightarrow> (go_error + Call) \<times> world" where
  "GetCall e i w =
     (case query e (select_call e i) w of
        (Inl err, w') \<Rightarrow> (Inl (Errorf ''call store: fetch call close: '' err []), w')
      | (Inr None, w') \<Rightarrow> (Inl (New (''call store: call '' @ uuid_text e i @ '' not found'')), w')
      | (Inr (Some ((campaignID, bucket, callID), r)), w') \<Rightarrow>
          (Inr ((row_call ((campaignID, bucket, callID), r))\<lparr>call_CreatedAt := bucketDate bucket\<rparr>), w'))"

text \<open>The second half of \<open>UpdateCallStatus\<close>: the row of the status index.\<close>

definition update_index :: "env \<Rightarrow> Call \<Rightarrow> go_time \<Rightarrow> uuid \<Rightarrow> call_status \<Rightarrow> world \<Rightarrow> go_error option \<times> world" where
  "update_index e call bucket i status w4 =
     (case Now e w4 of (now3, w5) \<Rightarrow>
     (case run_stmt e ''call store: update calls_by_status: ''
             (touch_status (call_CampaignID call, call_Status call, bucket, i) now3) w5 of
        (Some err, w6) \<Rightarrow> (Some err, w6)
      | (None, w6) \<Rightarrow>
          if call_Status call \<noteq> status
          then (case run_stmt e ''call store: delete old status: ''
                       (delete_status (call_CampaignID call, call_Status call, bucket, i)) w6 of
                  (Some err, w7) \<Rightarrow> (Some err, w7)
                | (None, w7) \<Rightarrow>
                    (case Now e w7 of (now4, w8) \<Rightarrow>
                       run_stmt e ''call store: insert new status: ''
                         (insert_status (call_CampaignID call, status, bucket, i)
                            (call_PhoneNumber call) now4) w8))
          else (None, w6)))"

definition UpdateCallStatus ::
    "env \<Rightarrow> uuid \<Rightarrow> call_status \<Rightarrow> int \<Rightarrow> string option \<Rightarrow> world \<Rightarrow> go_error option \<times> world" where
  "UpdateCallStatus e i status attemptCount lastError w =
     (case GetCall e i w of
        (Inl err, w1) \<Rightarrow> (Some err, w1)
      | (Inr call, w1) \<Rightarrow>
          (let bucket = bucketDate (call_CreatedAt call);
               (now1, w2) = Now e w1;
               (now2, w3) = Now e w2
           in case run_stmt e ''call store: update calls_by_campaign: ''
                     (update_call (call_CampaignID call, bucket, i) status attemptCount now1 now2 lastError) w3 of
                (Some err, w4) \<Rightarrow> (Some err, w4)
              | (None, w4) \<Rightarrow> update_index e call bucket i status w4))"

text \<open>The rows of one campaign in clustering order: bucket descending, call id ascending.\<close>

definition partition_rows :: "uuid \<Rightarrow> world \<Rightarrow> (call_key \<times> call_row) list" where
  "partition_rows campaignID w =
     sort_key (\<lambda>((c, b, i), r). - t_ns b)
       (sort_key (\<lambda>((c, b, i), r). i) (filter (\<lambda>((c, b, i), r). c = campaignID) (w_calls w)))"

definition ListCallsByCampaign ::
    "env \<Rightarrow> uuid \<Rightarrow> int \<Rightarrow> string \<Rightarrow> world \<Rightarrow> (go_error + Call list \<times> string) \<times> world" where
  "ListCallsByCampaign e campaignID limit0 pagingState w =
     (let limit = (if limit0 \<le> 0 then 100 else limit0)
      in case query e (\<lambda>w. page_rows e limit pagingState (partition_rows campaignID w)) w of
           (Inl err, w') \<Rightarrow> (Inl (Errorf ''call store: iter close: '' err []), w')
         | (Inr (rows, nextState), w') \<Rightarrow> (Inr (map row_call rows, nextState), w'))"

definition AppendAttempt :: "env \<Rightarrow> CallAttempt \<Rightarrow> world \<Rightarrow> go_error option \<times> world" where
  "AppendAttempt e a w = run_stmt e ''call store: append attempt: '' (insert_attempt a) w"

subsection \<open>The tables as maps\<close>

definition calls_map :: "world \<Rightarrow> call_key \<rightharpoonup> call_row" where
  "calls_map w = map_of (w_calls w)"

definition status_keys :: "world \<Rightarrow> status_key set" where
  "status_keys w = dom (map_of (w_by_status w))"

lemma bucketDate_idem [simp]: "bucketDate (bucketDate t) = bucketDate t"
  by (simp add: bucketDate_def utc_def Second_def)

lemma map_of_upsert:
  "map_of (upsert k null f table) =
     (map_of table)(k \<mapsto> f (case map_of table k of None \<Rightarrow> null | Some r \<Rightarrow> r))"
  by (simp add: upsert_def update_conv')

lemma distinct_upsert: "distinct (map fst table) \<Longrightarrow> distinct (map fst (upsert k null f table))"
  by (simp add: upsert_def distinct_update)

text \<open>Well formed: keys are unique, a call id has one key, and the bucket of a key is a day. The
  status table is an index of the calls when it has a row for a call under a status exactly when
  that is the call's status.\<close>

definition calls_wf :: "world \<Rightarrow> bool" where
  "calls_wf w \<longleftrightarrow> distinct (map fst (w_calls w))
     \<and> (\<forall>c b i c' b'. (c, b, i) \<in> dom (calls_map w) \<and> (c', b', i) \<in> dom (calls_map w) \<longrightarrow> c = c' \<and> b = b')
     \<and> (\<forall>c b i. (c, b, i) \<in> dom (calls_map w) \<longrightarrow> bucketDate b = b)"

definition status_index :: "world \<Rightarrow> bool" where
  "status_index w \<longleftrightarrow> (\<forall>c s b i. (c, s, b, i) \<in> status_keys w \<longleftrightarrow>
     (\<exists>r. calls_map w (c, b, i) = Some r \<and> cr_status r = Some s))
     \<and> (\<forall>k r. calls_map w k = Some r \<longrightarrow> cr_status r \<noteq> None)"

definition call_ids :: "world \<Rightarrow> uuid set" where
  "call_ids w = (\<lambda>(c, b, i). i) ` dom (calls_map w)"

lemma select_call_Some:
  assumes "calls_wf w" "scans (scan_calls e)"
  shows "select_call e i w = Some ((c, b, j), r) \<longleftrightarrow> j = i \<and> calls_map w (c, b, i) = Some r"
proof -
  let ?P = "\<lambda>((campaignID, bucket, callID), r). callID = i"
  have st: "set (scan_calls e (w_calls w)) = set (w_calls w)"
    using assms(2) by (rule scans_set)
  have mem: "(k, r) \<in> set (w_calls w) \<longleftrightarrow> calls_map w k = Some r" for k r
    using assms(1) by (simp add: calls_wf_def calls_map_def)
  show ?thesis
  proof
    assume "select_call e i w = Some ((c, b, j), r)"
    then have "((c, b, j), r) \<in> set (scan_calls e (w_calls w)) \<and> j = i"
      unfolding select_call_def find_Some_iff by (auto dest!: nth_mem)
    then show "j = i \<and> calls_map w (c, b, i) = Some r"
      using st mem by auto
  next
    assume r: "j = i \<and> calls_map w (c, b, i) = Some r"
    then have "((c, b, i), r) \<in> set (scan_calls e (w_calls w))"
      using st mem by auto
    then obtain x where x: "select_call e i w = Some x"
      unfolding select_call_def by (cases "find ?P (scan_calls e (w_calls w))") (auto simp: find_None_iff)
    obtain c' b' j' r' where x': "x = ((c', b', j'), r')" by (metis prod.exhaust)
    have "((c', b', j'), r') \<in> set (scan_calls e (w_calls w)) \<and> j' = i"
      using x x' unfolding select_call_def find_Some_iff by (auto dest!: nth_mem)
    then have k: "calls_map w (c', b', i) = Some r'" "j' = i"
      using st mem by auto
    then have "c' = c \<and> b' = b"
      using r assms(1) unfolding calls_wf_def by blast
    then show "select_call e i w = Some ((c, b, j), r)"
      using x x' k r by simp
  qed
qed

lemma select_call_None:
  assumes "calls_wf w" "scans (scan_calls e)"
  shows "select_call e i w = None \<longleftrightarrow> i \<notin> call_ids w"
proof
  assume "select_call e i w = None"
  then have "calls_map w (c, b, i) = None" for c b
    using select_call_Some [OF assms, of i c b i] by (metis not_None_eq option.distinct(1))
  then show "i \<notin> call_ids w"
    by (auto simp: call_ids_def)
next
  assume n: "i \<notin> call_ids w"
  show "select_call e i w = None"
  proof (rule ccontr)
    assume "select_call e i w \<noteq> None"
    then obtain c b j r where "select_call e i w = Some ((c, b, j), r)" by (metis not_None_eq prod.exhaust)
    then show False
      using select_call_Some [OF assms] n by (force simp: call_ids_def)
  qed
qed

subsection \<open>What the call store leaves alone\<close>

text \<open>\<open>rest_is W w\<close>: outside the Scylla tables, \<open>w\<close> holds what \<open>W\<close> holds.\<close>

definition rest_is :: "world \<Rightarrow> world \<Rightarrow> bool" where
  "rest_is W w \<longleftrightarrow> w_campaigns w = w_campaigns W \<and> w_hours w = w_hours W \<and> w_targets w = w_targets W
     \<and> w_stats w = w_stats W \<and> w_kafka w = w_kafka W \<and> w_commits w = w_commits W"

interpretation rest: store_invariant "rest_is W" for W
  by unfold_locales (simp add: rest_is_def same_store_fields)

lemma rest_is_refl [simp]: "rest_is w w"
  by (simp add: rest_is_def)

lemma statement_rest:
  "rest_is W w \<Longrightarrow> insert_call c w = Some (a, w') \<Longrightarrow> rest_is W w'"
  "rest_is W w \<Longrightarrow> insert_status k p t w = Some (b, w') \<Longrightarrow> rest_is W w'"
  "rest_is W w \<Longrightarrow> update_call ck s n t t' le w = Some (b, w') \<Longrightarrow> rest_is W w'"
  "rest_is W w \<Longrightarrow> touch_status k t w = Some (b, w') \<Longrightarrow> rest_is W w'"
  "rest_is W w \<Longrightarrow> delete_status k w = Some (b, w') \<Longrightarrow> rest_is W w'"
  "rest_is W w \<Longrightarrow> insert_attempt att w = Some (b, w') \<Longrightarrow> rest_is W w'"
  by (auto simp: rest_is_def insert_call_def insert_status_def update_call_def touch_status_def
      delete_status_def insert_attempt_def split: if_splits)

lemma run_rest:
  "run_stmt e m (insert_call c) w = (r, w') \<Longrightarrow> rest_is W w \<Longrightarrow> rest_is W w'"
  "run_stmt e m (insert_status k p t) w = (r, w') \<Longrightarrow> rest_is W w \<Longrightarrow> rest_is W w'"
  "run_stmt e m (update_call ck s n t t' le) w = (r, w') \<Longrightarrow> rest_is W w \<Longrightarrow> rest_is W w'"
  "run_stmt e m (touch_status k t) w = (r, w') \<Longrightarrow> rest_is W w \<Longrightarrow> rest_is W w'"
  "run_stmt e m (delete_status k) w = (r, w') \<Longrightarrow> rest_is W w \<Longrightarrow> rest_is W w'"
  "run_stmt e m (insert_attempt att) w = (r, w') \<Longrightarrow> rest_is W w \<Longrightarrow> rest_is W w'"
proof -
  show "run_stmt e m (insert_call c) w = (r, w') \<Longrightarrow> rest_is W w \<Longrightarrow> rest_is W w'"
    by (erule rest.keeps_run_stmt) (simp_all add: statement_rest(1))
  show "run_stmt e m (insert_status k p t) w = (r, w') \<Longrightarrow> rest_is W w \<Longrightarrow> rest_is W w'"
    by (erule rest.keeps_run_stmt) (simp_all add: statement_rest(2))
  show "run_stmt e m (update_call ck s n t t' le) w = (r, w') \<Longrightarrow> rest_is W w \<Longrightarrow> rest_is W w'"
    by (erule rest.keeps_run_stmt) (simp_all add: statement_rest(3))
  show "run_stmt e m (touch_status k t) w = (r, w') \<Longrightarrow> rest_is W w \<Longrightarrow> rest_is W w'"
    by (erule rest.keeps_run_stmt) (simp_all add: statement_rest(4))
  show "run_stmt e m (delete_status k) w = (r, w') \<Longrightarrow> rest_is W w \<Longrightarrow> rest_is W w'"
    by (erule rest.keeps_run_stmt) (simp_all add: statement_rest(5))
  show "run_stmt e m (insert_attempt att) w = (r, w') \<Longrightarrow> rest_is W w \<Longrightarrow> rest_is W w'"
    by (erule rest.keeps_run_stmt) (simp_all add: statement_rest(6))
qed

lemma GetCall_same [frame]: "GetCall e i w = (r, w') \<Longrightarrow> same_store w w'"
  by (auto simp: GetCall_def split: prod.splits sum.splits option.splits dest: query_same)

lemma CreateCall_rest: "CreateCall e c w = (r, w') \<Longrightarrow> rest_is W w \<Longrightarrow> rest_is W w'"
  by (auto simp: CreateCall_def split: prod.splits option.splits dest!: run_rest)

lemma update_index_rest: "update_index e call b i s w = (r, w') \<Longrightarrow> rest_is W w \<Longrightarrow> rest_is W w'"
  by (auto simp: update_index_def split: prod.splits option.splits if_splits
      dest!: Now_same [THEN rest.I_same] run_rest(2,4,5))

lemma UpdateCallStatus_rest: "UpdateCallStatus e i s n le w = (r, w') \<Longrightarrow> rest_is W w \<Longrightarrow> rest_is W w'"
  by (auto simp: UpdateCallStatus_def Let_def split: prod.splits sum.splits option.splits
      dest!: GetCall_same [THEN rest.I_same] Now_same [THEN rest.I_same] run_rest(3) update_index_rest)

lemma AppendAttempt_rest: "AppendAttempt e a w = (r, w') \<Longrightarrow> rest_is W w \<Longrightarrow> rest_is W w'"
  unfolding AppendAttempt_def by (rule run_rest)

lemma ListCalls_same [frame]: "ListCallsByCampaign e c n st w = (r, w') \<Longrightarrow> same_store w w'"
  by (auto simp: ListCallsByCampaign_def Let_def split: prod.splits sum.splits dest: query_same)

subsection \<open>Effects without faults\<close>

definition call_columns :: "Call \<Rightarrow> call_row" where
  "call_columns c = \<lparr>cr_phone_number = Some (call_PhoneNumber c), cr_status = Some (call_Status c),
     cr_attempt_count = Some (call_AttemptCount c), cr_scheduled_at = Some (timestamp (call_ScheduledAt c)),
     cr_last_attempt_at = map_option timestamp (call_LastAttemptAt c),
     cr_updated_at = Some (timestamp (call_UpdatedAt c)),
     cr_created_at = Some (timestamp (call_CreatedAt c)), cr_last_error = None\<rparr>"

definition call_key_of :: "Call \<Rightarrow> call_key" where
  "call_key_of c = (call_CampaignID c, bucketDate (call_CreatedAt c), call_ID c)"

lemma CreateCall_ok:
  assumes "no_faults e" "fits_int (call_AttemptCount c)"
  shows "\<exists>w'. CreateCall e c w = (None, w') \<and> calls_map w' = (calls_map w)(call_key_of c \<mapsto> call_columns c)
     \<and> status_keys w' = insert (call_CampaignID c, call_Status c, bucketDate (call_CreatedAt c), call_ID c) (status_keys w)
     \<and> (distinct (map fst (w_calls w)) \<longrightarrow> distinct (map fst (w_calls w')))"
  using assms
  by (simp add: CreateCall_def run_stmt_ok insert_call_def insert_status_def calls_map_def status_keys_def
      map_of_upsert distinct_upsert call_key_of_def call_columns_def)

text \<open>The row after an update of its status.\<close>

definition restatus :: "string \<Rightarrow> int \<Rightarrow> string option \<Rightarrow> go_time \<Rightarrow> go_time \<Rightarrow> call_row \<Rightarrow> call_row" where
  "restatus status n lastError t1 t2 r = r\<lparr>cr_status := Some status, cr_attempt_count := Some n,
     cr_last_attempt_at := Some (timestamp t1), cr_updated_at := Some (timestamp t2), cr_last_error := lastError\<rparr>"

lemma UpdateCallStatus_ok:
  assumes e: "no_faults e" "fits_int n" and wf: "calls_wf w" "scans (scan_calls e)"
    and r: "calls_map w (c, b, i) = Some r" "cr_status r = Some old"
  shows "\<exists>w' t1 t2. UpdateCallStatus e i status n lastError w = (None, w')
     \<and> calls_map w' = (calls_map w)((c, b, i) \<mapsto> restatus status n lastError t1 t2 r)
     \<and> status_keys w' = insert (c, status, b, i) (if old = status then status_keys w else status_keys w - {(c, old, b, i)})
     \<and> distinct (map fst (w_calls w'))"
proof -
  have sel: "select_call e i w = Some ((c, b, i), r)"
    using select_call_Some [OF wf] r by blast
  have b: "bucketDate b = b"
    using wf(1) r(1) unfolding calls_wf_def by blast
  let ?call = "(row_call ((c, b, i), r))\<lparr>call_CreatedAt := b\<rparr>"
  have g: "GetCall e i w = (Inr ?call, tick_io w)"
    using e sel b by (simp add: GetCall_def query_ok)
  have f: "call_CampaignID ?call = c" "call_Status ?call = old" "call_CreatedAt ?call = b"
    using r(2) by (simp_all add: row_call_def)
  have m: "map_of (w_calls w) (c, b, i) = Some r"
    using r(1) by (simp add: calls_map_def)
  have d: "distinct (map fst (w_calls w))"
    using wf(1) by (simp add: calls_wf_def)
  show ?thesis
    using e m d f
    by (auto simp: UpdateCallStatus_def update_index_def g Let_def b Now_def run_stmt_ok update_call_def touch_status_def
        delete_status_def insert_status_def calls_map_def status_keys_def map_of_upsert distinct_upsert
        delete_conv' restatus_def)
qed

subsection \<open>The status table stays an index of the calls\<close>

definition calls_ok :: "world \<Rightarrow> bool" where
  "calls_ok w \<longleftrightarrow> calls_wf w \<and> status_index w"

lemma calls_ok_same: "same_store w w' \<Longrightarrow> calls_ok w \<Longrightarrow> calls_ok w'"
  by (simp add: calls_ok_def calls_wf_def status_index_def calls_map_def status_keys_def same_store_fields)

lemma CreateCall_calls_ok:
  assumes e: "no_faults e" "fits_int (call_AttemptCount c)" and w: "calls_ok w" "call_ID c \<notin> call_ids w"
  shows "calls_ok (snd (CreateCall e c w))"
proof -
  obtain w' where w': "CreateCall e c w = (None, w')"
      "calls_map w' = (calls_map w)(call_key_of c \<mapsto> call_columns c)"
      "status_keys w' = insert (call_CampaignID c, call_Status c, bucketDate (call_CreatedAt c), call_ID c) (status_keys w)"
      "distinct (map fst (w_calls w'))"
    using CreateCall_ok [OF e, of w] w(1) unfolding calls_ok_def calls_wf_def by blast
  have new: "(x, b, call_ID c) \<notin> dom (calls_map w)" for x b
    using w(2) by (force simp: call_ids_def)
  have "calls_wf w'"
    using w(1) w'(4) new unfolding calls_ok_def calls_wf_def w'(2) call_key_of_def
    by (auto simp: domIff split: if_splits) blast+
  moreover have "status_index w'"
    using w(1) new unfolding calls_ok_def status_index_def w'(2,3) call_key_of_def
    by (auto simp: call_columns_def domIff)
  ultimately show ?thesis
    using w'(1) by (simp add: calls_ok_def)
qed

lemma UpdateCallStatus_unknown:
  assumes "no_faults e" "calls_wf w" "scans (scan_calls e)" "i \<notin> call_ids w"
  shows "UpdateCallStatus e i s n le w = (Some (New (''call store: call '' @ uuid_text e i @ '' not found'')), tick_io w)"
proof -
  have "select_call e i w = None"
    using select_call_None [OF assms(2,3)] assms(4) by blast
  then show ?thesis
    using assms(1) by (simp add: UpdateCallStatus_def GetCall_def query_ok)
qed

lemma UpdateCallStatus_calls_ok:
  assumes e: "no_faults e" "scans (scan_calls e)" and w: "calls_ok w"
  shows "calls_ok (snd (UpdateCallStatus e i s n le w))"
proof (cases "i \<in> call_ids w")
  case False
  then have "UpdateCallStatus e i s n le w = (Some (New (''call store: call '' @ uuid_text e i @ '' not found'')), tick_io w)"
    using e w by (intro UpdateCallStatus_unknown) (simp_all add: calls_ok_def)
  then show ?thesis
    using w calls_ok_same by force
next
  case True
  then obtain c b r where r: "calls_map w (c, b, i) = Some r"
    by (auto simp: call_ids_def)
  then obtain old where old: "cr_status r = Some old"
    using w by (force simp: calls_ok_def status_index_def)
  show ?thesis
  proof (cases "fits_int n")
    case True
    obtain w' t1 t2 where w': "UpdateCallStatus e i s n le w = (None, w')"
      "calls_map w' = (calls_map w)((c, b, i) \<mapsto> restatus s n le t1 t2 r)"
      "status_keys w' = insert (c, s, b, i) (if old = s then status_keys w else status_keys w - {(c, old, b, i)})"
      "distinct (map fst (w_calls w'))"
      using UpdateCallStatus_ok [OF e(1) True _ e(2) r old, of s le] w by (auto simp: calls_ok_def)
    have "dom (calls_map w') = dom (calls_map w)"
      using r unfolding w'(2) by auto
    then have "calls_wf w'"
      using w w'(4) unfolding calls_ok_def calls_wf_def by simp
    moreover have "status_index w'"
      using w r old unfolding calls_ok_def status_index_def w'(2,3)
      by (auto simp: restatus_def)
    ultimately show ?thesis
      using w'(1) by (simp add: calls_ok_def)
  next
    case False
    have "same_store w (snd (UpdateCallStatus e i s n le w))"
      using False e w r
      by (auto simp: UpdateCallStatus_def GetCall_def query_ok Now_def run_stmt_ok update_call_def
          same_store_def tick_io_def Let_def split: option.splits)
    then show ?thesis using w calls_ok_same by blast
  qed
qed

subsection \<open>Properties\<close>

text \<open>C18: When no request fails, the table of calls by status stays exactly the index of the calls by
  campaign: storing a call under a new id and any update of a status, to the same or to another
  status, of a known or an unknown call, keep a row for a call under a status exactly when it is
  the call's status.\<close>

theorem status_index_maintained:
  assumes "no_faults e" "scans (scan_calls e)" "calls_ok w"
  shows "calls_ok (snd (UpdateCallStatus e i s n le w))
     \<and> (call_ID c \<notin> call_ids w \<and> fits_int (call_AttemptCount c) \<longrightarrow> calls_ok (snd (CreateCall e c w)))"
  using UpdateCallStatus_calls_ok [OF assms] CreateCall_calls_ok [OF assms(1) _ assms(3)] by blast

definition sample_call :: Call where
  "sample_call = \<lparr>call_ID = 11, call_CampaignID = 1, call_PhoneNumber = ''+15550100'', call_Status = CallStatusQueued,
     call_AttemptCount = 0, call_LastAttemptAt = None, call_ScheduledAt = utc 0,
     call_CreatedAt = utc (90000 * Second + 1), call_UpdatedAt = utc 0, call_LastError = None\<rparr>"

lemma empty_calls_ok: "calls_ok empty_world" "call_ids empty_world = {}"
  by (simp_all add: calls_ok_def calls_wf_def status_index_def calls_map_def status_keys_def call_ids_def empty_world_def)

theorem status_index_maintained_witness:
  "calls_ok (snd (CreateCall sample_env sample_call empty_world))"
  using status_index_maintained [OF sample_no_faults _ empty_calls_ok(1)] empty_calls_ok(2)
  by (simp add: sample_call_def fits_int_def sample_env_def scans_id)



end
