(* ===== verification/Queue.thy ===== *)
theory Queue
  imports Store "HOL-Library.Monad_Syntax"
begin

text \<open>
  The messages of \<open>internal/queue/messages.go\<close>, their JSON form and the publishers that
  write them to Kafka (\<open>call_dispatcher.go\<close>, \<open>status_publisher.go\<close>,
  \<open>retry_scheduler.go\<close>, \<open>kafka.go\<close>).

  The value of a Kafka record is the JSON tree of the message. Encoding and decoding follow
  \<open>encoding/json\<close> on structs: fields in order under their tags, \<open>omitempty\<close>, keys matched
  without regard to case, a later key over an earlier one, null leaving a field as it is, a value
  of the wrong kind as an error, and, for an embedded struct, a field of the outer struct hiding
  the embedded field with the same tag. A JSON string that is the text of a uuid or of a time is
  the leaf \<open>JUuid\<close> or \<open>JTime\<close>.
\<close>

record DispatchMessage =
  dm_CallID :: uuid
  dm_CampaignID :: uuid
  dm_PhoneNumber :: string
  dm_Attempt :: int
  dm_MaxAttempts :: int
  dm_RetryBaseMs :: int
  dm_RetryMaxMs :: int
  dm_RetryJitter :: float64
  dm_ConcurrencyLimit :: int
  dm_Metadata :: metadata
  dm_EnqueuedAt :: go_time

record StatusMessage =
  sm_CallID :: uuid
  sm_CampaignID :: uuid
  sm_PhoneNumber :: string
  sm_Status :: string
  sm_Attempt :: int
  sm_MaxAttempts :: int
  sm_Retryable :: bool
  sm_RetryBaseMs :: int
  sm_RetryMaxMs :: int
  sm_RetryJitter :: float64
  sm_ConcurrencyLimit :: int
  sm_DurationMs :: int
  sm_Error :: string
  sm_OccurredAt :: go_time
  sm_NextAttempt :: "go_time option"
  sm_Metadata :: metadata

text \<open>\<open>RetryMessage\<close> embeds a \<open>DispatchMessage\<close> and has a \<open>MaxAttempts\<close> of its own.\<close>

record RetryMessage =
  rm_DispatchMessage :: DispatchMessage
  rm_MaxAttempts :: int
  rm_NextAttempt :: go_time

subsection \<open>Encoding\<close>

abbreviation JInt :: "int \<Rightarrow> json" where
  "JInt i \<equiv> JNum (of_int i)"

definition enc_dispatch :: "DispatchMessage \<Rightarrow> json" where
  "enc_dispatch m = JObj
     [(''call_id'', JUuid (dm_CallID m)),
      (''campaign_id'', JUuid (dm_CampaignID m)),
      (''phone_number'', JStr (dm_PhoneNumber m)),
      (''attempt'', JInt (dm_Attempt m)),
      (''max_attempts'', JInt (dm_MaxAttempts m)),
      (''retry_base_ms'', JInt (dm_RetryBaseMs m)),
      (''retry_max_ms'', JInt (dm_RetryMaxMs m)),
      (''retry_jitter'', JNum (dm_RetryJitter m)),
      (''concurrency_limit'', JInt (dm_ConcurrencyLimit m)),
      (''metadata'', marshal_map (dm_Metadata m)),
      (''enqueued_at'', JTime (dm_EnqueuedAt m))]"

definition enc_status :: "StatusMessage \<Rightarrow> json" where
  "enc_status m = JObj
     ([(''call_id'', JUuid (sm_CallID m)),
       (''campaign_id'', JUuid (sm_CampaignID m)),
       (''phone_number'', JStr (sm_PhoneNumber m)),
       (''status'', JStr (sm_Status m)),
       (''attempt'', JInt (sm_Attempt m)),
       (''max_attempts'', JInt (sm_MaxAttempts m)),
       (''retryable'', JBool (sm_Retryable m)),
       (''retry_base_ms'', JInt (sm_RetryBaseMs m)),
       (''retry_max_ms'', JInt (sm_RetryMaxMs m)),
       (''retry_jitter'', JNum (sm_RetryJitter m)),
       (''concurrency_limit'', JInt (sm_ConcurrencyLimit m)),
       (''duration_ms'', JInt (sm_DurationMs m))]
      @ (if sm_Error m = [] then [] else [(''error'', JStr (sm_Error m))])
      @ [(''occurred_at'', JTime (sm_OccurredAt m))]
      @ (case sm_NextAttempt m of None \<Rightarrow> [] | Some t \<Rightarrow> [(''next_attempt'', JTime t)])
      @ [(''metadata'', marshal_map (sm_Metadata m))])"

text \<open>The fields of the embedded struct come first; its \<open>max_attempts\<close> is hidden by the outer
  field with the same tag.\<close>

definition enc_retry :: "RetryMessage \<Rightarrow> json" where
  "enc_retry m =
     (let d = rm_DispatchMessage m
      in JObj
       [(''call_id'', JUuid (dm_CallID d)),
        (''campaign_id'', JUuid (dm_CampaignID d)),
        (''phone_number'', JStr (dm_PhoneNumber d)),
        (''attempt'', JInt (dm_Attempt d)),
        (''retry_base_ms'', JInt (dm_RetryBaseMs d)),
        (''retry_max_ms'', JInt (dm_RetryMaxMs d)),
        (''retry_jitter'', JNum (dm_RetryJitter d)),
        (''concurrency_limit'', JInt (dm_ConcurrencyLimit d)),
        (''metadata'', marshal_map (dm_Metadata d)),
        (''enqueued_at'', JTime (dm_EnqueuedAt d)),
        (''max_attempts'', JInt (rm_MaxAttempts m)),
        (''next_attempt'', JTime (rm_NextAttempt m))])"

subsection \<open>Decoding\<close>

definition to_lower :: "string \<Rightarrow> string" where
  "to_lower s = map (\<lambda>c. if 65 \<le> (of_char c :: nat) \<and> of_char c \<le> (90 :: nat)
                         then char_of ((of_char c :: nat) + 32) else c) s"

text \<open>A decoder takes the JSON value and the value the field has so far: null leaves it, but sets
  a pointer or a map to nil, and an object is merged into the map that is there.\<close>

fun dec_field :: "(json \<Rightarrow> 'a \<Rightarrow> 'a option) \<Rightarrow> 'a \<Rightarrow> string \<Rightarrow> (string \<times> json) list \<Rightarrow> 'a option" where
  "dec_field dec x name [] = Some x"
| "dec_field dec x name ((k, v) # kvs) =
     (if to_lower k \<noteq> name then dec_field dec x name kvs
      else (case dec v x of None \<Rightarrow> None | Some y \<Rightarrow> dec_field dec y name kvs))"

fun dec_uuid :: "json \<Rightarrow> uuid \<Rightarrow> uuid option" where
  "dec_uuid (JUuid u) x = Some u"
| "dec_uuid JNull x = Some x"
| "dec_uuid _ x = None"

fun dec_str :: "json \<Rightarrow> string \<Rightarrow> string option" where
  "dec_str (JStr s) x = Some s"
| "dec_str JNull x = Some x"
| "dec_str _ x = None"

fun dec_int :: "json \<Rightarrow> int \<Rightarrow> int option" where
  "dec_int (JNum r) x = (if of_int \<lfloor>r\<rfloor> = r \<and> int64 \<lfloor>r\<rfloor> then Some \<lfloor>r\<rfloor> else None)"
| "dec_int JNull x = Some x"
| "dec_int _ x = None"

fun dec_float :: "json \<Rightarrow> float64 \<Rightarrow> float64 option" where
  "dec_float (JNum r) x = Some r"
| "dec_float JNull x = Some x"
| "dec_float _ x = None"

fun dec_bool :: "json \<Rightarrow> bool \<Rightarrow> bool option" where
  "dec_bool (JBool b) x = Some b"
| "dec_bool JNull x = Some x"
| "dec_bool _ x = None"

fun dec_time :: "json \<Rightarrow> go_time \<Rightarrow> go_time option" where
  "dec_time (JTime t) x = Some t"
| "dec_time JNull x = Some x"
| "dec_time _ x = None"

fun dec_time_ptr :: "json \<Rightarrow> go_time option \<Rightarrow> go_time option option" where
  "dec_time_ptr (JTime t) x = Some (Some t)"
| "dec_time_ptr JNull x = Some None"
| "dec_time_ptr _ x = None"

fun map_entries :: "metadata \<Rightarrow> (string \<times> json) list" where
  "map_entries (Some kvs) = kvs"
| "map_entries None = []"

fun dec_map :: "json \<Rightarrow> metadata \<Rightarrow> metadata option" where
  "dec_map (JObj kvs) x = Some (Some (filter (\<lambda>(k, v). k \<notin> fst ` set kvs) (map_entries x) @ kvs))"
| "dec_map JNull x = Some None"
| "dec_map _ x = None"

text \<open>The top of \<open>json.Unmarshal\<close> into a struct: null leaves the zero value, an object is
  decoded field by field, anything else is an error. The error's text is not modelled.\<close>

definition unmarshal_error :: go_error where
  "unmarshal_error = New ''json: cannot unmarshal''"

fun Unmarshal :: "((string \<times> json) list \<Rightarrow> 'a option) \<Rightarrow> json \<Rightarrow> go_error + 'a" where
  "Unmarshal dec (JObj kvs) = (case dec kvs of None \<Rightarrow> Inl unmarshal_error | Some x \<Rightarrow> Inr x)"
| "Unmarshal dec JNull = (case dec [] of None \<Rightarrow> Inl unmarshal_error | Some x \<Rightarrow> Inr x)"
| "Unmarshal dec _ = Inl unmarshal_error"

definition dec_dispatch :: "(string \<times> json) list \<Rightarrow> DispatchMessage option" where
  "dec_dispatch kvs =
     do { callID \<leftarrow> dec_field dec_uuid uuid_Nil ''call_id'' kvs;
          campaignID \<leftarrow> dec_field dec_uuid uuid_Nil ''campaign_id'' kvs;
          phone \<leftarrow> dec_field dec_str [] ''phone_number'' kvs;
          attempt \<leftarrow> dec_field dec_int 0 ''attempt'' kvs;
          maxAttempts \<leftarrow> dec_field dec_int 0 ''max_attempts'' kvs;
          base \<leftarrow> dec_field dec_int 0 ''retry_base_ms'' kvs;
          mx \<leftarrow> dec_field dec_int 0 ''retry_max_ms'' kvs;
          jitter \<leftarrow> dec_field dec_float 0 ''retry_jitter'' kvs;
          limit \<leftarrow> dec_field dec_int 0 ''concurrency_limit'' kvs;
          meta \<leftarrow> dec_field dec_map None ''metadata'' kvs;
          enq \<leftarrow> dec_field dec_time zero_time ''enqueued_at'' kvs;
          Some \<lparr>dm_CallID = callID, dm_CampaignID = campaignID, dm_PhoneNumber = phone,
            dm_Attempt = attempt, dm_MaxAttempts = maxAttempts, dm_RetryBaseMs = base,
            dm_RetryMaxMs = mx, dm_RetryJitter = jitter, dm_ConcurrencyLimit = limit,
            dm_Metadata = meta, dm_EnqueuedAt = enq\<rparr> }"

definition dec_status :: "(string \<times> json) list \<Rightarrow> StatusMessage option" where
  "dec_status kvs =
     do { callID \<leftarrow> dec_field dec_uuid uuid_Nil ''call_id'' kvs;
          campaignID \<leftarrow> dec_field dec_uuid uuid_Nil ''campaign_id'' kvs;
          phone \<leftarrow> dec_field dec_str [] ''phone_number'' kvs;
          status \<leftarrow> dec_field dec_str [] ''status'' kvs;
          attempt \<leftarrow> dec_field dec_int 0 ''attempt'' kvs;
          maxAttempts \<leftarrow> dec_field dec_int 0 ''max_attempts'' kvs;
          retryable \<leftarrow> dec_field dec_bool False ''retryable'' kvs;
          base \<leftarrow> dec_field dec_int 0 ''retry_base_ms'' kvs;
          mx \<leftarrow> dec_field dec_int 0 ''retry_max_ms'' kvs;
          jitter \<leftarrow> dec_field dec_float 0 ''retry_jitter'' kvs;
          limit \<leftarrow> dec_field dec_int 0 ''concurrency_limit'' kvs;
          duration \<leftarrow> dec_field dec_int 0 ''duration_ms'' kvs;
          err \<leftarrow> dec_field dec_str [] ''error'' kvs;
          occurred \<leftarrow> dec_field dec_time zero_time ''occurred_at'' kvs;
          nextAttempt \<leftarrow> dec_field dec_time_ptr None ''next_attempt'' kvs;
          meta \<leftarrow> dec_field dec_map None ''metadata'' kvs;
          Some \<lparr>sm_CallID = callID, sm_CampaignID = campaignID, sm_PhoneNumber = phone,
            sm_Status = status, sm_Attempt = attempt, sm_MaxAttempts = maxAttempts,
            sm_Retryable = retryable, sm_RetryBaseMs = base, sm_RetryMaxMs = mx,
            sm_RetryJitter = jitter, sm_ConcurrencyLimit = limit, sm_DurationMs = duration,
            sm_Error = err, sm_OccurredAt = occurred, sm_NextAttempt = nextAttempt,
            sm_Metadata = meta\<rparr> }"

text \<open>The key \<open>max_attempts\<close> belongs to the outer struct, so the embedded field keeps its
  zero value.\<close>

definition dec_retry :: "(string \<times> json) list \<Rightarrow> RetryMessage option" where
  "dec_retry kvs =
     do { d \<leftarrow> dec_dispatch (filter (\<lambda>(k, v). to_lower k \<noteq> ''max_attempts'') kvs);
          maxAttempts \<leftarrow> dec_field dec_int 0 ''max_attempts'' kvs;
          nextAttempt \<leftarrow> dec_field dec_time zero_time ''next_attempt'' kvs;
          Some \<lparr>rm_DispatchMessage = d, rm_MaxAttempts = maxAttempts, rm_NextAttempt = nextAttempt\<rparr> }"

subsection \<open>Publishers\<close>

text \<open>\<open>writer.WriteMessages\<close> of one record: acknowledged by all replicas, or an error with or
  without effect.\<close>

definition append_record :: "kafka_record \<Rightarrow> world \<Rightarrow> (unit \<times> world) option" where
  "append_record rec w = Some ((), w\<lparr>w_kafka := w_kafka w @ [rec]\<rparr>)"

definition DispatchCall :: "env \<Rightarrow> string \<Rightarrow> DispatchMessage \<Rightarrow> world \<Rightarrow> go_error option \<times> world" where
  "DispatchCall e topic msg w =
     (case Now e w of (now, w1) \<Rightarrow>
        run_stmt e ''call dispatcher: write message: ''
          (append_record \<lparr>k_topic = topic, k_key = dm_CallID msg, k_value = enc_dispatch msg, k_time = now\<rparr>) w1)"

definition PublishStatus :: "env \<Rightarrow> string \<Rightarrow> StatusMessage \<Rightarrow> world \<Rightarrow> go_error option \<times> world" where
  "PublishStatus e topic msg w =
     (case Now e w of (now, w1) \<Rightarrow>
        run_stmt e ''status publisher: write message: ''
          (append_record \<lparr>k_topic = topic, k_key = sm_CallID msg, k_value = enc_status msg, k_time = now\<rparr>) w1)"

definition ScheduleRetry :: "env \<Rightarrow> string list \<Rightarrow> int \<Rightarrow> RetryMessage \<Rightarrow> world \<Rightarrow> go_error option \<times> world" where
  "ScheduleRetry e topics attempt msg w =
     (if attempt \<le> 0 \<or> int (length topics) < attempt
      then (Some (New (''retry scheduler: attempt '' @ show_int attempt @ '' out of range'')), w)
      else (case Now e w of (now, w1) \<Rightarrow>
              run_stmt e ''retry scheduler: write: ''
                (append_record \<lparr>k_topic = topics ! nat (attempt - 1), k_key = dm_CallID (rm_DispatchMessage msg),
                   k_value = enc_retry msg, k_time = now\<rparr>) w1))"

text \<open>\<open>reader.CommitMessages\<close> of one record by a consumer group.\<close>

definition CommitMessages :: "env \<Rightarrow> string \<Rightarrow> kafka_record \<Rightarrow> world \<Rightarrow> go_error option \<times> world" where
  "CommitMessages e groupID m w =
     (case exec e (\<lambda>w. Some ((), w\<lparr>w_commits := w_commits w @ [(groupID, m)]\<rparr>)) w of
        (Inl err, w') \<Rightarrow> (Some err, w')
      | (Inr _, w') \<Rightarrow> (None, w'))"

subsection \<open>Topics\<close>

text \<open>\<open>EnsureTopics\<close>: the replies of the broker are parameters (the dial, the partitions it
  lists, its answer to the creation of a topic); the result has the topics that were created.\<close>

fun create_topics ::
    "(string \<Rightarrow> go_error option) \<Rightarrow> (string \<Rightarrow> bool) \<Rightarrow> string list \<Rightarrow> go_error option \<times> string list" where
  "create_topics create exists [] = (None, [])"
| "create_topics create exists (topic # topics) =
     (if exists topic then create_topics create exists topics
      else (case create topic of
              Some err \<Rightarrow> (Some (Errorf (''kafka: create topic '' @ topic @ '': '') err []), [])
            | None \<Rightarrow> (case create_topics create exists topics of (r, ts) \<Rightarrow> (r, topic # ts))))"

definition EnsureTopics ::
    "go_error option \<Rightarrow> (go_error + string list) \<Rightarrow> (string \<Rightarrow> go_error option) \<Rightarrow> string list
      \<Rightarrow> go_error option \<times> string list" where
  "EnsureTopics dial partitions create topics =
     (case dial of
        Some err \<Rightarrow> (Some (Errorf ''kafka: dial: '' err []), [])
      | None \<Rightarrow>
          (case partitions of
             Inl err \<Rightarrow> (Some (Errorf ''kafka: read partitions: '' err []), [])
           | Inr existing \<Rightarrow> create_topics create (\<lambda>t. t \<in> set existing) topics))"

subsection \<open>Round trips\<close>

definition wf_dispatch :: "DispatchMessage \<Rightarrow> bool" where
  "wf_dispatch m \<longleftrightarrow> int64 (dm_Attempt m) \<and> int64 (dm_MaxAttempts m) \<and> int64 (dm_RetryBaseMs m)
     \<and> int64 (dm_RetryMaxMs m) \<and> int64 (dm_ConcurrencyLimit m)"

definition wf_status :: "StatusMessage \<Rightarrow> bool" where
  "wf_status m \<longleftrightarrow> int64 (sm_Attempt m) \<and> int64 (sm_MaxAttempts m) \<and> int64 (sm_RetryBaseMs m)
     \<and> int64 (sm_RetryMaxMs m) \<and> int64 (sm_ConcurrencyLimit m) \<and> int64 (sm_DurationMs m)"

lemma dec_int_JInt [simp]: "int64 i \<Longrightarrow> dec_int (JInt i) x = Some i"
  by simp

lemma dec_marshal_map [simp]: "dec_map (marshal_map m) None = Some m"
  by (cases m) simp_all

lemma field_names:
  "to_lower ''call_id'' = ''call_id''"
  "to_lower ''campaign_id'' = ''campaign_id''"
  "to_lower ''phone_number'' = ''phone_number''"
  "to_lower ''status'' = ''status''"
  "to_lower ''attempt'' = ''attempt''"
  "to_lower ''max_attempts'' = ''max_attempts''"
  "to_lower ''retryable'' = ''retryable''"
  "to_lower ''retry_base_ms'' = ''retry_base_ms''"
  "to_lower ''retry_max_ms'' = ''retry_max_ms''"
  "to_lower ''retry_jitter'' = ''retry_jitter''"
  "to_lower ''concurrency_limit'' = ''concurrency_limit''"
  "to_lower ''duration_ms'' = ''duration_ms''"
  "to_lower ''error'' = ''error''"
  "to_lower ''occurred_at'' = ''occurred_at''"
  "to_lower ''next_attempt'' = ''next_attempt''"
  "to_lower ''metadata'' = ''metadata''"
  "to_lower ''enqueued_at'' = ''enqueued_at''"
  by (simp_all add: to_lower_def)

lemma dispatch_roundtrip_aux: "wf_dispatch m \<Longrightarrow> Unmarshal dec_dispatch (enc_dispatch m) = Inr m"
  by (simp add: wf_dispatch_def enc_dispatch_def dec_dispatch_def field_names del: dec_int.simps)

lemma status_roundtrip_aux: "wf_status m \<Longrightarrow> Unmarshal dec_status (enc_status m) = Inr m"
  by (cases "sm_NextAttempt m"; cases "sm_Error m")
    (simp_all add: wf_status_def enc_status_def dec_status_def field_names del: dec_int.simps)

lemma retry_roundtrip_aux:
  "wf_dispatch (rm_DispatchMessage m) \<Longrightarrow> int64 (rm_MaxAttempts m) \<Longrightarrow>
   Unmarshal dec_retry (enc_retry m) = Inr (m\<lparr>rm_DispatchMessage := (rm_DispatchMessage m)\<lparr>dm_MaxAttempts := 0\<rparr>\<rparr>)"
  by (simp add: wf_dispatch_def enc_retry_def dec_retry_def dec_dispatch_def field_names Let_def
      del: dec_int.simps)

subsection \<open>The contract of a publisher\<close>

text \<open>\<open>published w rec w'\<close>: the record was appended to Kafka and nothing else changed.\<close>

definition published :: "world \<Rightarrow> kafka_record \<Rightarrow> world \<Rightarrow> bool" where
  "published w rec w' \<longleftrightarrow> same_store (w\<lparr>w_kafka := w_kafka w @ [rec]\<rparr>) w'"

lemma published_fields:
  assumes "published w rec w'"
  shows "w_kafka w' = w_kafka w @ [rec]" "w_campaigns w' = w_campaigns w" "w_hours w' = w_hours w"
    "w_targets w' = w_targets w" "w_stats w' = w_stats w" "w_calls w' = w_calls w"
    "w_by_status w' = w_by_status w" "w_attempts w' = w_attempts w" "w_commits w' = w_commits w"
  using same_store_fields [OF assms [unfolded published_def]] by simp_all

locale publisher =
  fixes publish :: "env \<Rightarrow> 'm \<Rightarrow> world \<Rightarrow> go_error option \<times> world"
    and rec_of :: "'m \<Rightarrow> go_time \<Rightarrow> kafka_record"
  assumes publish_either: "publish e m w = (err, w') \<Longrightarrow>
      same_store w w' \<and> err \<noteq> None \<or> published w (rec_of m (utc (now_at e (now_n w)))) w'"
    and publish_ok: "no_faults e \<Longrightarrow> fst (publish e m w) = None"
begin

lemma publish_None: "publish e m w = (None, w') \<Longrightarrow> published w (rec_of m (utc (now_at e (now_n w)))) w'"
  using publish_either by blast

lemma publish_tables:
  assumes "publish e m w = (err, w')"
  shows "w_campaigns w' = w_campaigns w" "w_hours w' = w_hours w" "w_targets w' = w_targets w"
    "w_stats w' = w_stats w" "w_calls w' = w_calls w" "w_by_status w' = w_by_status w"
    "w_attempts w' = w_attempts w" "w_commits w' = w_commits w"
  using publish_either [OF assms] by (auto dest: same_store_fields published_fields)

lemma publish_kafka:
  assumes "publish e m w = (err, w')"
  shows "w_kafka w' = w_kafka w \<and> err \<noteq> None \<or> w_kafka w' = w_kafka w @ [rec_of m (utc (now_at e (now_n w)))]"
  using publish_either [OF assms] by (auto dest: same_store_fields published_fields)

end

lemma append_either:
  assumes "run_stmt e msg (append_record rec) (w\<lparr>now_n := n\<rparr>) = (err, w')"
  shows "same_store w w' \<and> err \<noteq> None \<or> published w rec w'"
  using assms
proof (cases rule: run_stmt_cases)
  case (effect a)
  then show ?thesis
    by (auto simp: append_record_def published_def same_store_def tick_io_def)
next
  case nothing
  then show ?thesis by (auto simp: same_store_def tick_io_def)
qed

lemma append_ok: "no_faults e \<Longrightarrow> fst (run_stmt e msg (append_record rec) w) = None"
  by (simp add: run_stmt_ok append_record_def)

interpretation dispatcher: publisher "\<lambda>e. DispatchCall e topic"
  "\<lambda>m t. \<lparr>k_topic = topic, k_key = dm_CallID m, k_value = enc_dispatch m, k_time = t\<rparr>" for topic
  by unfold_locales (auto simp: DispatchCall_def Now_def append_ok dest: append_either)

interpretation status_publisher: publisher "\<lambda>e. PublishStatus e topic"
  "\<lambda>m t. \<lparr>k_topic = topic, k_key = sm_CallID m, k_value = enc_status m, k_time = t\<rparr>" for topic
  by unfold_locales (auto simp: PublishStatus_def Now_def append_ok dest: append_either)

lemma CommitMessages_cases:
  assumes "CommitMessages e g m w = (err, w')"
  obtains (same) "same_store w w'" "err \<noteq> None"
  | (committed) "same_store (w\<lparr>w_commits := w_commits w @ [(g, m)]\<rparr>) w'"
proof -
  obtain r w1 where x: "exec e (\<lambda>w. Some ((), w\<lparr>w_commits := w_commits w @ [(g, m)]\<rparr>)) w = (r, w1)" by force
  then have r: "w' = w1" "err = None \<longleftrightarrow> (\<exists>u. r = Inr u)"
    using assms by (auto simp: CommitMessages_def split: sum.splits)
  from x show thesis
  proof (cases rule: exec_cases)
    case (effect a)
    then have "w1 = (tick_io w)\<lparr>w_commits := w_commits w @ [(g, m)]\<rparr>" by simp
    then show thesis using committed r(1) by (simp add: same_store_def tick_io_def)
  next
    case (nothing k)
    then show thesis using same r by auto
  qed
qed

lemma CommitMessages_ok: "no_faults e \<Longrightarrow> fst (CommitMessages e g m w) = None"
  by (simp add: CommitMessages_def exec_ok)

text \<open>The retry scheduler is a publisher for the attempts it has a topic for.\<close>

lemma ScheduleRetry_out_of_range:
  "attempt \<le> 0 \<or> int (length topics) < attempt \<Longrightarrow>
   ScheduleRetry e topics attempt msg w =
     (Some (New (''retry scheduler: attempt '' @ show_int attempt @ '' out of range'')), w)"
  by (auto simp: ScheduleRetry_def)

lemma ScheduleRetry_in_range:
  "0 < attempt \<Longrightarrow> attempt \<le> int (length topics) \<Longrightarrow> ScheduleRetry e topics attempt msg w = (err, w') \<Longrightarrow>
   same_store w w' \<and> err \<noteq> None \<or>
   published w \<lparr>k_topic = topics ! nat (attempt - 1), k_key = dm_CallID (rm_DispatchMessage msg),
     k_value = enc_retry msg, k_time = utc (now_at e (now_n w))\<rparr> w'"
  by (auto simp: ScheduleRetry_def Now_def dest: append_either)

lemma ScheduleRetry_ok:
  "no_faults e \<Longrightarrow> 0 < attempt \<Longrightarrow> attempt \<le> int (length topics) \<Longrightarrow>
   fst (ScheduleRetry e topics attempt msg w) = None"
  by (simp add: ScheduleRetry_def Now_def append_ok)

lemma create_topics_complete:
  "create_topics create exists topics = (None, ts) \<Longrightarrow> ts = filter (\<lambda>t. \<not> exists t) topics"
  by (induction topics arbitrary: ts) (auto split: if_splits option.splits prod.splits)

lemma create_topics_new: "create_topics create exists topics = (r, ts) \<Longrightarrow> t \<in> set ts \<Longrightarrow> \<not> exists t \<and> t \<in> set topics"
  by (induction topics arbitrary: r ts) (auto split: if_splits option.splits prod.splits)

subsection \<open>Properties\<close>


definition sample_dispatch :: DispatchMessage where
  "sample_dispatch = \<lparr>dm_CallID = 11, dm_CampaignID = 1, dm_PhoneNumber = ''+15550100'', dm_Attempt = 1,
     dm_MaxAttempts = 5, dm_RetryBaseMs = 2000, dm_RetryMaxMs = 120000, dm_RetryJitter = 1 / 4,
     dm_ConcurrencyLimit = 2, dm_Metadata = Some [(''name'', JStr ''Ada'')], dm_EnqueuedAt = utc 0\<rparr>"

definition sample_status :: StatusMessage where
  "sample_status = \<lparr>sm_CallID = 11, sm_CampaignID = 1, sm_PhoneNumber = ''+15550100'',
     sm_Status = CallStatusFailed, sm_Attempt = 1, sm_MaxAttempts = 5, sm_Retryable = True,
     sm_RetryBaseMs = 2000, sm_RetryMaxMs = 120000, sm_RetryJitter = 1 / 4, sm_ConcurrencyLimit = 2,
     sm_DurationMs = 5000, sm_Error = ''busy'', sm_OccurredAt = utc 0, sm_NextAttempt = Some (utc 9),
     sm_Metadata = None\<rparr>"


text \<open>A retry message does not read back as written: the embedded dispatch message always comes
  back with zero maximal attempts, because the tag of the outer field hides the embedded one; all
  other fields survive.\<close>

theorem retry_message_loses_max_attempts:
  assumes "wf_dispatch (rm_DispatchMessage m)" "int64 (rm_MaxAttempts m)"
  shows "Unmarshal dec_retry (enc_retry m) =
     Inr (m\<lparr>rm_DispatchMessage := (rm_DispatchMessage m)\<lparr>dm_MaxAttempts := 0\<rparr>\<rparr>)"
  using assms by (rule retry_roundtrip_aux)

theorem retry_message_loses_max_attempts_witness:
  "\<exists>m'. Unmarshal dec_retry (enc_retry \<lparr>rm_DispatchMessage = sample_dispatch, rm_MaxAttempts = 5, rm_NextAttempt = utc 9\<rparr>) = Inr m'
     \<and> dm_MaxAttempts sample_dispatch = 5 \<and> dm_MaxAttempts (rm_DispatchMessage m') = 0"
  using retry_message_loses_max_attempts
    [of "\<lparr>rm_DispatchMessage = sample_dispatch, rm_MaxAttempts = 5, rm_NextAttempt = utc 9\<rparr>"]
  by (simp add: wf_dispatch_def sample_dispatch_def int64_def)

text \<open>\<open>EnsureTopics\<close> without an error has created exactly the topics that were missing, and in any
  case it never asks for a topic the broker already lists.\<close>

theorem ensure_topics_creates_missing:
  assumes "EnsureTopics dial partitions create topics = (err, created)"
  shows "(\<forall>t \<in> set created. t \<in> set topics \<and> (\<exists>existing. partitions = Inr existing \<and> t \<notin> set existing))
     \<and> (err = None \<longrightarrow> (\<exists>existing. partitions = Inr existing \<and> set topics \<subseteq> set existing \<union> set created))"
  using assms
  by (auto simp: EnsureTopics_def split: option.splits sum.splits
      dest: create_topics_new create_topics_complete)

theorem ensure_topics_creates_missing_witness:
  "EnsureTopics None (Inr [''calls'']) (\<lambda>_. None) [''calls'', ''status''] = (None, [''status''])
   \<and> {''calls'', ''status''} \<subseteq> {''calls''} \<union> {''status''}"
  using ensure_topics_creates_missing [of None "Inr [''calls'']" "\<lambda>_. None" "[''calls'', ''status'']" None "[''status'']"]
  by (simp add: EnsureTopics_def)

end
