(* ===== verification/Base64.thy ===== *)
theory Base64
  imports Errors
begin

text \<open>
  The pagination tokens: \<open>EncodeBase64\<close> and \<open>DecodeBase64\<close> of
  \<open>internal/service/common/base64.go\<close>, with \<open>base64.RawURLEncoding\<close> of the standard
  library: the URL-safe alphabet, no padding, line breaks ignored on input, unused trailing bits
  not checked. Bytes are characters.
\<close>

subsection \<open>The alphabet\<close>

definition alphabet :: string where
  "alphabet = ''ABCDEFGHIJKLMNOPQRSTUVWXYZabcdefghijklmnopqrstuvwxyz0123456789-_''"

definition enc_char :: "nat \<Rightarrow> char" where
  "enc_char v = alphabet ! v"

fun index_of :: "char \<Rightarrow> string \<Rightarrow> nat option" where
  "index_of c [] = None"
| "index_of c (x # xs) = (if x = c then Some 0 else map_option Suc (index_of c xs))"

definition dec_char :: "char \<Rightarrow> nat option" where
  "dec_char c = index_of c alphabet"

lemma dec_enc_char: "v < 64 \<Longrightarrow> dec_char (enc_char v) = Some v"
proof -
  have "list_all (\<lambda>v. dec_char (enc_char v) = Some v) [0..<64]"
    by code_simp
  then show "v < 64 \<Longrightarrow> dec_char (enc_char v) = Some v"
    by (simp add: list_all_iff)
qed

lemma alphabet_no_break: "v < 64 \<Longrightarrow> enc_char v \<noteq> CHR 0x0A \<and> enc_char v \<noteq> CHR 0x0D"
proof -
  have "list_all (\<lambda>v. enc_char v \<noteq> CHR 0x0A \<and> enc_char v \<noteq> CHR 0x0D) [0..<64]"
    by code_simp
  then show "v < 64 \<Longrightarrow> enc_char v \<noteq> CHR 0x0A \<and> enc_char v \<noteq> CHR 0x0D"
    by (simp add: list_all_iff)
qed

subsection \<open>Encoding and decoding\<close>

abbreviation byte :: "char \<Rightarrow> nat" where
  "byte c \<equiv> of_char c"

fun encode_triples :: "string \<Rightarrow> nat list" where
  "encode_triples [] = []"
| "encode_triples [a] = [byte a div 4, (byte a mod 4) * 16]"
| "encode_triples [a, b] = [byte a div 4, (byte a mod 4) * 16 + byte b div 16, (byte b mod 16) * 4]"
| "encode_triples (a # b # c # rest) =
     byte a div 4 # ((byte a mod 4) * 16 + byte b div 16)
     # ((byte b mod 16) * 4 + byte c div 64) # (byte c mod 64) # encode_triples rest"

definition EncodeBase64 :: "string \<Rightarrow> string" where
  "EncodeBase64 s = map enc_char (encode_triples s)"

fun decode_quads :: "nat list \<Rightarrow> string option" where
  "decode_quads [] = Some []"
| "decode_quads [p] = None"
| "decode_quads [p, q] = Some [char_of (p * 4 + q div 16)]"
| "decode_quads [p, q, r] = Some [char_of (p * 4 + q div 16), char_of ((q mod 16) * 16 + r div 4)]"
| "decode_quads (p # q # r # s # rest) =
     map_option (\<lambda>bs. char_of (p * 4 + q div 16) # char_of ((q mod 16) * 16 + r div 4)
        # char_of ((r mod 4) * 64 + s) # bs) (decode_quads rest)"

fun dec_chars :: "string \<Rightarrow> nat list option" where
  "dec_chars [] = Some []"
| "dec_chars (c # cs) =
     (case dec_char c of None \<Rightarrow> None | Some v \<Rightarrow> map_option (\<lambda>vs. v # vs) (dec_chars cs))"

definition DecodeBase64 :: "string \<Rightarrow> go_error + string" where
  "DecodeBase64 s =
     (case dec_chars (filter (\<lambda>c. c \<noteq> CHR 0x0A \<and> c \<noteq> CHR 0x0D) s) of
        None \<Rightarrow> Inl (Errorf ''decode base64: '' (New ''illegal base64 data'') [])
      | Some vs \<Rightarrow> (case decode_quads vs of
                     None \<Rightarrow> Inl (Errorf ''decode base64: '' (New ''illegal base64 data'') [])
                   | Some bs \<Rightarrow> Inr bs))"

subsection \<open>Round trip\<close>

lemma byte_less: "byte c < 256"
  by simp

lemma byte_parts:
  "byte a div 4 < 64" "(byte a mod 4) * 16 < 64" "(byte a mod 4) * 16 + byte b div 16 < 64"
  "(byte b mod 16) * 4 < 64" "(byte b mod 16) * 4 + byte c div 64 < 64" "byte c mod 64 < 64"
  using byte_less [of a] byte_less [of b] byte_less [of c] by linarith+

lemma byte_high: "byte b div 16 < 16" "byte c div 64 < 4"
  using byte_less [of b] byte_less [of c] by linarith+

lemma triples_bounds: "v \<in> set (encode_triples s) \<Longrightarrow> v < 64"
  by (induction s rule: encode_triples.induct) (auto simp: byte_parts)

lemma join_first: "x < 16 \<Longrightarrow> m div 4 * 4 + (m mod 4 * 16 + x) div 16 = m" for m x :: nat
  by (simp add: div_mult_mod_eq)

lemma join_second: "x < 4 \<Longrightarrow> n < 256 \<Longrightarrow> (m * 16 + n div 16) mod 16 * 16 + (n mod 16 * 4 + x) div 4 = n" for m n x :: nat
  by (simp add: div_mult_mod_eq)

lemma join_third: "n < 256 \<Longrightarrow> (m * 4 + n div 64) mod 4 * 64 + n mod 64 = n" for m n :: nat
  by (simp add: div_mult_mod_eq)

lemma quads_triples: "decode_quads (encode_triples s) = Some s"
proof (induction s rule: encode_triples.induct)
  case (2 a)
  then show ?case using join_first [of 0 "byte a"] by simp
next
  case (3 a b)
  then show ?case
    using join_first [of "byte b div 16" "byte a"] join_second [of 0 "byte b" "byte a mod 4"] byte_less [of b] byte_high(1) [of b]
    by simp
next
  case (4 a b c rest)
  then show ?case
    using join_first [of "byte b div 16" "byte a"] join_second [of "byte c div 64" "byte b" "byte a mod 4"]
      join_third [of "byte c" "byte b mod 16"] byte_less [of b] byte_less [of c]
      byte_high(1) [of b] byte_high(2) [of c]
    by simp
qed simp

lemma dec_chars_enc: "(\<And>v. v \<in> set vs \<Longrightarrow> v < 64) \<Longrightarrow> dec_chars (map enc_char vs) = Some vs"
  by (induction vs) (auto simp: dec_enc_char)

lemma base64_inverse: "DecodeBase64 (EncodeBase64 s) = Inr s"
proof -
  have "filter (\<lambda>c. c \<noteq> CHR 0x0A \<and> c \<noteq> CHR 0x0D) (EncodeBase64 s) = EncodeBase64 s"
    by (auto simp: EncodeBase64_def filter_id_conv triples_bounds alphabet_no_break)
  moreover have "dec_chars (EncodeBase64 s) = Some (encode_triples s)"
    by (simp add: EncodeBase64_def dec_chars_enc triples_bounds)
  ultimately show ?thesis
    by (simp add: DecodeBase64_def quads_triples)
qed

end
