(* ===== verification/Call_Service.thy ===== *)
theory Call_Service
  imports Postgres_Laws Scylla Queue Base64 Samples
begin

text \<open>
  The call service (\<open>internal/service/call/service.go\<close>): triggering a call (validation, the
  call's record, the counters, the dispatch message), reading calls, and the pagination tokens.
\<close>

record TriggerCallInput =
  tc_CampaignID :: uuid
  tc_PhoneNumber :: string
  tc_Metadata :: metadata

definition validatePhoneInCampaignTargets ::
    "env \<Rightarrow> uuid \<Rightarrow> string \<Rightarrow> world \<Rightarrow> go_error option \<times> world" where
  "validatePhoneInCampaignTargets e campaignID phoneNumber w =
     (case CampaignTargetRepository_ListByCampaign e campaignID 10000 [] w of
        (Inl err, w1) \<Rightarrow> (Some (Errorf ''call service: get campaign targets: '' err []), w1)
      | (Inr existingTargets, w1) \<Rightarrow>
          if existingTargets = [] then
            (Some (Errorf [] (Sentinel ErrValidation) '': campaign has no registered targets''), w1)
          else if phoneNumber \<in> ct_PhoneNumber ` set existingTargets then (None, w1)
          else (Some (Errorf [] (Sentinel ErrValidation)
                 ('': phone number '' @ phoneNumber
                  @ '' is not part of this campaign's registered target list'')), w1))"

text \<open>The call and the dispatch message of \<open>TriggerCall\<close>.\<close>

definition new_call :: "TriggerCallInput \<Rightarrow> uuid \<Rightarrow> go_time \<Rightarrow> Call" where
  "new_call input u now =
     \<lparr>call_ID = u, call_CampaignID = tc_CampaignID input, call_PhoneNumber = tc_PhoneNumber input,
      call_Status = CallStatusQueued, call_AttemptCount = 0, call_LastAttemptAt = None,
      call_ScheduledAt = now, call_CreatedAt = now, call_UpdatedAt = now, call_LastError = None\<rparr>"

definition new_dispatch :: "TriggerCallInput \<Rightarrow> Campaign \<Rightarrow> int \<Rightarrow> uuid \<Rightarrow> go_time \<Rightarrow> DispatchMessage" where
  "new_dispatch input campaign defaultConcurrency u now =
     (let policy = c_RetryPolicy campaign;
          concurrencyLimit = (if 0 < c_MaxConcurrentCalls campaign then c_MaxConcurrentCalls campaign
                              else defaultConcurrency)
      in \<lparr>dm_CallID = u, dm_CampaignID = tc_CampaignID input, dm_PhoneNumber = tc_PhoneNumber input,
          dm_Attempt = 1, dm_MaxAttempts = MaxAttempts policy,
          dm_RetryBaseMs = Milliseconds (BaseDelay policy),
          dm_RetryMaxMs = Milliseconds (MaxDelay policy), dm_RetryJitter = Jitter policy,
          dm_ConcurrencyLimit = concurrencyLimit, dm_Metadata = tc_Metadata input,
          dm_EnqueuedAt = now\<rparr>)"

definition TriggerCall ::
    "env \<Rightarrow> string \<Rightarrow> int \<Rightarrow> TriggerCallInput \<Rightarrow> world \<Rightarrow> (go_error + Call) \<times> world" where
  "TriggerCall e topic defaultConcurrency input w =
     (if tc_PhoneNumber input = [] then
        (Inl (Errorf [] (Sentinel ErrValidation) '': phone number is required''), w)
      else
      (case CampaignRepository_Get e (tc_CampaignID input) w of
         (Inl err, w1) \<Rightarrow> (Inl (Errorf ''call service: lookup campaign: '' err []), w1)
       | (Inr campaign, w1) \<Rightarrow>
      (case validatePhoneInCampaignTargets e (tc_CampaignID input) (tc_PhoneNumber input) w1 of
         (Some err, w2) \<Rightarrow> (Inl err, w2)
       | (None, w2) \<Rightarrow>
      (case Now e w2 of (now, w3) \<Rightarrow>
      (case uuid_New e w3 of (u, w4) \<Rightarrow>
      (case CreateCall e (new_call input u now) w4 of
         (Some err, w5) \<Rightarrow> (Inl (Errorf ''call service: persist call: '' err []), w5)
       | (None, w5) \<Rightarrow>
      (case CampaignStatisticsRepository_ApplyDelta e (tc_CampaignID input)
              (zero_delta\<lparr>TotalCallsDelta := 1, PendingCallsDelta := 1\<rparr>) w5 of
         (Some err, w6) \<Rightarrow> (Inl (Errorf ''call service: update stats: '' err []), w6)
       | (None, w6) \<Rightarrow>
      (case DispatchCall e topic (new_dispatch input campaign defaultConcurrency u now) w6 of
         (Some err, w7) \<Rightarrow>
           (Inl (Errorf ''call service: dispatch call: '' err []),
            if tc_CampaignID input \<noteq> uuid_Nil
            then snd (CampaignStatisticsRepository_ApplyDelta e (tc_CampaignID input)
                        (zero_delta\<lparr>PendingCallsDelta := -1\<rparr>) w7)
            else w7)
       | (None, w7) \<Rightarrow> (Inr (new_call input u now), w7)))))))))"

definition call_GetCall :: "env \<Rightarrow> uuid \<Rightarrow> world \<Rightarrow> (go_error + Call) \<times> world" where
  "call_GetCall e i w = GetCall e i w"

definition call_ListCallsByCampaign ::
    "env \<Rightarrow> uuid \<Rightarrow> int \<Rightarrow> string \<Rightarrow> world \<Rightarrow> (go_error + Call list \<times> string) \<times> world" where
  "call_ListCallsByCampaign e campaignID limit pagingState w =
     ListCallsByCampaign e campaignID limit pagingState w"

definition EncodePagingState :: "string \<Rightarrow> string" where
  "EncodePagingState state = (if state = [] then [] else EncodeBase64 state)"

definition DecodePagingState :: "string \<Rightarrow> go_error + string" where
  "DecodePagingState token = (if token = [] then Inr [] else DecodeBase64 token)"

subsection \<open>What triggering a call does\<close>

lemma validatePhone_same: "validatePhoneInCampaignTargets e i p w = (r, w') \<Longrightarrow> same_store w w'"
  by (auto simp: validatePhoneInCampaignTargets_def split: prod.splits sum.splits if_splits
      dest: ListByCampaign_same)

lemma validatePhone_None:
  assumes "validatePhoneInCampaignTargets e i p w = (None, w')" "env_scans e"
  shows "p \<in> phones_of i w"
proof -
  obtain xs w1 where l: "CampaignTargetRepository_ListByCampaign e i 10000 [] w = (Inr xs, w1)"
    "p \<in> ct_PhoneNumber ` set xs"
    using assms(1) by (auto simp: validatePhoneInCampaignTargets_def split: prod.splits sum.splits if_splits)
  then show ?thesis
    using assms(2) ListByCampaign_all [OF l(1)]
    by (auto simp: env_scans_def phones_of_def toModel_def dest!: select_targets_set)
qed

text \<open>The changes of a counter row.\<close>

definition trigger_delta :: StatsDelta where
  "trigger_delta = zero_delta\<lparr>TotalCallsDelta := 1, PendingCallsDelta := 1\<rparr>"

definition undo_delta :: StatsDelta where
  "undo_delta = zero_delta\<lparr>PendingCallsDelta := -1\<rparr>"

definition stats_moved :: "(CampaignStats \<Rightarrow> CampaignStats) \<Rightarrow> uuid \<Rightarrow> world \<Rightarrow> world \<Rightarrow> bool" where
  "stats_moved f i w w' \<longleftrightarrow> w_stats w' = (w_stats w)(i := map_option f (w_stats w i))"

lemma stats_moved_id: "w_stats w' = w_stats w \<Longrightarrow> stats_moved (\<lambda>s. s) i w w'"
  by (simp add: stats_moved_def option.map_ident fun_upd_idem)

lemma ApplyDelta_stats:
  assumes "CampaignStatisticsRepository_ApplyDelta e i d w = (err, w')"
  shows "stats_moved (add_delta d) i w w' \<or> w_stats w' = w_stats w \<and> err \<noteq> None"
    "w_campaigns w' = w_campaigns w" "w_targets w' = w_targets w" "w_kafka w' = w_kafka w" "w_calls w' = w_calls w"
    "w_hours w' = w_hours w" "w_by_status w' = w_by_status w" "w_attempts w' = w_attempts w" "w_commits w' = w_commits w"
proof -
  show "stats_moved (add_delta d) i w w' \<or> w_stats w' = w_stats w \<and> err \<noteq> None"
    using assms
  proof (cases rule: ApplyDelta_cases)
    case absent
    then show ?thesis by (simp add: stats_moved_def same_store_fields fun_upd_idem)
  next
    case (applied s)
    then show ?thesis by (simp add: stats_moved_def same_store_fields [OF applied(2)])
  qed (simp add: same_store_fields)
qed (use assms in \<open>auto elim!: ApplyDelta_cases dest: same_store_fields\<close>)

text \<open>The steps of a call that gets as far as its record, and those after it.\<close>

definition record_and_dispatch ::
    "env \<Rightarrow> string \<Rightarrow> int \<Rightarrow> TriggerCallInput \<Rightarrow> Campaign \<Rightarrow> uuid \<Rightarrow> go_time \<Rightarrow> world \<Rightarrow> (go_error + Call) \<times> world" where
  "record_and_dispatch e topic dc input campaign u now w4 =
     (case CreateCall e (new_call input u now) w4 of
        (Some err, w5) \<Rightarrow> (Inl (Errorf ''call service: persist call: '' err []), w5)
      | (None, w5) \<Rightarrow>
     (case CampaignStatisticsRepository_ApplyDelta e (tc_CampaignID input) trigger_delta w5 of
        (Some err, w6) \<Rightarrow> (Inl (Errorf ''call service: update stats: '' err []), w6)
      | (None, w6) \<Rightarrow>
     (case DispatchCall e topic (new_dispatch input campaign dc u now) w6 of
        (Some err, w7) \<Rightarrow>
          (Inl (Errorf ''call service: dispatch call: '' err []),
           if tc_CampaignID input \<noteq> uuid_Nil
           then snd (CampaignStatisticsRepository_ApplyDelta e (tc_CampaignID input) undo_delta w7) else w7)
      | (None, w7) \<Rightarrow> (Inr (new_call input u now), w7))))"

lemma TriggerCall_checks:
  assumes "TriggerCall e topic dc input w = (r, w')"
  obtains (rejected) err where "r = Inl err" "same_store w w'"
  | (accepted) campaign u now w1 w2 w4 where "same_store w w4"
      "CampaignRepository_Get e (tc_CampaignID input) w = (Inr campaign, w1)"
      "validatePhoneInCampaignTargets e (tc_CampaignID input) (tc_PhoneNumber input) w1 = (None, w2)"
      "record_and_dispatch e topic dc input campaign u now w4 = (r, w')"
proof -
  obtain g w1 where g: "CampaignRepository_Get e (tc_CampaignID input) w = (g, w1)" by force
  obtain v w2 where v: "validatePhoneInCampaignTargets e (tc_CampaignID input) (tc_PhoneNumber input) w1 = (v, w2)" by force
  obtain now w3 where n: "Now e w2 = (now, w3)" by force
  obtain u w4 where u: "uuid_New e w3 = (u, w4)" by force
  have s2: "same_store w w2" "same_store w w1"
    using Get_same [OF g] validatePhone_same [OF v] same_store_trans by blast+
  then have s4: "same_store w w4"
    using Now_same [OF n] uuid_New_same [OF u] same_store_trans by blast
  consider "tc_PhoneNumber input = []" | err where "tc_PhoneNumber input \<noteq> []" "g = Inl err"
    | campaign err where "tc_PhoneNumber input \<noteq> []" "g = Inr campaign" "v = Some err"
    | campaign where "tc_PhoneNumber input \<noteq> []" "g = Inr campaign" "v = None"
    by (metis option.exhaust sum.exhaust)
  then show thesis
  proof cases
    case 4
    then have "record_and_dispatch e topic dc input campaign u now w4 = (r, w')"
      unfolding record_and_dispatch_def trigger_delta_def undo_delta_def using assms g v n u by (simp add: TriggerCall_def)
    then show thesis using accepted s4 4 g v by blast
  qed (use assms g v s2 rejected in \<open>auto simp: TriggerCall_def\<close>)
qed

lemma TriggerCall_cases:
  assumes "TriggerCall e topic dc input w = (r, w')"
  obtains (rejected) err where "r = Inl err" "same_store w w'"
  | (unsaved) err c u now w4 where "r = Inl err" "same_store w w4" "CreateCall e (new_call input u now) w4 = (Some c, w')"
  | (uncounted) err c u now w4 w5 where "r = Inl err" "same_store w w4"
      "CreateCall e (new_call input u now) w4 = (None, w5)"
      "CampaignStatisticsRepository_ApplyDelta e (tc_CampaignID input) trigger_delta w5 = (Some c, w')"
  | (sent) campaign u now w1 w2 w4 w5 w6 w7 q where "same_store w w4"
      "CampaignRepository_Get e (tc_CampaignID input) w = (Inr campaign, w1)"
      "validatePhoneInCampaignTargets e (tc_CampaignID input) (tc_PhoneNumber input) w1 = (None, w2)"
      "CreateCall e (new_call input u now) w4 = (None, w5)"
      "CampaignStatisticsRepository_ApplyDelta e (tc_CampaignID input) trigger_delta w5 = (None, w6)"
      "DispatchCall e topic (new_dispatch input campaign dc u now) w6 = (q, w7)"
      "q = None \<Longrightarrow> r = Inr (new_call input u now) \<and> w' = w7"
      "q \<noteq> None \<Longrightarrow> (\<exists>err. r = Inl err) \<and> w' = (if tc_CampaignID input \<noteq> uuid_Nil
         then snd (CampaignStatisticsRepository_ApplyDelta e (tc_CampaignID input) undo_delta w7) else w7)"
  using assms
proof (cases rule: TriggerCall_checks)
  case (rejected err)
  then show thesis by (rule that(1))
next
  case (accepted campaign u now w1 w2 w4)
  obtain c w5 where c: "CreateCall e (new_call input u now) w4 = (c, w5)" by force
  obtain a w6 where a: "CampaignStatisticsRepository_ApplyDelta e (tc_CampaignID input) trigger_delta w5 = (a, w6)" by force
  obtain q w7 where q: "DispatchCall e topic (new_dispatch input campaign dc u now) w6 = (q, w7)" by force
  note steps = accepted(4) [unfolded record_and_dispatch_def]
  consider x where "c = Some x" | x where "c = None" "a = Some x" | "c = None" "a = None" by fastforce
  then show thesis
  proof cases
    case 1
    then show thesis using that(2) accepted(1) steps c by auto
  next
    case 2
    then show thesis using that(3) accepted(1) steps c a by auto
  next
    case 3
    have "q = None \<Longrightarrow> r = Inr (new_call input u now) \<and> w' = w7"
      "q \<noteq> None \<Longrightarrow> (\<exists>err. r = Inl err) \<and> w' = (if tc_CampaignID input \<noteq> uuid_Nil
         then snd (CampaignStatisticsRepository_ApplyDelta e (tc_CampaignID input) undo_delta w7) else w7)"
      using steps 3 c a q by auto
    then show thesis using that(4) accepted 3 c a q by blast
  qed
qed

lemma CreateCall_tables:
  assumes "CreateCall e c w = (r, w')"
  shows "w_campaigns w' = w_campaigns w" "w_targets w' = w_targets w" "w_stats w' = w_stats w"
    "w_kafka w' = w_kafka w" "w_hours w' = w_hours w" "w_commits w' = w_commits w"
  using CreateCall_rest [OF assms rest_is_refl] by (simp_all add: rest_is_def)

lemma add_undo: "add_delta undo_delta (add_delta trigger_delta s) = s\<lparr>TotalCalls := TotalCalls s + 1\<rparr>"
  by (simp add: add_delta_def undo_delta_def trigger_delta_def zero_delta_def)

lemma TriggerCall_tables:
  assumes "TriggerCall e topic dc input w = (r, w')"
  shows "w_campaigns w' = w_campaigns w \<and> w_targets w' = w_targets w \<and> w_hours w' = w_hours w
    \<and> w_commits w' = w_commits w"
  using assms
proof (cases rule: TriggerCall_cases)
  case (unsaved err c u now w4)
  then show ?thesis
    using CreateCall_tables [OF unsaved(3)] same_store_fields [OF unsaved(2)] by simp
next
  case (uncounted err c u now w4 w5)
  then show ?thesis
    using CreateCall_tables [OF uncounted(3)] same_store_fields [OF uncounted(2)] ApplyDelta_stats(2-) [OF uncounted(4)]
    by simp
next
  case (sent campaign u now w1 w2 w4 w5 w6 w7 q)
  have "w_campaigns w7 = w_campaigns w \<and> w_targets w7 = w_targets w \<and> w_hours w7 = w_hours w
      \<and> w_commits w7 = w_commits w"
    using same_store_fields [OF sent(1)] CreateCall_tables [OF sent(4)] ApplyDelta_stats(2-) [OF sent(5)]
      dispatcher.publish_tables [OF sent(6)] by simp
  then show ?thesis
    using sent(7,8) ApplyDelta_stats(2-) [OF surjective_pairing, of e "tc_CampaignID input" undo_delta w7]
    by (cases q) (auto split: if_splits)
qed (simp add: same_store_fields)

lemma ApplyDelta_none_moved:
  "CampaignStatisticsRepository_ApplyDelta e i d w = (None, w') \<Longrightarrow> stats_moved (add_delta d) i w w'"
  using ApplyDelta_stats(1) by blast

lemma TriggerCall_stats:
  assumes "TriggerCall e topic dc input w = (r, w')"
  shows "w_stats w' = w_stats w \<and> (\<exists>err. r = Inl err)
    \<or> stats_moved (add_delta trigger_delta) (tc_CampaignID input) w w'
    \<or> stats_moved (\<lambda>s. s\<lparr>TotalCalls := TotalCalls s + 1\<rparr>) (tc_CampaignID input) w w' \<and> (\<exists>err. r = Inl err)"
  using assms
proof (cases rule: TriggerCall_cases)
  case (uncounted err c u now w4 w5)
  then have "w_stats w5 = w_stats w"
    using CreateCall_tables(3) [OF uncounted(3)] by (simp add: same_store_fields)
  then show ?thesis
    using ApplyDelta_stats(1) [OF uncounted(4)] uncounted(1) by (auto simp: stats_moved_def)
next
  case (sent campaign u now w1 w2 w4 w5 w6 w7 q)
  have "w_stats w5 = w_stats w"
    using CreateCall_tables(3) [OF sent(4)] sent(1) by (simp add: same_store_fields)
  then have m: "stats_moved (add_delta trigger_delta) (tc_CampaignID input) w w7"
    using ApplyDelta_none_moved [OF sent(5)] dispatcher.publish_tables(4) [OF sent(6)]
    by (simp add: stats_moved_def)
  show ?thesis
  proof (cases "q = None \<or> tc_CampaignID input = uuid_Nil")
    case True
    then show ?thesis using m sent(7,8) by (cases q) auto
  next
    case False
    obtain x w8 where x: "CampaignStatisticsRepository_ApplyDelta e (tc_CampaignID input) undo_delta w7 = (x, w8)" by force
    have "(\<exists>err. r = Inl err) \<and> w' = w8"
      using False sent(8) x by auto
    then show ?thesis
      using ApplyDelta_stats(1) [OF x] m
      by (auto simp: stats_moved_def option.map_comp comp_def add_undo)
  qed
next
  case (unsaved err c u now w4)
  then show ?thesis using CreateCall_tables(3) [OF unsaved(3)] by (simp add: same_store_fields)
qed (simp add: same_store_fields)

text \<open>A call that is reported as triggered.\<close>

lemma TriggerCall_dispatches:
  assumes "TriggerCall e topic dc input w = (Inr call, w')" "env_scans e"
  shows "\<exists>campaign t. campaign_at (tc_CampaignID input) w = Some campaign
     \<and> tc_PhoneNumber input \<in> phones_of (tc_CampaignID input) w
     \<and> w_kafka w' = w_kafka w @ [\<lparr>k_topic = topic, k_key = call_ID call,
          k_value = enc_dispatch (new_dispatch input campaign dc (call_ID call) (call_CreatedAt call)), k_time = t\<rparr>]
     \<and> stats_moved (add_delta trigger_delta) (tc_CampaignID input) w w'"
  using assms(1)
proof (cases rule: TriggerCall_cases)
  case (sent campaign u now w1 w2 w4 w5 w6 w7 q)
  then have q: "q = None" "call = new_call input u now" "w' = w7"
    by (cases q; auto)+
  have g: "campaign_at (tc_CampaignID input) w = Some campaign"
    using sent(2) by (rule Get_found)
  have "tc_PhoneNumber input \<in> phones_of (tc_CampaignID input) w"
    using validatePhone_None [OF sent(3) assms(2)] phones_of_same [OF Get_same [OF sent(2)]] by simp
  moreover have "w_kafka w6 = w_kafka w"
    using ApplyDelta_stats(4) [OF sent(5)] CreateCall_tables(4) [OF sent(4)] sent(1) by (simp add: same_store_fields)
  then have "w_kafka w' = w_kafka w @ [\<lparr>k_topic = topic, k_key = call_ID call,
      k_value = enc_dispatch (new_dispatch input campaign dc (call_ID call) (call_CreatedAt call)),
      k_time = utc (now_at e (now_n w6))\<rparr>]"
    using dispatcher.publish_kafka [OF sent(6)] q by (simp add: new_call_def new_dispatch_def Let_def)
  moreover have "w_stats w5 = w_stats w"
    using CreateCall_tables(3) [OF sent(4)] sent(1) by (simp add: same_store_fields)
  then have "stats_moved (add_delta trigger_delta) (tc_CampaignID input) w w'"
    using ApplyDelta_none_moved [OF sent(5)] dispatcher.publish_tables(4) [OF sent(6)] q
    by (simp add: stats_moved_def)
  ultimately show ?thesis using g by blast
qed (use assms in auto)

lemma validatePhone_ok:
  assumes "no_faults e" "env_scans e" "pg_wf w" "p \<in> phones_of i w" "int (card (targets_of i w)) \<le> 10000"
  shows "\<exists>w'. validatePhoneInCampaignTargets e i p w = (None, w')"
proof -
  obtain w1 where "fetch_rows e ''campaign targets: list: '' ''campaign targets: scan: ''
      ''campaign targets: rows err: '' (select_targets e i None 10000) w =
      (Inr (select_targets e i None 10000 w), w1)"
    using fetch_rows_ok [OF assms(1)] by blast
  then have l: "CampaignTargetRepository_ListByCampaign e i 10000 [] w =
      (Inr (map (toModel i) (select_targets e i None 10000 w)), w1)"
    by (simp add: CampaignTargetRepository_ListByCampaign_def)
  have "set (select_targets e i None 10000 w) = targets_of i w"
    using assms by (intro select_targets_all) (simp_all add: env_scans_def)
  then have "p \<in> ct_PhoneNumber ` set (map (toModel i) (select_targets e i None 10000 w))"
    using assms(4) by (simp add: phones_of_def image_image toModel_def)
  then show ?thesis
    using l by (auto simp: validatePhoneInCampaignTargets_def)
qed

lemma ApplyDelta_ok:
  assumes "no_faults e" "\<And>s. w_stats w i = Some s \<Longrightarrow> stats_in_range (add_delta d s)"
  shows "\<exists>w'. CampaignStatisticsRepository_ApplyDelta e i d w = (None, w')"
  using assms
  by (auto simp: CampaignStatisticsRepository_ApplyDelta_def run_stmt_ok update_stats_def split: option.splits)

lemma TriggerCall_ok:
  assumes e: "no_faults e" "env_scans e" and w: "pg_wf w" "campaign_at (tc_CampaignID input) w = Some campaign"
    and p: "tc_PhoneNumber input \<noteq> []" "tc_PhoneNumber input \<in> phones_of (tc_CampaignID input) w"
    and n: "int (card (targets_of (tc_CampaignID input) w)) \<le> 10000"
    and st: "\<And>s. w_stats w (tc_CampaignID input) = Some s \<Longrightarrow> stats_in_range (add_delta trigger_delta s)"
  shows "\<exists>call w'. TriggerCall e topic dc input w = (Inr call, w')"
proof -
  let ?i = "tc_CampaignID input" and ?w1 = "tick_io w"
  have g: "CampaignRepository_Get e ?i w = (Inr campaign, ?w1)"
    using e(1) w(2) by (simp add: Get_ok)
  have "pg_wf ?w1" "phones_of ?i ?w1 = phones_of ?i w" "targets_of ?i ?w1 = targets_of ?i w"
    using w(1) wf.keeps_tick by (simp_all add: phones_of_def targets_of_def)
  then obtain w2 where v: "validatePhoneInCampaignTargets e ?i (tc_PhoneNumber input) ?w1 = (None, w2)"
    using validatePhone_ok [OF e, of ?w1] p(2) n by metis
  obtain now w3 where nw: "Now e w2 = (now, w3)" by force
  obtain u w4 where u: "uuid_New e w3 = (u, w4)" by force
  have "fits_int (call_AttemptCount (new_call input u now))"
    by (simp add: new_call_def fits_int_def)
  then obtain w5 where c: "CreateCall e (new_call input u now) w4 = (None, w5)"
    using CreateCall_ok [OF e(1)] by blast
  have "w_stats w5 = w_stats w"
    using CreateCall_tables(3) [OF c] uuid_New_same [OF u] Now_same [OF nw] validatePhone_same [OF v]
    by (simp add: same_store_fields)
  then obtain w6 where a: "CampaignStatisticsRepository_ApplyDelta e ?i trigger_delta w5 = (None, w6)"
    using ApplyDelta_ok [OF e(1)] st by metis
  obtain w7 where d: "DispatchCall e topic (new_dispatch input campaign dc u now) w6 = (None, w7)"
    using dispatcher.publish_ok [OF e(1)] by (metis prod.collapse)
  show ?thesis
    using p(1) g v nw u c a d by (simp add: TriggerCall_def trigger_delta_def)
qed

definition sample_trigger :: TriggerCallInput where
  "sample_trigger = \<lparr>tc_CampaignID = 1, tc_PhoneNumber = ''+15550100'', tc_Metadata = None\<rparr>"

lemma sample_targets: "targets_of 1 sample_world = {sample_target}"
proof -
  have "tg_campaign_id sample_target = 1"
    by (simp add: sample_target_def)
  then show ?thesis
    by (auto simp: targets_of_def sample_world_def)
qed

lemma sample_trigger_facts:
  "campaign_at (tc_CampaignID sample_trigger) sample_world = Some (toDomain sample_row)"
  "tc_PhoneNumber sample_trigger \<noteq> []"
  "tc_PhoneNumber sample_trigger \<in> phones_of (tc_CampaignID sample_trigger) sample_world"
  "int (card (targets_of (tc_CampaignID sample_trigger) sample_world)) \<le> 10000"
  "w_stats sample_world (tc_CampaignID sample_trigger) = Some s \<Longrightarrow> stats_in_range (add_delta trigger_delta s)"
proof -
  have i: "tc_CampaignID sample_trigger = 1" by (simp add: sample_trigger_def)
  show "campaign_at (tc_CampaignID sample_trigger) sample_world = Some (toDomain sample_row)"
    by (simp add: i campaign_at_def find_campaign_def sample_world_def sample_row_def)
  show "tc_PhoneNumber sample_trigger \<noteq> []"
    by (simp add: sample_trigger_def)
  show "tc_PhoneNumber sample_trigger \<in> phones_of (tc_CampaignID sample_trigger) sample_world"
    unfolding i phones_of_def sample_targets by (simp add: sample_trigger_def sample_target_def)
  show "int (card (targets_of (tc_CampaignID sample_trigger) sample_world)) \<le> 10000"
    unfolding i sample_targets by simp
  show "w_stats sample_world (tc_CampaignID sample_trigger) = Some s \<Longrightarrow> stats_in_range (add_delta trigger_delta s)"
    by (auto simp: i sample_world_def zero_stats_def add_delta_def trigger_delta_def zero_delta_def
        stats_in_range_def int64_def)
qed

subsection \<open>Properties\<close>


text \<open>Whatever fails, triggering a call changes the counters of its campaign in one of three ways: not
  at all, total and pending up by one, or, when the dispatch failed and was compensated, the total
  alone up by one, which no later step takes back.\<close>

theorem trigger_accounting:
  "case TriggerCall e topic dc input w of (r, w') \<Rightarrow>
     w_stats w' = w_stats w \<and> (\<exists>err. r = Inl err)
     \<or> stats_moved (add_delta trigger_delta) (tc_CampaignID input) w w'
     \<or> stats_moved (\<lambda>s. s\<lparr>TotalCalls := TotalCalls s + 1\<rparr>) (tc_CampaignID input) w w' \<and> (\<exists>err. r = Inl err)"
  using TriggerCall_stats by (auto split: prod.splits)

text \<open>C25: A paging state and the absence of one survive the token that the API hands out.\<close>

theorem paging_token_roundtrip: "DecodePagingState (EncodePagingState state) = Inr state"
proof (cases "state = []")
  case False
  then have "EncodeBase64 state \<noteq> []"
    by (cases state rule: encode_triples.cases) (auto simp: EncodeBase64_def)
  then show ?thesis
    using False base64_inverse by (simp add: EncodePagingState_def DecodePagingState_def)
qed (simp add: EncodePagingState_def DecodePagingState_def)




end
