(* ===== verification/Business_Hours.thy ===== *)
theory Business_Hours
  imports Domain
begin

text \<open>
  The business-hour decision of the scheduler (\<open>isWithinBusinessHours\<close> of
  \<open>internal/scheduler/scheduler.go\<close>) and its specification as circular intervals over the
  10080 minutes of the week.
\<close>

fun window_loop :: "int \<Rightarrow> int \<Rightarrow> BusinessHourWindow list \<Rightarrow> bool" where
  "window_loop weekday minuteOfDay [] = False"
| "window_loop weekday minuteOfDay (window # rest) =
     (let start = Hour (Start window) * 60 + Minute (Start window);
          end_m = Hour (End window) * 60 + Minute (End window)
      in if end_m \<le> start
         then (let nextDay = go_mod (wrap64 (DayOfWeek window + 1)) 7
               in if DayOfWeek window = weekday \<and> start \<le> minuteOfDay then True
                  else if nextDay = weekday \<and> minuteOfDay < end_m then True
                  else window_loop weekday minuteOfDay rest)
         else if DayOfWeek window \<noteq> weekday then window_loop weekday minuteOfDay rest
         else if start \<le> minuteOfDay \<and> minuteOfDay < end_m then True
         else window_loop weekday minuteOfDay rest)"

definition isWithinBusinessHours ::
    "(string \<Rightarrow> go_error + location) \<Rightarrow> go_time \<Rightarrow> Campaign \<Rightarrow> bool" where
  "isWithinBusinessHours load_location nowUTC campaign =
     (if c_BusinessHours campaign = [] then True
      else (case load_location (c_TimeZone campaign) of
              Inl err \<Rightarrow> True
            | Inr loc \<Rightarrow>
                let here = In_loc loc nowUTC;
                    minuteOfDay = Hour here * 60 + Minute here;
                    weekday = Weekday here
                in window_loop weekday minuteOfDay (c_BusinessHours campaign)))"

subsection \<open>Specification: intervals on the circle of the week\<close>

definition valid_window :: "BusinessHourWindow \<Rightarrow> bool" where
  "valid_window w \<longleftrightarrow> 0 \<le> DayOfWeek w \<and> DayOfWeek w < 7"

definition week_minute :: "go_time \<Rightarrow> int" where
  "week_minute t = Weekday t * 1440 + minute_of_day t"

definition opens_at :: "BusinessHourWindow \<Rightarrow> int" where
  "opens_at w = DayOfWeek w * 1440 + minute_of_day (Start w)"

text \<open>The length of a window: to the closing minute of the same day, or, when that is not
  after the opens_at minute, to the closing minute of the next day.\<close>

definition window_length :: "BusinessHourWindow \<Rightarrow> int" where
  "window_length w =
     (if minute_of_day (Start w) < minute_of_day (End w)
      then minute_of_day (End w) - minute_of_day (Start w)
      else 1440 - minute_of_day (Start w) + minute_of_day (End w))"

definition open_at :: "BusinessHourWindow \<Rightarrow> go_time \<Rightarrow> bool" where
  "open_at w t \<longleftrightarrow> (week_minute t - opens_at w) mod 10080 < window_length w"

lemma window_length_bounds: "0 < window_length w" "window_length w \<le> 1440"
  using minute_of_day_bounds [of "Start w"] minute_of_day_bounds [of "End w"]
  by (auto simp: window_length_def)

text \<open>The circular distance between two minutes of the week, day by day.\<close>

lemma week_distance:
  fixes d e :: int
  assumes "0 \<le> d" "d < 7" "0 \<le> e" "e < 7" "0 \<le> m" "m < 1440" "0 \<le> s" "s < 1440"
  shows "((e * 1440 + m) - (d * 1440 + s)) mod 10080 =
     (let x = (e * 1440 + m) - (d * 1440 + s) in if 0 \<le> x then x else x + 10080)"
proof (cases "0 \<le> (e * 1440 + m) - (d * 1440 + s)")
  case True
  with assms show ?thesis by (simp add: Let_def mod_pos_pos_trivial)
next
  case False
  let ?x = "(e * 1440 + m) - (d * 1440 + s)"
  have "?x mod 10080 = (?x + 10080) mod 10080" by simp
  also have "\<dots> = ?x + 10080"
    using assms False by (intro mod_pos_pos_trivial) linarith+
  finally show ?thesis using False by (simp add: Let_def)
qed

lemma circle_window:
  fixes d e m s c :: int
  assumes "0 \<le> d" "d < 7" "0 \<le> e" "e < 7" "0 \<le> m" "m < 1440" "0 \<le> s" "s < 1440" "0 \<le> c" "c < 1440"
  defines "x \<equiv> e * 1440 + m - (d * 1440 + s)"
  shows "(if 0 \<le> x then x else x + 10080) < (if s < c then c - s else 1440 - s + c) \<longleftrightarrow>
     (if c \<le> s
      then d = e \<and> s \<le> m \<or> (if d = 6 then 0 else d + 1) = e \<and> m < c
      else d = e \<and> s \<le> m \<and> m < c)"
proof -
  consider "e = d" | "e = d + 1" | "d + 2 \<le> e" | "d = 6" "e = 0" | "e < d" "d < e + 6"
    using assms by linarith
  then show ?thesis
    using assms by cases auto
qed

lemma next_day: "0 \<le> d \<Longrightarrow> d < 7 \<Longrightarrow> go_mod (wrap64 (d + 1)) 7 = (if d = 6 then 0 else d + 1)"
  by (simp add: int64_def)

lemma window_step:
  assumes "valid_window w"
  shows "window_loop (Weekday t) (minute_of_day t) (w # ws) \<longleftrightarrow>
         open_at w t \<or> window_loop (Weekday t) (minute_of_day t) ws"
proof -
  note b = minute_of_day_bounds [of t] minute_of_day_bounds [of "Start w"]
    minute_of_day_bounds [of "End w"] Weekday_bounds [of t]
  have d: "0 \<le> DayOfWeek w" "DayOfWeek w < 7"
    using assms by (simp_all add: valid_window_def)
  have "open_at w t \<longleftrightarrow>
     (let x = Weekday t * 1440 + minute_of_day t - (DayOfWeek w * 1440 + minute_of_day (Start w))
      in (if 0 \<le> x then x else x + 10080) < window_length w)"
    using b d by (simp only: open_at_def week_minute_def opens_at_def Let_def week_distance)
  also have "\<dots> \<longleftrightarrow>
     (if minute_of_day (End w) \<le> minute_of_day (Start w)
      then DayOfWeek w = Weekday t \<and> minute_of_day (Start w) \<le> minute_of_day t
        \<or> (if DayOfWeek w = 6 then 0 else DayOfWeek w + 1) = Weekday t
           \<and> minute_of_day t < minute_of_day (End w)
      else DayOfWeek w = Weekday t \<and> minute_of_day (Start w) \<le> minute_of_day t
           \<and> minute_of_day t < minute_of_day (End w))"
    unfolding Let_def window_length_def using b d by (intro circle_window) simp_all
  finally show ?thesis
    using d by (auto simp: Let_def next_day simp flip: minute_of_day_def)
qed

lemma window_loop_open:
  assumes "\<forall>w \<in> set ws. valid_window w"
  shows "window_loop (Weekday t) (minute_of_day t) ws \<longleftrightarrow> (\<exists>w \<in> set ws. open_at w t)"
  using assms
proof (induction ws)
  case Nil
  then show ?case by simp
next
  case (Cons w ws)
  then have "valid_window w" and "\<forall>w \<in> set ws. valid_window w"
    by simp_all
  with Cons.IH show ?case
    by (simp only: window_step) auto
qed

subsection \<open>Properties\<close>

text \<open>C26: The scheduler's business-hour test is right: for a campaign with windows on valid days and a
  known time zone, the test holds exactly when the local minute of the week lies in one of the
  circular intervals of the windows, those past midnight and past the end of the week included.\<close>

theorem business_hours_circle:
  assumes "load_location (c_TimeZone c) = Inr loc" "c_BusinessHours c \<noteq> []"
    and "\<forall>w \<in> set (c_BusinessHours c). valid_window w"
  shows "isWithinBusinessHours load_location t c \<longleftrightarrow>
     (\<exists>w \<in> set (c_BusinessHours c). open_at w (In_loc loc t))"
  using window_loop_open [OF assms(3)] assms(1,2)
  by (simp add: isWithinBusinessHours_def Let_def flip: minute_of_day_def)

definition saturday_night :: Campaign where
  "saturday_night = \<lparr>c_ID = 1, c_Name = ''night'', c_Description = [], c_TimeZone = ''UTC'',
     c_BusinessHours = [\<lparr>DayOfWeek = 6, Start = utc (22 * 3600 * Second), End = utc (2 * 3600 * Second)\<rparr>],
     c_MaxConcurrentCalls = 1, c_RetryPolicy = \<lparr>MaxAttempts = 1, BaseDelay = 1, MaxDelay = 1, Jitter = 0\<rparr>,
     c_Status = CampaignStatusInProgress, c_CreatedAt = utc 0, c_UpdatedAt = utc 0,
     c_StartedAt = None, c_CompletedAt = None\<rparr>"

text \<open>1970-01-04 was a Sunday: at 01:30 the window of Saturday night is open.\<close>

theorem business_hours_circle_witness:
  "isWithinBusinessHours (\<lambda>_. Inr (\<lambda>_. 0)) (utc ((3 * 86400 + 5400) * Second)) saturday_night"
proof -
  have "\<exists>w \<in> set (c_BusinessHours saturday_night). open_at w (In_loc (\<lambda>_. 0) (utc ((3 * 86400 + 5400) * Second)))"
    by code_simp
  moreover have "\<forall>w \<in> set (c_BusinessHours saturday_night). valid_window w"
    by code_simp
  moreover have "c_BusinessHours saturday_night \<noteq> []"
    by (simp add: saturday_night_def)
  ultimately show ?thesis
    using business_hours_circle [of "\<lambda>_. Inr (\<lambda>_. 0)" saturday_night "\<lambda>_. 0"] by simp
qed

end
