(* ===== verification/Campaign_Service.thy ===== *)
theory Campaign_Service
  imports Postgres_Laws Business_Hours
begin

text \<open>
  The campaign service (\<open>internal/service/campaign/service.go\<close>): validation and
  normalisation of the input, and the operations on campaigns, each with every request it makes
  and every early return. A method takes the environment, the service's default concurrency where
  it is used, and the world; it returns its result (or error) and the new world.
\<close>

record BusinessHourInput =
  in_DayOfWeek :: int
  in_Start :: go_time
  in_End :: go_time

record TargetInput =
  ti_PhoneNumber :: string
  ti_Payload :: metadata

record CreateCampaignInput =
  ci_Name :: string
  ci_Description :: string
  ci_TimeZone :: string
  ci_MaxConcurrentCalls :: int
  ci_RetryPolicy :: RetryPolicy
  ci_BusinessHours :: "BusinessHourInput list"
  ci_Targets :: "TargetInput list"

record UpdateCampaignInput =
  ui_ID :: uuid
  ui_Name :: "string option"
  ui_Description :: "string option"
  ui_MaxConcurrentCalls :: "int option"
  ui_RetryPolicy :: "RetryPolicy option"
  ui_BusinessHours :: "BusinessHourInput list option"

subsection \<open>Helpers\<close>

definition resolveConcurrency :: "int \<Rightarrow> int \<Rightarrow> int" where
  "resolveConcurrency defaultConcurrency v = (if v \<le> 0 then defaultConcurrency else v)"

definition normalizeRetry :: "RetryPolicy \<Rightarrow> RetryPolicy" where
  "normalizeRetry policy0 =
     (let policy1 = (if BaseDelay policy0 \<le> 0 then policy0\<lparr>BaseDelay := 2 * Second\<rparr> else policy0);
          policy2 = (if MaxDelay policy1 \<le> 0 then policy1\<lparr>MaxDelay := 2 * Minute_d\<rparr> else policy1);
          policy3 = (if MaxDelay policy2 < BaseDelay policy2
                     then policy2\<lparr>MaxDelay := BaseDelay policy2\<rparr> else policy2);
          policy4 = (if MaxAttempts policy3 \<le> 0 then policy3\<lparr>MaxAttempts := 5\<rparr> else policy3)
      in policy4)"

definition toDomainBusinessHours :: "BusinessHourInput list \<Rightarrow> BusinessHourWindow list" where
  "toDomainBusinessHours inputs =
     map (\<lambda>i. \<lparr>DayOfWeek = in_DayOfWeek i, Start = in_Start i, End = in_End i\<rparr>) inputs"

fun validate_hours :: "BusinessHourInput list \<Rightarrow> go_error option" where
  "validate_hours [] = None"
| "validate_hours (bh # rest) =
     (let startMinutes = Hour (in_Start bh) * 60 + Minute (in_Start bh);
          endMinutes = Hour (in_End bh) * 60 + Minute (in_End bh)
      in if startMinutes = endMinutes
         then Some (Errorf [] (Sentinel ErrValidation)
                '': business hour window must have positive duration'')
         else validate_hours rest)"

definition validateCreateInput ::
    "(string \<Rightarrow> go_error + location) \<Rightarrow> CreateCampaignInput \<Rightarrow> go_error option" where
  "validateCreateInput load_location input =
     (if ci_Name input = [] then
        Some (Errorf [] (Sentinel ErrValidation) '': campaign name is required'')
      else if ci_TimeZone input = [] then
        Some (Errorf [] (Sentinel ErrValidation) '': time zone is required'')
      else (case load_location (ci_TimeZone input) of
              Inl err \<Rightarrow> Some (Errorf [] (Sentinel ErrValidation)
                   ('': invalid time zone '' @ ci_TimeZone input @ '': '' @ Error err))
            | Inr _ \<Rightarrow> validate_hours (ci_BusinessHours input)))"

text \<open>The records of the targets: a fresh uuid each, state pending.\<close>

fun make_records ::
    "env \<Rightarrow> uuid \<Rightarrow> go_time \<Rightarrow> TargetInput list \<Rightarrow> world \<Rightarrow> CampaignTargetRecord list \<times> world" where
  "make_records e i now [] w = ([], w)"
| "make_records e i now (t # ts) w =
     (case uuid_New e w of (u, w1) \<Rightarrow>
        (case make_records e i now ts w1 of (rs, w2) \<Rightarrow>
           (\<lparr>ct_ID = u, ct_CampaignID = i, ct_PhoneNumber = ti_PhoneNumber t,
              ct_Payload = ti_Payload t, ct_State = ''pending'', ct_ScheduledAt = None,
              ct_LastAttempt = None, ct_AttemptCount = 0, ct_CreatedAt = now\<rparr> # rs, w2)))"

subsection \<open>Operations\<close>

text \<open>The campaign literal of \<open>Create\<close>.\<close>

definition new_campaign :: "int \<Rightarrow> CreateCampaignInput \<Rightarrow> uuid \<Rightarrow> go_time \<Rightarrow> Campaign" where
  "new_campaign defaultConcurrency input u now =
     \<lparr>c_ID = u, c_Name = ci_Name input, c_Description = ci_Description input,
      c_TimeZone = ci_TimeZone input, c_BusinessHours = [],
      c_MaxConcurrentCalls = resolveConcurrency defaultConcurrency (ci_MaxConcurrentCalls input),
      c_RetryPolicy = normalizeRetry (ci_RetryPolicy input),
      c_Status = CampaignStatusPending, c_CreatedAt = now, c_UpdatedAt = now,
      c_StartedAt = None, c_CompletedAt = None\<rparr>"

definition campaign_Create ::
    "env \<Rightarrow> (string \<Rightarrow> go_error + location) \<Rightarrow> int \<Rightarrow> CreateCampaignInput \<Rightarrow> world
      \<Rightarrow> (go_error + Campaign) \<times> world" where
  "campaign_Create e load_location defaultConcurrency input w =
     (case validateCreateInput load_location input of
        Some err \<Rightarrow> (Inl err, w)
      | None \<Rightarrow>
          (case Now e w of (now, w1) \<Rightarrow>
          (case uuid_New e w1 of (u, w2) \<Rightarrow>
             (let campaign = new_campaign defaultConcurrency input u now
              in case CampaignRepository_Create e campaign w2 of
                   (Some err, w3) \<Rightarrow> (Inl (Errorf ''campaign service: create campaign: '' err []), w3)
                 | (None, w3) \<Rightarrow>
              (case BusinessHourRepository_Replace e u (toDomainBusinessHours (ci_BusinessHours input)) w3 of
                   (Some err, w4) \<Rightarrow> (Inl (Errorf ''campaign service: store business hours: '' err []), w4)
                 | (None, w4) \<Rightarrow>
              (case CampaignStatisticsRepository_Ensure e u w4 of
                   (Some err, w5) \<Rightarrow> (Inl (Errorf ''campaign service: ensure stats: '' err []), w5)
                 | (None, w5) \<Rightarrow>
              (if ci_Targets input \<noteq> [] then
                 (case make_records e u now (ci_Targets input) w5 of (records, w6) \<Rightarrow>
                    (case CampaignTargetRepository_BulkInsert e u records w6 of
                       (Some err, w7) \<Rightarrow> (Inl (Errorf ''campaign service: store targets: '' err []), w7)
                     | (None, w7) \<Rightarrow> (Inr campaign, w7)))
               else (Inr campaign, w5))))))))"

definition campaign_Get :: "env \<Rightarrow> uuid \<Rightarrow> world \<Rightarrow> (go_error + Campaign) \<times> world" where
  "campaign_Get e i w =
     (case CampaignRepository_Get e i w of
        (Inl err, w1) \<Rightarrow> (Inl err, w1)
      | (Inr campaign, w1) \<Rightarrow>
          (case BusinessHourRepository_List e i w1 of
             (Inl err, w2) \<Rightarrow> (Inl (Errorf ''campaign service: list business hours: '' err []), w2)
           | (Inr windows, w2) \<Rightarrow> (Inr (campaign\<lparr>c_BusinessHours := windows\<rparr>), w2)))"

definition campaign_List ::
    "env \<Rightarrow> uuid option \<Rightarrow> int \<Rightarrow> world \<Rightarrow> (go_error + Campaign list) \<times> world" where
  "campaign_List e afterID limit w = CampaignRepository_List e afterID limit w"

fun populate_hours :: "env \<Rightarrow> Campaign list \<Rightarrow> world \<Rightarrow> (go_error + Campaign list) \<times> world" where
  "populate_hours e [] w = (Inr [], w)"
| "populate_hours e (c # cs) w =
     (case BusinessHourRepository_List e (c_ID c) w of
        (Inl err, w1) \<Rightarrow> (Inl (Errorf ''campaign service: list business hours: '' err []), w1)
      | (Inr windows, w1) \<Rightarrow>
          (case populate_hours e cs w1 of
             (Inl err, w2) \<Rightarrow> (Inl err, w2)
           | (Inr cs', w2) \<Rightarrow> (Inr (c\<lparr>c_BusinessHours := windows\<rparr> # cs'), w2)))"

definition campaign_ListByStatus ::
    "env \<Rightarrow> campaign_status \<Rightarrow> int \<Rightarrow> world \<Rightarrow> (go_error + Campaign list) \<times> world" where
  "campaign_ListByStatus e status limit w =
     (case CampaignRepository_ListByStatus e status limit w of
        (Inl err, w1) \<Rightarrow> (Inl err, w1)
      | (Inr campaigns, w1) \<Rightarrow> populate_hours e campaigns w1)"

definition apply_update :: "int \<Rightarrow> UpdateCampaignInput \<Rightarrow> Campaign \<Rightarrow> Campaign" where
  "apply_update defaultConcurrency input c0 =
     (let c1 = (case ui_Name input of None \<Rightarrow> c0 | Some n \<Rightarrow> c0\<lparr>c_Name := n\<rparr>);
          c2 = (case ui_Description input of None \<Rightarrow> c1 | Some d \<Rightarrow> c1\<lparr>c_Description := d\<rparr>);
          c3 = (case ui_MaxConcurrentCalls input of None \<Rightarrow> c2
                | Some m \<Rightarrow> c2\<lparr>c_MaxConcurrentCalls := resolveConcurrency defaultConcurrency m\<rparr>);
          c4 = (case ui_RetryPolicy input of None \<Rightarrow> c3
                | Some p \<Rightarrow> c3\<lparr>c_RetryPolicy := normalizeRetry p\<rparr>)
      in c4)"

definition campaign_Update ::
    "env \<Rightarrow> int \<Rightarrow> UpdateCampaignInput \<Rightarrow> world \<Rightarrow> (go_error + Campaign) \<times> world" where
  "campaign_Update e defaultConcurrency input w =
     (case CampaignRepository_Get e (ui_ID input) w of
        (Inl err, w1) \<Rightarrow> (Inl err, w1)
      | (Inr campaign0, w1) \<Rightarrow>
          (case Now e w1 of (now, w2) \<Rightarrow>
             (let campaign = (apply_update defaultConcurrency input campaign0)\<lparr>c_UpdatedAt := now\<rparr>
              in case CampaignRepository_Update e campaign w2 of
                   (Some err, w3) \<Rightarrow> (Inl err, w3)
                 | (None, w3) \<Rightarrow>
                     (case ui_BusinessHours input of
                        None \<Rightarrow> (Inr campaign, w3)
                      | Some hours \<Rightarrow>
                          (case BusinessHourRepository_Replace e (c_ID campaign)
                                  (toDomainBusinessHours hours) w3 of
                             (Some err, w4) \<Rightarrow>
                               (Inl (Errorf ''campaign service: update business hours: '' err []), w4)
                           | (None, w4) \<Rightarrow> (Inr campaign, w4))))))"

definition campaign_Start :: "env \<Rightarrow> uuid \<Rightarrow> world \<Rightarrow> go_error option \<times> world" where
  "campaign_Start e i w =
     (case CampaignRepository_Get e i w of
        (Inl err, w1) \<Rightarrow> (Some err, w1)
      | (Inr campaign, w1) \<Rightarrow>
          if c_Status campaign = CampaignStatusInProgress then (None, w1)
          else if c_Status campaign = CampaignStatusCompleted then
            (Some (New ''campaign service: cannot start completed campaign''), w1)
          else (case Now e w1 of (now, w2) \<Rightarrow>
                  CampaignRepository_Update e
                    (campaign\<lparr>c_Status := CampaignStatusInProgress, c_StartedAt := Some now\<rparr>) w2))"

definition campaign_Pause :: "env \<Rightarrow> uuid \<Rightarrow> world \<Rightarrow> go_error option \<times> world" where
  "campaign_Pause e i w =
     (case CampaignRepository_Get e i w of
        (Inl err, w1) \<Rightarrow> (Some err, w1)
      | (Inr campaign, w1) \<Rightarrow>
          CampaignRepository_Update e (campaign\<lparr>c_Status := CampaignStatusPaused\<rparr>) w1)"

definition campaign_Complete :: "env \<Rightarrow> uuid \<Rightarrow> world \<Rightarrow> go_error option \<times> world" where
  "campaign_Complete e i w =
     (case CampaignRepository_Get e i w of
        (Inl err, w1) \<Rightarrow> (Some err, w1)
      | (Inr campaign, w1) \<Rightarrow>
          (case Now e w1 of (now, w2) \<Rightarrow>
             CampaignRepository_Update e
               (campaign\<lparr>c_Status := CampaignStatusCompleted, c_CompletedAt := Some now\<rparr>) w2))"

definition campaign_Stats :: "env \<Rightarrow> uuid \<Rightarrow> world \<Rightarrow> (go_error + CampaignStats) \<times> world" where
  "campaign_Stats e i w = CampaignStatisticsRepository_Get e i w"

fun check_phones :: "(string \<Rightarrow> bool) \<Rightarrow> TargetInput list \<Rightarrow> go_error option" where
  "check_phones allowedPhones [] = None"
| "check_phones allowedPhones (t # ts) =
     (if \<not> allowedPhones (ti_PhoneNumber t)
      then Some (Errorf [] (Sentinel ErrValidation)
             ('': phone number '' @ ti_PhoneNumber t
              @ '' is not part of this campaign's registered target list''))
      else check_phones allowedPhones ts)"

definition campaign_AddTargets ::
    "env \<Rightarrow> uuid \<Rightarrow> TargetInput list \<Rightarrow> world \<Rightarrow> go_error option \<times> world" where
  "campaign_AddTargets e i targets w =
     (if targets = [] then (None, w)
      else (case CampaignTargetRepository_ListByCampaign e i 10000 [] w of
              (Inl err, w1) \<Rightarrow> (Some (Errorf ''campaign service: get existing targets: '' err []), w1)
            | (Inr existingTargets, w1) \<Rightarrow>
                if existingTargets = [] then
                  (Some (Errorf [] (Sentinel ErrValidation)
                     '': cannot add targets to a campaign that has no registered target list''), w1)
                else
                  (case check_phones (\<lambda>p. p \<in> ct_PhoneNumber ` set existingTargets) targets of
                     Some err \<Rightarrow> (Some err, w1)
                   | None \<Rightarrow>
                       (case Now e w1 of (now, w2) \<Rightarrow>
                       (case make_records e i now targets w2 of (records, w3) \<Rightarrow>
                          (case CampaignTargetRepository_BulkInsert e i records w3 of
                             (Some err, w4) \<Rightarrow>
                               (Some (Errorf ''campaign service: add targets: '' err []), w4)
                           | (None, w4) \<Rightarrow> (None, w4)))))))"

end
