(* ===== verification/Campaign_Laws.thy ===== *)
theory Campaign_Laws
  imports Campaign_Service Samples
begin

text \<open>
  What the campaign service guarantees: every operation keeps the PostgreSQL tables well formed
  and moves a campaign only along its life cycle, whatever requests fail; what a successful
  creation has stored; that only registered phone numbers can be added; and the flaws of the
  service that the model exposes.
\<close>

subsection \<open>Every operation keeps the tables well formed\<close>

datatype campaign_op =
    OpCreate CreateCampaignInput
  | OpGet uuid
  | OpList "uuid option" int
  | OpListByStatus campaign_status int
  | OpUpdate UpdateCampaignInput
  | OpStart uuid
  | OpPause uuid
  | OpComplete uuid
  | OpStats uuid
  | OpAddTargets uuid "TargetInput list"

fun campaign_run ::
    "env \<Rightarrow> (string \<Rightarrow> go_error + location) \<Rightarrow> int \<Rightarrow> campaign_op \<Rightarrow> world \<Rightarrow> world" where
  "campaign_run e loc d (OpCreate input) w = snd (campaign_Create e loc d input w)"
| "campaign_run e loc d (OpGet i) w = snd (campaign_Get e i w)"
| "campaign_run e loc d (OpList a n) w = snd (campaign_List e a n w)"
| "campaign_run e loc d (OpListByStatus s n) w = snd (campaign_ListByStatus e s n w)"
| "campaign_run e loc d (OpUpdate input) w = snd (campaign_Update e d input w)"
| "campaign_run e loc d (OpStart i) w = snd (campaign_Start e i w)"
| "campaign_run e loc d (OpPause i) w = snd (campaign_Pause e i w)"
| "campaign_run e loc d (OpComplete i) w = snd (campaign_Complete e i w)"
| "campaign_run e loc d (OpStats i) w = snd (campaign_Stats e i w)"
| "campaign_run e loc d (OpAddTargets i ts) w = snd (campaign_AddTargets e i ts w)"

lemma make_records_same: "make_records e i now ts w = (rs, w') \<Longrightarrow> same_store w w'"
  by (induction ts arbitrary: w rs)
    (auto split: prod.splits dest: uuid_New_same intro: same_store_trans)

lemma make_records_phones:
  "make_records e i now ts w = (rs, w') \<Longrightarrow> map ct_PhoneNumber rs = map ti_PhoneNumber ts"
  by (induction ts arbitrary: w rs) (auto split: prod.splits)

lemma stats_Get_same: "CampaignStatisticsRepository_Get e i w = (r, w') \<Longrightarrow> same_store w w'"
  by (auto simp: CampaignStatisticsRepository_Get_def
      split: prod.splits sum.splits option.splits dest: query_same)

lemma List_same: "CampaignRepository_List e a n w = (r, w') \<Longrightarrow> same_store w w'"
  by (auto simp: CampaignRepository_List_def Let_def split: prod.splits sum.splits dest: fetch_rows_same)

lemma ListByStatus_same: "CampaignRepository_ListByStatus e s n w = (r, w') \<Longrightarrow> same_store w w'"
  by (auto simp: CampaignRepository_ListByStatus_def Let_def
      split: prod.splits sum.splits dest: fetch_rows_same)

lemma populate_hours_same: "populate_hours e cs w = (r, w') \<Longrightarrow> same_store w w'"
  by (induction cs arbitrary: w r)
    (auto split: prod.splits sum.splits dest: List_hours_same intro: same_store_trans)

lemma service_reads_same:
  "same_store w (snd (campaign_Get e i w))"
  "same_store w (snd (campaign_List e a n w))"
  "same_store w (snd (campaign_ListByStatus e s n w))"
  "same_store w (snd (campaign_Stats e i w))"
  by (auto simp: campaign_Get_def campaign_List_def campaign_ListByStatus_def campaign_Stats_def
      split: prod.splits sum.splits
      dest!: Get_same List_hours_same ListByStatus_same populate_hours_same
      intro: List_same stats_Get_same same_store_trans surjective_pairing
        same_store_trans [OF _ populate_hours_same [OF surjective_pairing]])

lemmas same_steps = Get_same Now_same uuid_New_same make_records_same List_hours_same ListByCampaign_same

lemmas wf_same = wf.I_same [OF Get_same] wf.I_same [OF Now_same] wf.I_same [OF uuid_New_same]
  wf.I_same [OF make_records_same] wf.I_same [OF ListByCampaign_same]

lemma Create_service_wf: "campaign_Create e loc d input w = (r, w') \<Longrightarrow> pg_wf w \<Longrightarrow> pg_wf w'"
  by (auto simp: campaign_Create_def Let_def split: prod.splits option.splits if_splits
      dest!: wf_same Create_wf Replace_wf Ensure_wf BulkInsert_wf)

lemma AddTargets_wf: "campaign_AddTargets e i ts w = (r, w') \<Longrightarrow> pg_wf w \<Longrightarrow> pg_wf w'"
  by (auto simp: campaign_AddTargets_def Let_def
      split: prod.splits sum.splits option.splits if_splits
      dest!: wf_same BulkInsert_wf)

lemma Update_service_wf: "campaign_Update e d input w = (r, w') \<Longrightarrow> pg_wf w \<Longrightarrow> pg_wf w'"
  by (auto simp: campaign_Update_def Let_def split: prod.splits sum.splits option.splits
      dest!: wf_same Update_wf Replace_wf)

lemma lifecycle_wf:
  "campaign_Start e i w = (r, w') \<Longrightarrow> pg_wf w \<Longrightarrow> pg_wf w'"
  "campaign_Pause e i w = (r, w') \<Longrightarrow> pg_wf w \<Longrightarrow> pg_wf w'"
  "campaign_Complete e i w = (r, w') \<Longrightarrow> pg_wf w \<Longrightarrow> pg_wf w'"
  by (auto simp: campaign_Start_def campaign_Pause_def campaign_Complete_def
      split: prod.splits sum.splits if_splits dest!: wf_same Update_wf)

lemma campaign_run_wf: "pg_wf w \<Longrightarrow> pg_wf (campaign_run e loc d op w)"
  by (cases op)
    (auto intro: wf.I_same [OF service_reads_same(1)] wf.I_same [OF service_reads_same(2)]
      wf.I_same [OF service_reads_same(3)] wf.I_same [OF service_reads_same(4)]
      Create_service_wf [OF surjective_pairing] Update_service_wf [OF surjective_pairing]
      AddTargets_wf [OF surjective_pairing] lifecycle_wf [OF surjective_pairing])

subsection \<open>The life cycle of a campaign\<close>

definition status_at :: "uuid \<Rightarrow> world \<Rightarrow> campaign_status option" where
  "status_at i w = map_option c_Status (campaign_at i w)"

lemma status_at_same: "same_store w w' \<Longrightarrow> status_at i w' = status_at i w"
  by (simp add: status_at_def campaign_at_same)

text \<open>The moves of the specification: a stored campaign may be started unless it is completed,
  paused at any time, completed at any time.\<close>

inductive lifecycle :: "campaign_op \<Rightarrow> uuid \<Rightarrow> campaign_status option \<Rightarrow> campaign_status option \<Rightarrow> bool" where
  stay: "lifecycle op i s s"
| created: "lifecycle (OpCreate input) i None (Some CampaignStatusPending)"
| started: "s \<noteq> CampaignStatusCompleted \<Longrightarrow> lifecycle (OpStart i) i (Some s) (Some CampaignStatusInProgress)"
| paused: "lifecycle (OpPause i) i (Some s) (Some CampaignStatusPaused)"
| completed: "lifecycle (OpComplete i) i (Some s) (Some CampaignStatusCompleted)"

inductive_cases lifecycle_from_completed: "lifecycle op i (Some CampaignStatusCompleted) s'"
inductive_cases lifecycle_from_none: "lifecycle op i None s'"

lemma read_write_status:
  assumes "CampaignRepository_Get e i w = (Inr c, w1)" "same_store w1 w2"
    and "c_ID c' = c_ID c" "CampaignRepository_Update e c' w2 = (err, w')"
  shows "status_at j w' = status_at j w \<or> j = i \<and> status_at i w = Some (c_Status c)
     \<and> status_at j w' = Some (c_Status c')"
proof -
  have c: "campaign_at i w = Some c"
    using assms(1) by (rule Get_found)
  show ?thesis
    using campaigns.read_write [OF assms] c by (cases "j = i") (auto simp: status_at_def)
qed

lemma Start_lifecycle: "lifecycle (OpStart i) j (status_at j w) (status_at j (snd (campaign_Start e i w)))"
proof -
  obtain g w1 where g: "CampaignRepository_Get e i w = (g, w1)" by force
  then have s: "status_at j w1 = status_at j w"
    by (simp add: Get_same status_at_same)
  show ?thesis
  proof (cases g)
    case (Inl err)
    then show ?thesis using g s by (simp add: campaign_Start_def stay)
  next
    case (Inr c)
    obtain now w2 where n: "Now e w1 = (now, w2)" by force
    obtain err w3 where u: "CampaignRepository_Update e
        (c\<lparr>c_Status := CampaignStatusInProgress, c_StartedAt := Some now\<rparr>) w2 = (err, w3)" by force
    have "status_at j w3 = status_at j w \<or> j = i \<and> status_at i w = Some (c_Status c)
        \<and> status_at j w3 = Some CampaignStatusInProgress"
      using read_write_status [OF g [unfolded Inr] Now_same [OF n] _ u, of j] by simp
    then show ?thesis
      using g s n u Inr by (auto simp: campaign_Start_def intro: lifecycle.intros)
  qed
qed

lemma Pause_lifecycle: "lifecycle (OpPause i) j (status_at j w) (status_at j (snd (campaign_Pause e i w)))"
proof -
  obtain g w1 where g: "CampaignRepository_Get e i w = (g, w1)" by force
  then have s: "status_at j w1 = status_at j w"
    by (simp add: Get_same status_at_same)
  show ?thesis
  proof (cases g)
    case (Inl err)
    then show ?thesis using g s by (simp add: campaign_Pause_def stay)
  next
    case (Inr c)
    obtain err w3 where u: "CampaignRepository_Update e (c\<lparr>c_Status := CampaignStatusPaused\<rparr>) w1 = (err, w3)"
      by force
    have "status_at j w3 = status_at j w \<or> j = i \<and> status_at i w = Some (c_Status c)
        \<and> status_at j w3 = Some CampaignStatusPaused"
      using read_write_status [OF g [unfolded Inr] same_store_refl _ u, of j] by simp
    then show ?thesis
      using g u Inr by (auto simp: campaign_Pause_def intro: lifecycle.intros)
  qed
qed

lemma Complete_lifecycle:
  "lifecycle (OpComplete i) j (status_at j w) (status_at j (snd (campaign_Complete e i w)))"
proof -
  obtain g w1 where g: "CampaignRepository_Get e i w = (g, w1)" by force
  then have s: "status_at j w1 = status_at j w"
    by (simp add: Get_same status_at_same)
  show ?thesis
  proof (cases g)
    case (Inl err)
    then show ?thesis using g s by (simp add: campaign_Complete_def stay)
  next
    case (Inr c)
    obtain now w2 where n: "Now e w1 = (now, w2)" by force
    obtain err w3 where u: "CampaignRepository_Update e
        (c\<lparr>c_Status := CampaignStatusCompleted, c_CompletedAt := Some now\<rparr>) w2 = (err, w3)" by force
    have "status_at j w3 = status_at j w \<or> j = i \<and> status_at i w = Some (c_Status c)
        \<and> status_at j w3 = Some CampaignStatusCompleted"
      using read_write_status [OF g [unfolded Inr] Now_same [OF n] _ u, of j] by simp
    then show ?thesis
      using g n u Inr by (auto simp: campaign_Complete_def intro: lifecycle.intros)
  qed
qed

lemma apply_update_fields [simp]:
  "c_ID (apply_update d input c) = c_ID c" "c_Status (apply_update d input c) = c_Status c"
  by (simp_all add: apply_update_def Let_def split: option.splits)

lemma only_hours_status: "only_hours i w w' \<Longrightarrow> status_at j w' = status_at j w"
  by (cases w; cases w')
    (simp add: only_hours_def same_store_def status_at_def campaign_at_def find_campaign_def)

lemma Replace_status: "BusinessHourRepository_Replace e i ws w = (r, w') \<Longrightarrow> status_at j w' = status_at j w"
  by (erule Replace_cases) (simp_all add: status_at_same only_hours_status)

lemma Update_status_at: "status_at j (snd (campaign_Update e d input w)) = status_at j w"
proof -
  obtain g w1 where g: "CampaignRepository_Get e (ui_ID input) w = (g, w1)" by force
  then have s: "status_at j w1 = status_at j w"
    by (simp add: Get_same status_at_same)
  show ?thesis
  proof (cases g)
    case (Inl err)
    then show ?thesis using g s by (simp add: campaign_Update_def)
  next
    case (Inr c)
    obtain now w2 where n: "Now e w1 = (now, w2)" by force
    obtain err w3 where u: "CampaignRepository_Update e
        ((apply_update d input c)\<lparr>c_UpdatedAt := now\<rparr>) w2 = (err, w3)" by force
    have "status_at j w3 = status_at j w"
      using read_write_status [OF g [unfolded Inr] Now_same [OF n] _ u, of j] by auto
    then show ?thesis
      using g n u Inr
      by (auto simp: campaign_Update_def Let_def Replace_status split: option.splits prod.splits)
  qed
qed

text \<open>\<open>campaigns_are C\<close>: the table of campaigns is \<open>C\<close>.\<close>

definition campaigns_are :: "campaign_row list \<Rightarrow> world \<Rightarrow> bool" where
  "campaigns_are C w \<longleftrightarrow> w_campaigns w = C"

interpretation campaigns_are: store_invariant "campaigns_are C" for C
  by unfold_locales (simp add: campaigns_are_def same_store_fields)

lemma writes_keep_campaigns:
  "BusinessHourRepository_Replace e i ws w = (r, w') \<Longrightarrow> campaigns_are C w \<Longrightarrow> campaigns_are C w'"
  "CampaignStatisticsRepository_Ensure e i w = (r, w') \<Longrightarrow> campaigns_are C w \<Longrightarrow> campaigns_are C w'"
  "CampaignTargetRepository_BulkInsert e i ts w = (r, w') \<Longrightarrow> campaigns_are C w \<Longrightarrow> campaigns_are C w'"
proof -
  show "BusinessHourRepository_Replace e i ws w = (r, w') \<Longrightarrow> campaigns_are C w \<Longrightarrow> campaigns_are C w'"
    by (erule Replace_cases) (auto simp: only_hours_def campaigns_are_def dest: same_store_fields)
  show "CampaignStatisticsRepository_Ensure e i w = (r, w') \<Longrightarrow> campaigns_are C w \<Longrightarrow> campaigns_are C w'"
    by (erule Ensure_cases) (auto simp: campaigns_are_def dest: same_store_fields)
  show "CampaignTargetRepository_BulkInsert e i ts w = (r, w') \<Longrightarrow> campaigns_are C w \<Longrightarrow> campaigns_are C w'"
    by (erule BulkInsert_cases) (auto simp: campaigns_are_def dest: same_store_fields)
qed

lemmas keep_campaigns = same_steps [THEN campaigns_are.I_same] writes_keep_campaigns

lemma find_append: "find P (xs @ ys) = (case find P xs of None \<Rightarrow> find P ys | Some x \<Rightarrow> Some x)"
  by (induction xs) auto

lemma campaign_at_append:
  assumes "c_ID c \<notin> r_id ` set (w_campaigns w)"
  shows "campaign_at j (w\<lparr>w_campaigns := w_campaigns w @ [to_row c]\<rparr>) =
     (if j = c_ID c then Some (stored c) else campaign_at j w)"
proof -
  have id: "r_id (to_row c) = c_ID c"
    by (simp add: to_row_def)
  have "find (\<lambda>r. r_id r = c_ID c) (w_campaigns w) = None"
    using assms by (metis (mono_tags, lifting) find_None_iff image_eqI)
  then show ?thesis
    by (auto simp: campaign_at_def find_campaign_def stored_def find_append id split: option.splits)
qed

lemma campaign_at_None: "campaign_at i w = None \<longleftrightarrow> i \<notin> r_id ` set (w_campaigns w)"
  by (auto simp: campaign_at_def find_campaign_def find_None_iff)

lemma Create_repo_at:
  assumes "CampaignRepository_Create e c w = (err, w')"
  shows "(\<forall>j. campaign_at j w' = campaign_at j w) \<and> err \<noteq> None
    \<or> campaign_at (c_ID c) w = None \<and>
      (\<forall>j. campaign_at j w' = (if j = c_ID c then Some (stored c) else campaign_at j w))"
  using assms
proof (cases rule: Create_cases)
  case same
  then show ?thesis by (simp add: campaign_at_same)
next
  case created
  then show ?thesis
    using campaign_at_same [OF created(1)] by (simp add: campaign_at_append campaign_at_None)
qed

lemma Create_tail:
  assumes "campaign_Create e loc d input w = (r, w')" "validateCreateInput loc input = None"
    "Now e w = (now, w1)" "uuid_New e w1 = (u, w2)"
    "CampaignRepository_Create e (new_campaign d input u now) w2 = (q, w3)" "campaigns_are C w3"
  shows "campaigns_are C w' \<and> (\<forall>c'. r = Inr c' \<longrightarrow> c' = new_campaign d input u now \<and> q = None)"
  using assms unfolding campaign_Create_def
  by (auto simp: Let_def split: option.splits prod.splits if_splits dest!: keep_campaigns)

text \<open>What \<open>Create\<close> does to the table of campaigns: nothing, or the insertion of one pending
  campaign under an id that was free.\<close>

lemma Create_service_at:
  assumes "campaign_Create e loc d input w = (r, w')"
  shows "(\<forall>j. campaign_at j w' = campaign_at j w) \<and> (\<exists>err. r = Inl err)
    \<or> (\<exists>c. c_Status c = CampaignStatusPending \<and> campaign_at (c_ID c) w = None \<and>
        (\<forall>j. campaign_at j w' = (if j = c_ID c then Some (stored c) else campaign_at j w)) \<and>
        (\<forall>c'. r = Inr c' \<longrightarrow> c' = c))"
proof (cases "validateCreateInput loc input")
  case (Some err)
  then show ?thesis using assms by (auto simp: campaign_Create_def)
next
  case None
  obtain now w1 where n: "Now e w = (now, w1)" by force
  obtain u w2 where u: "uuid_New e w1 = (u, w2)" by force
  let ?c = "new_campaign d input u now"
  obtain q w3 where r: "CampaignRepository_Create e ?c w2 = (q, w3)" by force
  have at2: "campaign_at j w2 = campaign_at j w" for j
    using n u Now_same uuid_New_same campaign_at_same by metis
  have "campaigns_are (w_campaigns w3) w3"
    by (simp add: campaigns_are_def)
  note tail = Create_tail [OF assms None n u r this]
  then have "campaign_at j w' = campaign_at j w3" for j
    by (simp add: campaign_at_def find_campaign_def campaigns_are_def)
  moreover have "c_Status ?c = CampaignStatusPending"
    by (simp add: new_campaign_def)
  ultimately show ?thesis
    using Create_repo_at [OF r] at2 tail by (cases r) auto
qed

lemma AddTargets_campaigns:
  "campaign_AddTargets e i ts w = (r, w') \<Longrightarrow> campaigns_are C w \<Longrightarrow> campaigns_are C w'"
  by (auto simp: campaign_AddTargets_def split: prod.splits sum.splits option.splits if_splits
      dest!: keep_campaigns)

lemmas status_reads = service_reads_same [THEN status_at_same]

lemma campaign_run_lifecycle:
  "lifecycle op i (status_at i w) (status_at i (campaign_run e loc d op w))"
proof (cases op)
  case (OpCreate input)
  obtain r w' where r: "campaign_Create e loc d input w = (r, w')" by force
  show ?thesis
    using Create_service_at [OF r] r OpCreate
    by (auto simp: status_at_def intro: lifecycle.intros)
next
  case (OpAddTargets j ts)
  obtain r w' where r: "campaign_AddTargets e j ts w = (r, w')" by force
  then have "campaigns_are (w_campaigns w) w'"
    by (rule AddTargets_campaigns) (simp add: campaigns_are_def)
  then show ?thesis
    using r OpAddTargets by (simp add: status_at_def campaign_at_def find_campaign_def stay campaigns_are_def)
qed (simp_all add: status_reads Update_status_at stay Start_lifecycle Pause_lifecycle Complete_lifecycle)

text \<open>A sequence of operations.\<close>

definition campaign_runs ::
    "env \<Rightarrow> (string \<Rightarrow> go_error + location) \<Rightarrow> int \<Rightarrow> campaign_op list \<Rightarrow> world \<Rightarrow> world" where
  "campaign_runs e loc d ops w = fold (campaign_run e loc d) ops w"

lemma completed_step:
  assumes "status_at i w = Some CampaignStatusCompleted" "op \<noteq> OpPause i"
  shows "status_at i (campaign_run e loc d op w) = Some CampaignStatusCompleted"
  using campaign_run_lifecycle [of op i w e loc d] assms
  by (auto elim!: lifecycle_from_completed)

subsection \<open>Registered phone numbers\<close>

lemma check_phones_None: "check_phones P ts = None \<longleftrightarrow> (\<forall>t \<in> set ts. P (ti_PhoneNumber t))"
  by (induction ts) auto

lemma phones_insert: "phones_of i (w\<lparr>w_targets := insert_rows (w_targets w) rs\<rparr>)
    \<subseteq> phones_of i w \<union> tg_phone_number ` set rs"
  using insert_rows_set [of "w_targets w" rs] by (fastforce simp: phones_of_def targets_of_def)

lemma insert_rows_mono: "set table \<subseteq> set (insert_rows table rs)"
  by (induction table rs rule: insert_rows.induct) (auto split: if_splits)

lemma toModel_phone [simp]: "ct_PhoneNumber (toModel i r) = tg_phone_number r"
  by (simp add: toModel_def)

text \<open>Inserting targets whose numbers are registered registers no other number.\<close>

lemma BulkInsert_phones:
  assumes "CampaignTargetRepository_BulkInsert e i rs w = (b, w')" "ct_PhoneNumber ` set rs \<subseteq> phones_of i w"
  shows "phones_of i w' = phones_of i w"
  using assms(1)
proof (cases rule: BulkInsert_cases)
  case same
  from same(1) show ?thesis by (rule phones_of_same)
next
  case inserted
  let ?rows = "map (target_to_row i) rs"
  have "phones_of i w' = phones_of i (w\<lparr>w_targets := insert_rows (w_targets w) ?rows\<rparr>)"
    using inserted(1) by (rule phones_of_same)
  moreover have "phones_of i w \<subseteq> \<dots>"
    using insert_rows_mono by (fastforce simp: phones_of_def targets_of_def)
  moreover have "tg_phone_number ` set ?rows \<subseteq> phones_of i w"
    using assms(2) by (simp add: image_image target_to_row_def)
  ultimately show ?thesis
    using phones_insert [of i w ?rows] by blast
qed

lemma AddTargets_only_registered:
  assumes "env_scans e" "campaign_AddTargets e i ts w = (err, w')"
  shows "phones_of i w' = phones_of i w"
proof -
  obtain q w1 where l: "CampaignTargetRepository_ListByCampaign e i 10000 [] w = (q, w1)" by force
  have s1: "same_store w w1" using l by (rule ListByCampaign_same)
  show ?thesis
  proof (cases "ts \<noteq> [] \<and> (\<exists>xs. q = Inr xs \<and> check_phones (\<lambda>p. p \<in> ct_PhoneNumber ` set xs) ts = None)")
    case False
    then have "same_store w w'"
      using assms(2) l s1
      by (auto simp: campaign_AddTargets_def split: sum.splits option.splits if_splits)
    then show ?thesis by (simp add: phones_of_same)
  next
    case True
    then obtain xs where xs: "q = Inr xs" "check_phones (\<lambda>p. p \<in> ct_PhoneNumber ` set xs) ts = None"
      by blast
    have reg: "ct_PhoneNumber ` set xs \<subseteq> phones_of i w"
      using ListByCampaign_all [OF l [unfolded xs(1)]] assms(1)
      by (auto simp: env_scans_def phones_of_def dest!: select_targets_set)
    obtain now w2 where n: "Now e w1 = (now, w2)" by force
    obtain rs w3 where m: "make_records e i now ts w2 = (rs, w3)" by force
    obtain b w4 where b: "CampaignTargetRepository_BulkInsert e i rs w3 = (b, w4)" by force
    have s3: "same_store w w3"
      using s1 n m Now_same make_records_same same_store_trans by metis
    have "set (map ct_PhoneNumber rs) = set (map ti_PhoneNumber ts)"
      by (simp only: make_records_phones [OF m])
    then have "ct_PhoneNumber ` set rs \<subseteq> phones_of i w3"
      using xs(2) reg phones_of_same [OF s3] by (auto simp: check_phones_None)
    then have "phones_of i w4 = phones_of i w"
      using BulkInsert_phones [OF b] phones_of_same [OF s3] by simp
    moreover have "w' = w4 \<or> same_store w w'"
      using assms(2) l xs n m b s1 True
      by (auto simp: campaign_AddTargets_def split: if_splits option.splits)
    ultimately show ?thesis using phones_of_same by blast
  qed
qed

subsection \<open>What a successful creation stores\<close>

text \<open>The first \<open>k\<close> uuids to be drawn are new: \<open>uuid.New\<close> does not repeat itself.\<close>

definition fresh_uuids :: "env \<Rightarrow> nat \<Rightarrow> world \<Rightarrow> bool" where
  "fresh_uuids e k w \<longleftrightarrow>
     distinct (map (uuid_at e) [uuid_n w..<uuid_n w + k])
     \<and> (\<forall>n \<in> {uuid_n w..<uuid_n w + k}. uuid_at e n \<notin> tg_id ` set (w_targets w))"

lemma upt_Cons: "[n..<n + Suc k] = n # [Suc n..<Suc n + k]"
  by (subst upt_conv_Cons) auto

lemma fresh_uuids_Suc:
  "fresh_uuids e (Suc k) w \<Longrightarrow> uuid_n w' = Suc (uuid_n w) \<Longrightarrow> w_targets w' = w_targets w \<Longrightarrow>
     fresh_uuids e k w'"
  unfolding fresh_uuids_def upt_Cons by auto

lemma make_records_ids:
  "make_records e i now ts w = (rs, w') \<Longrightarrow>
     map ct_ID rs = map (uuid_at e) [uuid_n w..<uuid_n w + length ts]"
proof (induction ts arbitrary: w rs)
  case Nil
  then show ?case by simp
next
  case (Cons t ts)
  then obtain rs' where r: "make_records e i now ts (w\<lparr>uuid_n := Suc (uuid_n w)\<rparr>) = (rs', w')"
    and rs: "map ct_ID rs = uuid_at e (uuid_n w) # map ct_ID rs'"
    by (auto simp: uuid_New_def split: prod.splits)
  show ?case
    using Cons.IH [OF r] rs upt_Cons [of "uuid_n w" "length ts"] by (simp del: upt_Suc)
qed

lemma insert_rows_fresh:
  "distinct (map tg_id rs) \<Longrightarrow> tg_id ` set rs \<inter> tg_id ` set table = {} \<Longrightarrow>
     insert_rows table rs = table @ rs"
  by (induction table rs rule: insert_rows.induct) auto

lemma insert_records:
  assumes m: "make_records e u now ts w = (recs, w')" and "fresh_uuids e (length ts) w"
  shows "insert_rows (w_targets w') (map (target_to_row u) recs) = w_targets w @ map (target_to_row u) recs"
proof -
  let ?rows = "map (target_to_row u) recs"
  have ids: "map tg_id ?rows = map (uuid_at e) [uuid_n w..<uuid_n w + length ts]"
    using make_records_ids [OF m] by (simp add: comp_def target_to_row_def)
  then have "tg_id ` set ?rows = uuid_at e ` {uuid_n w..<uuid_n w + length ts}"
    by (metis list.set_map set_upt)
  then have "tg_id ` set ?rows \<inter> tg_id ` set (w_targets w) = {}" and "distinct (map tg_id ?rows)"
    using assms(2) ids by (auto simp: fresh_uuids_def)
  then show ?thesis
    using make_records_same [OF m] by (simp add: same_store_fields insert_rows_fresh)
qed

lemma make_records_rows:
  "make_records e i now ts w = (rs, w') \<Longrightarrow> r \<in> set rs \<Longrightarrow> ct_State r = ''pending'' \<and> ct_AttemptCount r = 0"
  by (induction ts arbitrary: w rs) (auto split: prod.splits)

text \<open>The uuid counter is only moved by \<open>uuid_New\<close>.\<close>

lemma query_uuid_n: "query e q w = (r, w') \<Longrightarrow> uuid_n w' = uuid_n w"
  by (auto simp: query_def split: io_outcome.splits)

lemma exec_uuid_n:
  assumes "exec e stmt w = (r, w')" "\<And>w a w'. stmt w = Some (a, w') \<Longrightarrow> uuid_n w' = uuid_n w"
  shows "uuid_n w' = uuid_n w"
  using assms by (auto elim!: exec_cases)

lemma run_stmt_uuid_n:
  assumes "run_stmt e m stmt w = (r, w')" "\<And>w a w'. stmt w = Some (a, w') \<Longrightarrow> uuid_n w' = uuid_n w"
  shows "uuid_n w' = uuid_n w"
  using assms by (auto elim!: run_stmt_cases)

lemma insert_windows_uuid_n: "insert_windows e i ws w = (r, w') \<Longrightarrow> uuid_n w' = uuid_n w"
proof (induction ws arbitrary: w)
  case Nil
  then show ?case by simp
next
  case (Cons b bs)
  obtain q w1 where x: "exec e (insert_hours (window_row i b)) w = (q, w1)" by force
  then have "uuid_n w1 = uuid_n w"
    by (rule exec_uuid_n) (auto simp: insert_hours_def split: if_splits)
  then show ?case using Cons x by (cases q) auto
qed

lemma rollback_uuid_n [simp]: "uuid_n (rollback_pg a b) = uuid_n b"
  by (simp add: rollback_pg_def)

lemma delete_hours_uuid_n: "exec e (delete_hours i) w = (r, w') \<Longrightarrow> uuid_n w' = uuid_n w"
  by (erule exec_uuid_n) (auto simp: delete_hours_def)

lemma replace_body_uuid_n: "replace_body e i ws w = (r, w') \<Longrightarrow> uuid_n w' = uuid_n w"
  by (auto simp: replace_body_def split: prod.splits sum.splits if_splits
      dest!: delete_hours_uuid_n query_uuid_n insert_windows_uuid_n)

lemma Replace_uuid_n: "BusinessHourRepository_Replace e i ws w = (r, w') \<Longrightarrow> uuid_n w' = uuid_n w"
  by (auto simp: Replace_withTx withTx_def
      split: prod.splits sum.splits option.splits io_outcome.splits
      dest!: replace_body_uuid_n query_uuid_n)

text \<open>The steps of a successful creation.\<close>

lemma Create_steps:
  assumes "campaign_Create e loc d input w = (Inr c, w')"
  obtains now w1 u w2 w3 w4 w5 where
    "validateCreateInput loc input = None" "Now e w = (now, w1)" "uuid_New e w1 = (u, w2)"
    "c = new_campaign d input u now" "CampaignRepository_Create e c w2 = (None, w3)"
    "BusinessHourRepository_Replace e u (toDomainBusinessHours (ci_BusinessHours input)) w3 = (None, w4)"
    "CampaignStatisticsRepository_Ensure e u w4 = (None, w5)"
    "ci_Targets input = [] \<and> w' = w5 \<or>
     (\<exists>records w6. make_records e u now (ci_Targets input) w5 = (records, w6)
        \<and> CampaignTargetRepository_BulkInsert e u records w6 = (None, w'))"
  using assms unfolding campaign_Create_def
  by (auto simp: Let_def split: option.splits prod.splits if_splits)

lemma BulkInsert_None:
  assumes "CampaignTargetRepository_BulkInsert e i rs w = (None, w')"
  shows "same_store (w\<lparr>w_targets := insert_rows (w_targets w) (map (target_to_row i) rs)\<rparr>) w'"
  using assms by (cases rule: BulkInsert_cases) auto

lemma Ensure_None:
  assumes "CampaignStatisticsRepository_Ensure e i w = (None, w')"
  shows "same_store (w\<lparr>w_stats := (w_stats w)(i := Some (case w_stats w i of None \<Rightarrow> zero_stats | Some s \<Rightarrow> s))\<rparr>) w'"
  using assms
proof (cases rule: Ensure_cases)
  case same
  then obtain s where "w_stats w i = Some s" by auto
  then have "w\<lparr>w_stats := (w_stats w)(i := Some (case w_stats w i of None \<Rightarrow> zero_stats | Some s \<Rightarrow> s))\<rparr> = w"
    by (simp add: fun_upd_idem)
  then show ?thesis using same by simp
next
  case created
  then show ?thesis by simp
qed

lemma simple_uuid_n:
  "CampaignRepository_Create e c w = (r, w') \<Longrightarrow> uuid_n w' = uuid_n w"
  "CampaignStatisticsRepository_Ensure e i w = (r, w') \<Longrightarrow> uuid_n w' = uuid_n w"
  unfolding CampaignRepository_Create_def CampaignStatisticsRepository_Ensure_def
  by (erule run_stmt_uuid_n; auto simp: insert_campaign_def insert_stats_def
      split: if_splits option.splits)+

lemma only_hours_fields:
  "only_hours i w w' \<Longrightarrow> w_targets w' = w_targets w"
  "only_hours i w w' \<Longrightarrow> w_stats w' = w_stats w"
  "only_hours i w w' \<Longrightarrow> w_campaigns w' = w_campaigns w"
  by (cases w; cases w'; simp add: only_hours_def same_store_def)+

text \<open>The end of a creation: with fresh ids every target of the input becomes a row of its own.\<close>

lemma Create_targets:
  assumes "ci_Targets input = [] \<and> w' = w5 \<or>
     (\<exists>records w6. make_records e u now (ci_Targets input) w5 = (records, w6)
        \<and> CampaignTargetRepository_BulkInsert e u records w6 = (None, w'))"
    and fresh: "fresh_uuids e (length (ci_Targets input)) w5"
  obtains recs w6 where "make_records e u now (ci_Targets input) w5 = (recs, w6)"
    "same_store (w5\<lparr>w_targets := w_targets w5 @ map (target_to_row u) recs\<rparr>) w'"
proof -
  obtain recs w6 where m: "make_records e u now (ci_Targets input) w5 = (recs, w6)" by force
  let ?rows = "map (target_to_row u) recs"
  have s6: "same_store w5 w6" using m by (rule make_records_same)
  have ins: "insert_rows (w_targets w6) ?rows = w_targets w5 @ ?rows"
    using insert_records [OF m fresh] by simp
  from assms(1) have "same_store (w6\<lparr>w_targets := w_targets w5 @ ?rows\<rparr>) w'"
  proof (elim disjE conjE exE)
    assume "ci_Targets input = []" "w' = w5"
    moreover from this have "recs = []" "w6 = w5" using m by auto
    ultimately show ?thesis by (cases w5) simp
  next
    fix rs w7
    assume "make_records e u now (ci_Targets input) w5 = (rs, w7)"
      "CampaignTargetRepository_BulkInsert e u rs w7 = (None, w')"
    then show ?thesis using m ins BulkInsert_None [of e u recs w6 w'] by simp
  qed
  then show thesis
    using that [OF m] s6 by (cases w5; cases w6) (simp add: same_store_def)
qed

text \<open>A creation that reports success has stored the campaign under a free id, its business
  hours, counters at zero and one pending target per input, in order.\<close>

lemma Create_stores:
  assumes c: "campaign_Create e loc d input w = (Inr c, w')" and wf: "pg_wf w"
    and fresh: "fresh_uuids e (Suc (length (ci_Targets input))) w"
  shows "campaign_at (c_ID c) w = None" "campaign_at (c_ID c) w' = Some (stored c)"
    "hours_at (c_ID c) w' = mset (map window_key (toDomainBusinessHours (ci_BusinessHours input)))"
    "w_stats w' (c_ID c) = Some zero_stats"
    "\<exists>rows. w_targets w' = w_targets w @ rows
       \<and> map tg_phone_number rows = map ti_PhoneNumber (ci_Targets input)
       \<and> (\<forall>r \<in> set rows. tg_campaign_id r = c_ID c \<and> tg_state r = ''pending'')"
proof -
  obtain now w1 u w2 w3 w4 w5 where st:
    "Now e w = (now, w1)" "uuid_New e w1 = (u, w2)"
    "c = new_campaign d input u now" "CampaignRepository_Create e c w2 = (None, w3)"
    "BusinessHourRepository_Replace e u (toDomainBusinessHours (ci_BusinessHours input)) w3 = (None, w4)"
    "CampaignStatisticsRepository_Ensure e u w4 = (None, w5)"
    and tail: "ci_Targets input = [] \<and> w' = w5 \<or>
     (\<exists>records w6. make_records e u now (ci_Targets input) w5 = (records, w6)
        \<and> CampaignTargetRepository_BulkInsert e u records w6 = (None, w'))"
    using c by (rule Create_steps)
  have id: "c_ID c = u" by (simp add: st(3) new_campaign_def)
  have at: "campaign_at u w = None \<and> campaign_at u w' = Some (stored c)"
    using Create_service_at [OF c] id by (auto simp: st(3) new_campaign_def)
  then show "campaign_at (c_ID c) w = None" "campaign_at (c_ID c) w' = Some (stored c)"
    using id by simp_all
  have s2: "same_store w w2"
    using st(1,2) Now_same uuid_New_same same_store_trans by metis
  have new: "u \<notin> r_id ` set (w_campaigns w)"
    using at by (simp add: campaign_at_None)
  then have st0: "w_stats w u = None"
    using wf unfolding pg_wf_def by (metis option.exhaust)
  have s3: "same_store (w2\<lparr>w_campaigns := w_campaigns w2 @ [to_row c]\<rparr>) w3"
    using st(4) by (cases rule: Create_cases) auto
  have s4: "only_hours u w3 w4" "hours_at u w4 = mset (map window_key (toDomainBusinessHours (ci_BusinessHours input)))"
    using st(5) by (cases rule: Replace_cases; simp)+
  note s5 = Ensure_None [OF st(6)]
  have stats4: "w_stats w4 u = None" and targets5: "w_targets w5 = w_targets w"
    using s2 s3 s4(1) s5 st0 by (simp_all add: same_store_fields only_hours_fields)
  have n5: "uuid_n w5 = Suc (uuid_n w)"
    using st simple_uuid_n Replace_uuid_n by (auto simp: Now_def uuid_New_def)
  obtain recs w6 where m: "make_records e u now (ci_Targets input) w5 = (recs, w6)"
      and s7: "same_store (w5\<lparr>w_targets := w_targets w5 @ map (target_to_row u) recs\<rparr>) w'"
    by (rule Create_targets [OF tail fresh_uuids_Suc [OF fresh n5 targets5]])
  show "hours_at (c_ID c) w' = mset (map window_key (toDomainBusinessHours (ci_BusinessHours input)))"
    using s4(2) s5 s7 id by (simp add: hours_at_def same_store_fields)
  show "w_stats w' (c_ID c) = Some zero_stats"
    using stats4 s5 s7 id by (simp add: same_store_fields)
  show "\<exists>rows. w_targets w' = w_targets w @ rows
       \<and> map tg_phone_number rows = map ti_PhoneNumber (ci_Targets input)
       \<and> (\<forall>r \<in> set rows. tg_campaign_id r = c_ID c \<and> tg_state r = ''pending'')"
    using s7 targets5 make_records_phones [OF m] make_records_rows [OF m] id
    by (intro exI [of _ "map (target_to_row u) recs"]) (auto simp: same_store_fields comp_def target_to_row_def)
qed

subsection \<open>Transitions without faults\<close>

text \<open>The unique index on the lower-cased name holds.\<close>

definition names_unique :: "env \<Rightarrow> world \<Rightarrow> bool" where
  "names_unique e w \<longleftrightarrow> (\<forall>r \<in> set (w_campaigns w). \<not> name_taken e r (w_campaigns w))"

lemma toDomain_row:
  "r_id (to_row (toDomain r)) = r_id r" "r_name (to_row (toDomain r)) = r_name r"
  "r_max_concurrent_calls (to_row (toDomain r)) = r_max_concurrent_calls r"
  "r_retry_max_attempts (to_row (toDomain r)) = r_retry_max_attempts r"
  by (simp_all add: to_row_def toDomain_def)

lemma Update_ok:
  assumes "no_faults e" "find_campaign (c_ID c) w \<noteq> None" "campaign_checks (to_row c)"
    and "\<not> name_taken e (to_row c) (w_campaigns w)"
  shows "CampaignRepository_Update e c w = (None, tick_io (rewritten e c (tick_io w)))"
proof -
  have "filter (\<lambda>old. r_id old = c_ID c) (w_campaigns w) \<noteq> []"
    using assms(2) by (auto simp: find_campaign_def find_None_iff filter_empty_conv)
  moreover have "r_id (to_row c) = c_ID c" by (simp add: to_row_def)
  ultimately show ?thesis
    using assms
    by (simp add: CampaignRepository_Update_def exec_ok update_campaign_def Let_def
        check_affected_def query_ok rewritten_def)
qed

text \<open>Reading a campaign and writing it back with another status: the row keeps its name and
  limits, so no constraint can fail.\<close>

lemma write_back_ok:
  assumes e: "no_faults e" and wf: "pg_wf w" "names_unique e w" and s: "same_store w w2"
    and r: "find_campaign i w = Some r"
  shows "CampaignRepository_Update e ((toDomain r)\<lparr>c_Status := st, c_StartedAt := a, c_CompletedAt := b\<rparr>) w2
     = (None, tick_io (rewritten e ((toDomain r)\<lparr>c_Status := st, c_StartedAt := a, c_CompletedAt := b\<rparr>) (tick_io w2)))"
proof (rule Update_ok [OF e])
  let ?c = "(toDomain r)\<lparr>c_Status := st, c_StartedAt := a, c_CompletedAt := b\<rparr>"
  have ri: "r_id r = i" "r \<in> set (w_campaigns w)"
    using find_campaign_Some [OF r] by auto
  have eq: "w_campaigns w2 = w_campaigns w"
    using s by (rule same_store_fields)
  have row: "r_id (to_row ?c) = r_id r" "r_name (to_row ?c) = r_name r"
    "r_max_concurrent_calls (to_row ?c) = r_max_concurrent_calls r"
    "r_retry_max_attempts (to_row ?c) = r_retry_max_attempts r" "c_ID ?c = i"
    using ri by (simp_all add: to_row_def toDomain_def)
  show "find_campaign (c_ID ?c) w2 \<noteq> None"
    using r eq row by (simp add: find_campaign_def)
  show "campaign_checks (to_row ?c)"
    using wf(1) ri unfolding campaign_checks_def row by (simp add: pg_wf_def campaign_checks_def)
  show "\<not> name_taken e (to_row ?c) (w_campaigns w2)"
    using wf(2) ri(2) unfolding name_taken_def row eq by (auto simp: names_unique_def name_taken_def)
qed

lemma find_rewritten:
  "find_campaign i (tick_io (rewritten e c (tick_io w))) =
     (if i = c_ID c then map_option (updated_row e (tick_io w) (to_row c)) (find_campaign i w)
      else find_campaign i w)"
  by (simp add: find_campaign_def rewritten_def find_map_other find_map_hit)

lemma Start_ok:
  assumes "no_faults e" "pg_wf w" "names_unique e w" "find_campaign i w = Some r"
    and "r_status r \<noteq> CampaignStatusCompleted" "r_status r \<noteq> CampaignStatusInProgress"
  shows "\<exists>w' r' t. campaign_Start e i w = (None, w') \<and> find_campaign i w' = Some r'
     \<and> r_status r' = CampaignStatusInProgress \<and> r_started_at r' = Some t \<and> r_completed_at r' = None"
proof -
  let ?w2 = "(tick_io w)\<lparr>now_n := Suc (now_n w)\<rparr>"
  let ?c = "(toDomain r)\<lparr>c_Status := CampaignStatusInProgress, c_StartedAt := Some (utc (now_at e (now_n w)))\<rparr>"
  have c: "?c = (toDomain r)\<lparr>c_Status := CampaignStatusInProgress,
      c_StartedAt := Some (utc (now_at e (now_n w))), c_CompletedAt := None\<rparr>"
    by (simp add: toDomain_def)
  have "same_store w ?w2"
    by (simp add: same_store_def tick_io_def)
  from write_back_ok [OF assms(1-3) this assms(4), where st = CampaignStatusInProgress
      and a = "Some (utc (now_at e (now_n w)))" and b = None]
  have u: "CampaignRepository_Update e ?c ?w2 = (None, tick_io (rewritten e ?c (tick_io ?w2)))"
    by (simp only: c [symmetric])
  have i: "c_ID ?c = i" "r_id r = i"
    using find_campaign_Some [OF assms(4)] by (simp_all add: toDomain_def)
  have "campaign_Start e i w = (None, tick_io (rewritten e ?c (tick_io ?w2)))"
    using assms u by (simp add: campaign_Start_def Get_ok campaign_at_def Now_def toDomain_def)
  moreover have "find_campaign i (tick_io (rewritten e ?c (tick_io ?w2))) =
      Some (updated_row e (tick_io ?w2) (to_row ?c) r)"
    using i assms(4) by (simp add: find_rewritten) (simp add: find_campaign_def)
  ultimately show ?thesis
    by (simp add: updated_row_def to_row_def toDomain_def)
qed

text \<open>A campaign's update keeps names unique when it keeps the name.\<close>

lemma rewritten_names:
  assumes "names_unique e w" "find_campaign (c_ID c) w = Some r" "c_Name c = r_name r" "pg_wf w"
    and that: "w_campaigns w' = w_campaigns w"
  shows "names_unique e (rewritten e c w')"
proof -
  have r: "r_id r = c_ID c" "r \<in> set (w_campaigns w)"
    using find_campaign_Some [OF assms(2)] by auto
  have same: "old = r" if "old \<in> set (w_campaigns w)" "r_id old = c_ID c" for old
  proof -
    have "inj_on r_id (set (w_campaigns w))"
      using assms(4) by (simp add: pg_wf_def distinct_map)
    then show ?thesis using that r by (metis inj_onD)
  qed
  have "map r_name (w_campaigns (rewritten e c w')) = map r_name (w_campaigns w)
      \<and> map r_id (w_campaigns (rewritten e c w')) = map r_id (w_campaigns w)"
    using same that assms(3) by (auto simp: rewritten_def updated_row_def to_row_def)
  then have "set (zip (map r_id (w_campaigns (rewritten e c w'))) (map r_name (w_campaigns (rewritten e c w'))))
      = set (zip (map r_id (w_campaigns w)) (map r_name (w_campaigns w)))"
    by simp
  then have pairs: "(\<lambda>r. (r_id r, r_name r)) ` set (w_campaigns (rewritten e c w')) =
      (\<lambda>r. (r_id r, r_name r)) ` set (w_campaigns w)"
    by (simp add: zip_map_map zip_same_conv_map image_image comp_def)
  have iff: "names_unique e v \<longleftrightarrow> (\<forall>(a, n) \<in> (\<lambda>r. (r_id r, r_name r)) ` set (w_campaigns v).
      \<forall>(b, m) \<in> (\<lambda>r. (r_id r, r_name r)) ` set (w_campaigns v). b \<noteq> a \<longrightarrow> sql_lower e m \<noteq> sql_lower e n)" for v
    by (auto simp: names_unique_def name_taken_def)
  show ?thesis using assms(1) unfolding iff [of "rewritten e c w'"] iff [of w] pairs .
qed

lemma Pause_ok:
  assumes "no_faults e" "pg_wf w" "names_unique e w" "find_campaign i w = Some r"
  shows "\<exists>w' r'. campaign_Pause e i w = (None, w') \<and> find_campaign i w' = Some r' \<and> names_unique e w'
     \<and> r_status r' = CampaignStatusPaused \<and> r_started_at r' = None \<and> r_completed_at r' = None"
proof -
  let ?c = "(toDomain r)\<lparr>c_Status := CampaignStatusPaused\<rparr>"
  have c: "?c = (toDomain r)\<lparr>c_Status := CampaignStatusPaused, c_StartedAt := None, c_CompletedAt := None\<rparr>"
    by (simp add: toDomain_def)
  from write_back_ok [OF assms(1-3) same_store_counters(1) assms(4), where st = CampaignStatusPaused
      and a = None and b = None]
  have u: "CampaignRepository_Update e ?c (tick_io w) = (None, tick_io (rewritten e ?c (tick_io (tick_io w))))"
    by (simp only: c [symmetric])
  have i: "c_ID ?c = i" "r_id r = i"
    using find_campaign_Some [OF assms(4)] by (simp_all add: toDomain_def)
  have "campaign_Pause e i w = (None, tick_io (rewritten e ?c (tick_io (tick_io w))))"
    using assms u by (simp add: campaign_Pause_def Get_ok campaign_at_def)
  moreover have "find_campaign i (tick_io (rewritten e ?c (tick_io (tick_io w)))) =
      Some (updated_row e (tick_io (tick_io w)) (to_row ?c) r)"
    using i assms(4) by (simp add: find_rewritten) (simp add: find_campaign_def)
  moreover have "names_unique e (rewritten e ?c (tick_io (tick_io w)))"
    using assms i by (intro rewritten_names [where r = r and w = w]) (simp_all add: toDomain_def)
  then have "names_unique e (tick_io (rewritten e ?c (tick_io (tick_io w))))"
    by (simp add: names_unique_def)
  ultimately show ?thesis
    by (simp add: updated_row_def to_row_def toDomain_def)
qed

text \<open>A window that closes before it opens passes the validation of the service but not the
  constraint of the table.\<close>

lemma Replace_unstorable:
  assumes "BusinessHourRepository_Replace e i ws w = (err, w')" "b \<in> set ws" "\<not> storable b"
  shows "err \<noteq> None \<and> same_store w w'"
  using assms(1) by (cases rule: Replace_cases) (use assms in auto)

lemma Create_repo_ok:
  assumes "no_faults e" "c_ID c \<notin> r_id ` set (w_campaigns w)" "campaign_checks (to_row c)"
    "\<not> name_taken e (to_row c) (w_campaigns w)"
  shows "CampaignRepository_Create e c w =
    (None, (tick_io w)\<lparr>w_campaigns := w_campaigns w @ [to_row c]\<rparr>)"
proof -
  have "r_id (to_row c) = c_ID c" by (simp add: to_row_def)
  then show ?thesis
    using assms by (simp add: CampaignRepository_Create_def run_stmt_ok insert_campaign_def)
qed

lemma Create_half:
  assumes e: "no_faults e" and v: "validateCreateInput loc input = None"
    and b: "b \<in> set (toDomainBusinessHours (ci_BusinessHours input))" "\<not> storable b"
    and c: "c = new_campaign d input (uuid_at e (uuid_n w)) (utc (now_at e (now_n w)))"
    and new: "c_ID c \<notin> r_id ` set (w_campaigns w)" "campaign_checks (to_row c)"
      "\<not> name_taken e (to_row c) (w_campaigns w)"
  shows "\<exists>err w'. campaign_Create e loc d input w = (Inl err, w')
     \<and> same_store (w\<lparr>w_campaigns := w_campaigns w @ [to_row c]\<rparr>) w'"
proof -
  let ?w2 = "w\<lparr>now_n := Suc (now_n w), uuid_n := Suc (uuid_n w)\<rparr>"
  let ?w3 = "(tick_io ?w2)\<lparr>w_campaigns := w_campaigns w @ [to_row c]\<rparr>"
  have cr: "CampaignRepository_Create e c ?w2 = (None, ?w3)"
    using Create_repo_ok [OF e, of c ?w2] new by simp
  obtain err w4 where r: "BusinessHourRepository_Replace e (c_ID c)
      (toDomainBusinessHours (ci_BusinessHours input)) ?w3 = (err, w4)" by force
  then obtain er where er: "err = Some er" and s: "same_store ?w3 w4"
    using Replace_unstorable [OF r b] by auto
  have id: "c_ID c = uuid_at e (uuid_n w)"
    by (simp add: c new_campaign_def)
  have "campaign_Create e loc d input w = (Inl (Errorf ''campaign service: store business hours: '' er []), w4)"
    using v cr r er by (simp add: campaign_Create_def Now_def uuid_New_def c [symmetric] id)
  moreover have "same_store (w\<lparr>w_campaigns := w_campaigns w @ [to_row c]\<rparr>) ?w3"
    by (simp add: same_store_def tick_io_def)
  ultimately show ?thesis
    using s same_store_trans by blast
qed

subsection \<open>Sample inputs\<close>

definition sample_input :: CreateCampaignInput where
  "sample_input = \<lparr>ci_Name = ''autumn'', ci_Description = [], ci_TimeZone = ''UTC'',
     ci_MaxConcurrentCalls = 0,
     ci_RetryPolicy = \<lparr>MaxAttempts = 3, BaseDelay = 0, MaxDelay = 0, Jitter = 0\<rparr>,
     ci_BusinessHours = [\<lparr>in_DayOfWeek = 1, in_Start = utc (9 * 3600 * Second), in_End = utc (17 * 3600 * Second)\<rparr>],
     ci_Targets = [\<lparr>ti_PhoneNumber = ''+15550101'', ti_Payload = None\<rparr>]\<rparr>"

lemma sample_phones: "phones_of 1 sample_world = {''+15550100''}"
proof -
  have "tg_campaign_id sample_target = 1" "tg_phone_number sample_target = ''+15550100''"
    by (simp_all add: sample_target_def)
  then have "targets_of 1 sample_world = {sample_target}"
    by (auto simp: targets_of_def sample_world_def)
  then show ?thesis
    by (simp add: phones_of_def sample_target_def)
qed

lemma sample_fresh: "fresh_uuids sample_env 2 sample_world"
  by (simp add: fresh_uuids_def sample_defs upt_rec atLeastLessThanSuc)

lemma sample_create:
  "\<exists>c w'. campaign_Create sample_env sample_zones 10 sample_input sample_world = (Inr c, w')"
proof -
  have "\<not> isl (fst (campaign_Create sample_env sample_zones 10 sample_input sample_world))"
    by code_simp
  then show ?thesis
    by (metis prod.collapse sum.collapse(2))
qed

lemma sample_names: "names_unique sample_env sample_world"
  by (simp add: names_unique_def name_taken_def sample_world_def)

lemma sample_found: "find_campaign 1 sample_world = Some sample_row"
  by (simp add: find_campaign_def sample_world_def sample_row_def)

abbreviation sample_done :: world where
  "sample_done \<equiv> sample_world\<lparr>w_campaigns := [sample_row\<lparr>r_status := CampaignStatusCompleted, r_started_at := Some (utc 1), r_completed_at := Some (utc 2)\<rparr>]\<rparr>"

lemma sample_done_wf: "pg_wf sample_done"
  by (simp add: pg_wf_def sample_defs campaign_checks_def int32_def zero_stats_def stats_in_range_def int64_def)

lemma sample_done_names: "names_unique sample_env sample_done"
  by (simp add: names_unique_def name_taken_def)

lemma sample_done_found:
  "find_campaign 1 sample_done = Some (sample_row\<lparr>r_status := CampaignStatusCompleted, r_started_at := Some (utc 1), r_completed_at := Some (utc 2)\<rparr>)"
  by (simp add: find_campaign_def sample_row_def)

text \<open>Open from 22:00 to 06:00.\<close>

definition night_input :: CreateCampaignInput where
  "night_input = sample_input\<lparr>ci_BusinessHours :=
     [\<lparr>in_DayOfWeek = 1, in_Start = utc (22 * 3600 * Second), in_End = utc (6 * 3600 * Second)\<rparr>]\<rparr>"

abbreviation night_b :: BusinessHourWindow where
  "night_b \<equiv> \<lparr>DayOfWeek = 1, Start = utc (22 * 3600 * Second), End = utc (6 * 3600 * Second)\<rparr>"

lemma night_valid: "validateCreateInput sample_zones night_input = None"
  by code_simp

lemma night_window: "night_b \<in> set (toDomainBusinessHours (ci_BusinessHours night_input))"
  by (simp add: night_input_def toDomainBusinessHours_def)

lemma night_spans: "minute_of_day (End night_b) \<le> minute_of_day (Start night_b)"
  by code_simp

lemma night_campaign:
  fixes c :: Campaign
  defines "c \<equiv> new_campaign 10 night_input (uuid_at sample_env (uuid_n sample_world))
     (utc (now_at sample_env (now_n sample_world)))"
  shows "c_ID c = 100" "c_ID c \<notin> r_id ` set (w_campaigns sample_world)" "campaign_checks (to_row c)"
    "\<not> name_taken sample_env (to_row c) (w_campaigns sample_world)"
  unfolding c_def by code_simp+

definition sample_update :: UpdateCampaignInput where
  "sample_update = \<lparr>ui_ID = 1, ui_Name = None, ui_Description = None, ui_MaxConcurrentCalls = Some 4,
     ui_RetryPolicy = None, ui_BusinessHours = Some (ci_BusinessHours sample_input)\<rparr>"

lemma sample_update_get:
  "\<exists>c w1 c' w2. campaign_Update sample_env 10 sample_update sample_world = (Inr c, w1)
     \<and> campaign_Get sample_env (c_ID c) w1 = (Inr c', w2)"
proof -
  have "case campaign_Update sample_env 10 sample_update sample_world of
      (Inr c, w1) \<Rightarrow> \<not> isl (fst (campaign_Get sample_env (c_ID c) w1)) | _ \<Rightarrow> False"
    by code_simp
  then obtain c w1 where u: "campaign_Update sample_env 10 sample_update sample_world = (Inr c, w1)"
      "\<not> isl (fst (campaign_Get sample_env (c_ID c) w1))"
    by (auto split: prod.splits sum.splits)
  then show ?thesis
    by (metis prod.collapse sum.collapse(2))
qed

subsection \<open>Properties\<close>

text \<open>Whatever sequence of service operations runs, and whatever requests fail or lose their
  reply on the way, the PostgreSQL tables stay well formed: unique ids, column constraints, no
  dangling references, counters in range.\<close>

theorem campaign_service_well_formed:
  assumes "pg_wf w"
  shows "pg_wf (campaign_runs e loc d ops w)"
  using assms unfolding campaign_runs_def
  by (induction ops arbitrary: w) (simp_all add: campaign_run_wf)

theorem campaign_service_well_formed_witness:
  "pg_wf sample_world \<and> pg_wf (campaign_runs sample_env sample_zones 10
     [OpStart 1, OpAddTargets 1 [\<lparr>ti_PhoneNumber = ''+15550100'', ti_Payload = None\<rparr>], OpPause 1] sample_world)"
  using campaign_service_well_formed [OF sample_world_wf] by simp

text \<open>C27: Every operation, with every request allowed to fail, moves the stored status of every
  campaign only along the life cycle: a creation adds a pending campaign, a start applies to a
  campaign that is not completed, pausing and completing apply to any, and no operation touches
  the status of another campaign.\<close>

theorem campaign_lifecycle:
  "lifecycle op i (status_at i w) (status_at i (campaign_run e loc d op w))"
  by (rule campaign_run_lifecycle)

text \<open>A completed campaign stays completed through any sequence of operations in which it is
  not paused.\<close>

theorem completed_until_paused:
  assumes "status_at i w = Some CampaignStatusCompleted" "OpPause i \<notin> set ops"
  shows "status_at i (campaign_runs e loc d ops w) = Some CampaignStatusCompleted"
  using assms unfolding campaign_runs_def
proof (induction ops arbitrary: w)
  case Nil
  then show ?case by simp
next
  case (Cons op ops)
  then have "status_at i (campaign_run e loc d op w) = Some CampaignStatusCompleted"
    by (intro completed_step) auto
  with Cons show ?case by simp
qed

theorem completed_until_paused_witness:
  "status_at 1 (campaign_runs sample_env sample_zones 10 [OpStart 1, OpComplete 1, OpPause 2]
     (sample_world\<lparr>w_campaigns := [sample_row\<lparr>r_status := CampaignStatusCompleted\<rparr>]\<rparr>))
     = Some CampaignStatusCompleted"
  using completed_until_paused [of 1 "sample_world\<lparr>w_campaigns := [sample_row\<lparr>r_status := CampaignStatusCompleted\<rparr>]\<rparr>"
      "[OpStart 1, OpComplete 1, OpPause 2]" sample_env sample_zones 10]
  by (simp add: status_at_def campaign_at_def find_campaign_def toDomain_def sample_row_def)

text \<open>C28: A creation that reports success has inserted the campaign under an id that was free,
  exactly its business hours, counters at zero, and one pending target per input in order, when
  the uuids drawn are new.\<close>

theorem create_stores_everything:
  assumes "campaign_Create e loc d input w = (Inr c, w')" "pg_wf w"
    and "fresh_uuids e (Suc (length (ci_Targets input))) w"
  shows "campaign_at (c_ID c) w = None \<and> campaign_at (c_ID c) w' = Some (stored c)
     \<and> hours_at (c_ID c) w' = mset (map window_key (toDomainBusinessHours (ci_BusinessHours input)))
     \<and> w_stats w' (c_ID c) = Some zero_stats
     \<and> (\<exists>rows. w_targets w' = w_targets w @ rows
          \<and> map tg_phone_number rows = map ti_PhoneNumber (ci_Targets input)
          \<and> (\<forall>r \<in> set rows. tg_campaign_id r = c_ID c \<and> tg_state r = ''pending''))"
  using Create_stores [OF assms] by blast

theorem create_stores_everything_witness:
  "\<exists>c w'. campaign_Create sample_env sample_zones 10 sample_input sample_world = (Inr c, w')
     \<and> w_stats w' (c_ID c) = Some zero_stats \<and> campaign_at (c_ID c) w' = Some (stored c)"
proof -
  obtain c w' where "campaign_Create sample_env sample_zones 10 sample_input sample_world = (Inr c, w')"
    using sample_create by blast
  moreover have "fresh_uuids sample_env (Suc (length (ci_Targets sample_input))) sample_world"
    using sample_fresh by (simp add: sample_input_def numeral_2_eq_2)
  ultimately show ?thesis
    using create_stores_everything [OF _ sample_world_wf] by blast
qed

text \<open>C29: Adding targets never extends the set of phone numbers a campaign may call.\<close>

theorem add_targets_only_registered:
  assumes "env_scans e"
  shows "phones_of i (snd (campaign_AddTargets e i ts w)) = phones_of i w"
  using AddTargets_only_registered [OF assms surjective_pairing] .

theorem add_targets_only_registered_witness:
  "phones_of 1 (snd (campaign_AddTargets sample_env 1
     [\<lparr>ti_PhoneNumber = ''+15550100'', ti_Payload = None\<rparr>] sample_world)) = {''+15550100''}"
  using add_targets_only_registered [OF sample_scans] by (simp add: sample_phones)

text \<open>Without faults, starting a stored campaign that is neither completed nor running succeeds;
  its row is then in progress with a start time.\<close>

theorem start_succeeds:
  assumes "no_faults e" "pg_wf w" "names_unique e w" "find_campaign i w = Some r"
    and "r_status r \<noteq> CampaignStatusCompleted" "r_status r \<noteq> CampaignStatusInProgress"
  shows "\<exists>w' r' t. campaign_Start e i w = (None, w') \<and> find_campaign i w' = Some r'
     \<and> r_status r' = CampaignStatusInProgress \<and> r_started_at r' = Some t"
  using Start_ok [OF assms] by blast

theorem start_succeeds_witness:
  "\<exists>w' r' t. campaign_Start sample_env 1 sample_world = (None, w') \<and> find_campaign 1 w' = Some r'
     \<and> r_status r' = CampaignStatusInProgress \<and> r_started_at r' = Some t"
  by (rule start_succeeds [OF sample_no_faults sample_world_wf sample_names sample_found])
    (simp_all add: sample_row_def campaign_statuses)

text \<open>A completed campaign can be put back in progress: pausing it succeeds, and then starting
  it succeeds, although a direct start is refused.\<close>

theorem completed_reopens_through_pause:
  assumes "no_faults e" "pg_wf w" "names_unique e w" "find_campaign i w = Some r"
    and "r_status r = CampaignStatusCompleted"
  shows "fst (campaign_Start e i w) = Some (New ''campaign service: cannot start completed campaign'')
    \<and> fst (campaign_Pause e i w) = None
    \<and> fst (campaign_Start e i (snd (campaign_Pause e i w))) = None
    \<and> status_at i (snd (campaign_Start e i (snd (campaign_Pause e i w)))) = Some CampaignStatusInProgress"
proof -
  have "fst (campaign_Start e i w) = Some (New ''campaign service: cannot start completed campaign'')"
    using assms by (simp add: campaign_Start_def Get_ok campaign_at_def toDomain_def campaign_statuses)
  moreover obtain w1 r1 where p: "campaign_Pause e i w = (None, w1)" "find_campaign i w1 = Some r1"
      "names_unique e w1" "r_status r1 = CampaignStatusPaused"
    using Pause_ok [OF assms(1-4)] by blast
  moreover have "pg_wf w1"
    using p(1) assms(2) lifecycle_wf(2) by blast
  moreover obtain w2 r2 where "campaign_Start e i w1 = (None, w2)" "find_campaign i w2 = Some r2"
      "r_status r2 = CampaignStatusInProgress"
    using Start_ok [OF assms(1) \<open>pg_wf w1\<close> p(3) p(2)] p(4) by (auto simp: campaign_statuses)
  ultimately show ?thesis
    by (simp add: status_at_def campaign_at_def toDomain_def)
qed

theorem completed_reopens_through_pause_witness:
  "status_at 1 (snd (campaign_Start sample_env 1 (snd (campaign_Pause sample_env 1
     sample_done))))
     = Some CampaignStatusInProgress"
  using completed_reopens_through_pause [OF sample_no_faults sample_done_wf sample_done_names sample_done_found]
  by simp

text \<open>Pausing a campaign erases the time it was started (and the time it was completed): the row
  is read without its time columns and written back with nulls.\<close>

theorem pause_erases_times:
  assumes "no_faults e" "pg_wf w" "names_unique e w" "find_campaign i w = Some r"
  shows "\<exists>r'. find_campaign i (snd (campaign_Pause e i w)) = Some r'
     \<and> r_started_at r' = None \<and> r_completed_at r' = None"
  using Pause_ok [OF assms] by auto

theorem pause_erases_times_witness:
  "\<exists>r'. find_campaign 1 (snd (campaign_Pause sample_env 1 sample_done)) = Some r'
     \<and> r_started_at r' = None \<and> r_completed_at r' = None"
  by (rule pause_erases_times [OF sample_no_faults sample_done_wf sample_done_names sample_done_found])

text \<open>C31: A creation with a business-hour window that closes at or before its opening minute (a window
  past midnight, which the validation accepts) always reports an error, and when nothing else
  fails it leaves the campaign stored without any business hours: the scheduler then takes it to
  be open at every time.\<close>

theorem midnight_window_half_created:
  assumes "no_faults e" "validateCreateInput loc input = None" "pg_wf w"
    and "b \<in> set (toDomainBusinessHours (ci_BusinessHours input))"
    and "minute_of_day (End b) \<le> minute_of_day (Start b)"
    and "c = new_campaign d input (uuid_at e (uuid_n w)) (utc (now_at e (now_n w)))"
    and "c_ID c \<notin> r_id ` set (w_campaigns w)" "campaign_checks (to_row c)"
    and "\<not> name_taken e (to_row c) (w_campaigns w)"
  shows "\<exists>err w'. campaign_Create e loc d input w = (Inl err, w')
     \<and> campaign_at (c_ID c) w' = Some (stored c) \<and> hours_at (c_ID c) w' = {#}
     \<and> (\<forall>t. isWithinBusinessHours loc t (stored c))"
proof -
  have "\<not> storable b"
    using assms(5) by (simp add: storable_def)
  then obtain err w' where w': "campaign_Create e loc d input w = (Inl err, w')"
      "same_store (w\<lparr>w_campaigns := w_campaigns w @ [to_row c]\<rparr>) w'"
    using Create_half [OF assms(1,2,4) _ assms(6-9)] by blast
  have "filter (\<lambda>h. h_campaign_id h = c_ID c) (w_hours w) = []"
    using assms(3,7) unfolding pg_wf_def hours_row_ok_def filter_empty_conv by metis
  then have "hours_at (c_ID c) w' = {#}"
    using w'(2) by (simp add: hours_at_def same_store_fields)
  moreover have "campaign_at (c_ID c) w' = Some (stored c)"
    using campaign_at_same [OF w'(2)] assms(7) by (simp add: campaign_at_append)
  moreover have "isWithinBusinessHours loc t (stored c)" for t
    by (simp add: isWithinBusinessHours_def stored_def toDomain_def)
  ultimately show ?thesis
    using w'(1) by blast
qed

theorem midnight_window_half_created_witness:
  "\<exists>err w'. campaign_Create sample_env sample_zones 10 night_input sample_world = (Inl err, w')
     \<and> hours_at 100 w' = {#}"
  using midnight_window_half_created [OF sample_no_faults night_valid sample_world_wf night_window night_spans refl, of 10]
    night_campaign by auto

text \<open>C30: Business hours survive storage: after an update of a campaign's hours that reports success,
  a read returns the same windows, each by its day and its two minutes, and every one of them
  opens before it closes on one day.\<close>

theorem hours_roundtrip:
  assumes "pg_wf w" "env_scans e" "ui_BusinessHours input = Some hs"
    and "campaign_Update e d input w = (Inr c, w1)" "campaign_Get e (c_ID c) w1 = (Inr c', w2)"
  shows "mset (map window_key (c_BusinessHours c')) = mset (map window_key (toDomainBusinessHours hs))
     \<and> (\<forall>b \<in> set (toDomainBusinessHours hs). storable b)"
proof -
  obtain wa where r: "BusinessHourRepository_Replace e (c_ID c) (toDomainBusinessHours hs) wa = (None, w1)"
    and "pg_wf wa"
    using assms(1,3,4)
    by (auto simp: campaign_Update_def Let_def split: prod.splits sum.splits option.splits
        dest!: wf_same Update_wf)
  obtain wb wsb where g: "same_store w1 wb" "BusinessHourRepository_List e (c_ID c) wb = (Inr wsb, w2)"
      "c_BusinessHours c' = wsb"
    using assms(5) by (auto simp: campaign_Get_def split: prod.splits sum.splits dest: Get_same)
  have "hours_at (c_ID c) wb = mset (map window_key (toDomainBusinessHours hs))"
    using hours.replace_done [OF r] hours_at_same [OF same_store_pg [OF g(1)]] by simp
  moreover have "pg_wf wb"
    using r \<open>pg_wf wa\<close> Replace_wf wf.I_same [OF g(1)] by blast
  then have "mset (map window_key wsb) = hours_at (c_ID c) wb"
    using hours.list_view [OF _ g(2)] assms(2) by (simp add: env_scans_def)
  moreover have "\<forall>b \<in> set (toDomainBusinessHours hs). storable b"
    using r by (cases rule: Replace_cases) simp_all
  ultimately show ?thesis using g(3) by simp
qed

theorem hours_roundtrip_witness:
  "\<exists>c w1 c' w2. campaign_Update sample_env 10 sample_update sample_world = (Inr c, w1)
     \<and> campaign_Get sample_env (c_ID c) w1 = (Inr c', w2)
     \<and> mset (map window_key (c_BusinessHours c')) = {#(1, 540, 1020)#}"
proof -
  obtain c w1 c' w2 where u: "campaign_Update sample_env 10 sample_update sample_world = (Inr c, w1)"
      "campaign_Get sample_env (c_ID c) w1 = (Inr c', w2)"
    using sample_update_get by blast
  have "ui_BusinessHours sample_update = Some (ci_BusinessHours sample_input)"
    by (simp add: sample_update_def)
  from hours_roundtrip [OF sample_world_wf sample_scans this u]
  have "mset (map window_key (c_BusinessHours c')) =
      mset (map window_key (toDomainBusinessHours (ci_BusinessHours sample_input)))"
    by blast
  also have "map window_key (toDomainBusinessHours (ci_BusinessHours sample_input)) = [(1, 540, 1020)]"
    by code_simp
  finally show ?thesis using u by auto
qed

text \<open>The normalised retry policy has a positive base delay that does not exceed the maximal delay
  and at least one attempt; it leaves alone every policy that already has these bounds.\<close>

theorem normalizeRetry_bounds:
  "0 < BaseDelay (normalizeRetry p) \<and> BaseDelay (normalizeRetry p) \<le> MaxDelay (normalizeRetry p)
   \<and> 0 < MaxAttempts (normalizeRetry p)
   \<and> normalizeRetry (normalizeRetry p) = normalizeRetry p
   \<and> Jitter (normalizeRetry p) = Jitter p
   \<and> BaseDelay (normalizeRetry p) = (if 0 < BaseDelay p then BaseDelay p else 2 * Second)
   \<and> MaxAttempts (normalizeRetry p) = (if 0 < MaxAttempts p then MaxAttempts p else 5)
   \<and> MaxDelay (normalizeRetry p) = max (BaseDelay (normalizeRetry p)) (if 0 < MaxDelay p then MaxDelay p else 2 * Minute_d)"
  by (auto simp: normalizeRetry_def Let_def Second_def Minute_d_def)

end
