(* ===== verification/Go_Float.thy ===== *)
theory Go_Float
  imports Prelude "HOL-Library.Log_Nat"
begin

text \<open>
  Arithmetic on \<open>float64\<close> values: a finite value is a rational, and an operation returns the
  exact result rounded to 53 binary digits, ties to even. Infinities and subnormal numbers are
  left out: the exponent is unbounded.
\<close>

subsection \<open>Rounding an integer multiple, ties to even\<close>

definition round_even :: "rat \<Rightarrow> int" where
  "round_even x =
     (let n = \<lfloor>x\<rfloor>; d = x - of_int n
      in if d < 1 / 2 then n else if 1 / 2 < d then n + 1 else if even n then n else n + 1)"

lemma round_even_int [simp]: "round_even (of_int n) = n"
  by (simp add: round_even_def)

lemma round_even_bounds: "\<lfloor>x\<rfloor> \<le> round_even x" "round_even x \<le> \<lfloor>x\<rfloor> + 1"
  by (auto simp: round_even_def Let_def)

lemma round_even_mono: "x \<le> y \<Longrightarrow> round_even x \<le> round_even y"
proof -
  assume xy: "x \<le> y"
  then consider "\<lfloor>x\<rfloor> = \<lfloor>y\<rfloor>" | "\<lfloor>x\<rfloor> < \<lfloor>y\<rfloor>"
    using floor_mono [OF xy] by linarith
  then show ?thesis
  proof cases
    case 1
    then show ?thesis using xy by (auto simp: round_even_def Let_def)
  next
    case 2
    then show ?thesis
      using round_even_bounds(2) [of x] round_even_bounds(1) [of y] by linarith
  qed
qed

subsection \<open>The binary exponent\<close>

definition exponent2 :: "rat \<Rightarrow> int" where
  "exponent2 x =
     (let (p, q) = quotient_of x; k = bitlen p - bitlen q
      in if 2 powi k \<le> x then k else k - 1)"

lemma bitlen_rat: "0 < (p::int) \<Longrightarrow> 2 powi (bitlen p - 1) \<le> (of_int p :: rat) \<and> (of_int p :: rat) < 2 powi bitlen p"
proof -
  assume p: "0 < p"
  have b: "0 < bitlen p" using p by (simp add: bitlen_eq_zero_iff order_less_le bitlen_nonneg)
  have "2 ^ nat (bitlen p - 1) \<le> p" "p < 2 ^ nat (bitlen p)"
    using bitlen_bounds [OF p] by simp_all
  then have "(of_int (2 ^ nat (bitlen p - 1)) :: rat) \<le> of_int p" "(of_int p :: rat) < of_int (2 ^ nat (bitlen p))"
    by (simp_all only: of_int_le_iff of_int_less_iff)
  then show ?thesis
    using b by (simp add: power_int_def)
qed

lemma exponent2_bounds:
  assumes "0 < x"
  shows "2 powi exponent2 x \<le> x" "x < 2 powi (exponent2 x + 1)"
proof -
  obtain p q where pq: "quotient_of x = (p, q)" by force
  have q: "0 < q" using quotient_of_denom_pos [OF pq] .
  have x: "x = of_int p / of_int q" using quotient_of_div [OF pq] .
  then have p: "0 < p" using assms q by (simp add: zero_less_divide_iff)
  let ?k = "bitlen p - bitlen q"
  have bp: "2 powi (bitlen p - 1) \<le> (of_int p :: rat)" "(of_int p :: rat) < 2 powi bitlen p"
    and bq: "2 powi (bitlen q - 1) \<le> (of_int q :: rat)" "(of_int q :: rat) < 2 powi bitlen q"
    using bitlen_rat [OF p] bitlen_rat [OF q] by auto
  have "2 powi (?k - 1) * of_int q \<le> 2 powi (?k - 1) * (2 powi bitlen q :: rat)"
    using bq by (intro mult_left_mono) simp_all
  also have "\<dots> = 2 powi (bitlen p - 1)"
    by (simp flip: power_int_add)
  finally have lo: "2 powi (?k - 1) \<le> x"
    using bp q x by (simp add: pos_le_divide_eq)
  have "(2 powi bitlen p :: rat) = 2 powi (?k + 1) * 2 powi (bitlen q - 1)"
    by (simp flip: power_int_add)
  also have "\<dots> \<le> 2 powi (?k + 1) * of_int q"
    using bq by (intro mult_left_mono) simp_all
  finally have hi: "x < 2 powi (?k + 1)"
    using bp q x by (simp add: pos_divide_less_eq)
  show "2 powi exponent2 x \<le> x" "x < 2 powi (exponent2 x + 1)"
    using lo hi pq by (auto simp: exponent2_def Let_def)
qed

lemma exponent2_mono:
  assumes "0 < x" "x \<le> y"
  shows "exponent2 x \<le> exponent2 y"
proof (rule ccontr)
  assume "\<not> ?thesis"
  then have "(2::rat) powi (exponent2 y + 1) \<le> 2 powi exponent2 x"
    by (intro power_int_increasing) simp_all
  then show False
    using exponent2_bounds(2) [of y] exponent2_bounds(1) [of x] assms by linarith
qed

subsection \<open>Rounding to 53 digits\<close>

definition unit_of :: "rat \<Rightarrow> rat" where
  "unit_of x = 2 powi (exponent2 \<bar>x\<bar> - 52)"

definition fl :: "rat \<Rightarrow> rat" where
  "fl x = (if x = 0 then 0 else of_int (round_even (x / unit_of x)) * unit_of x)"

lemma fl_0 [simp]: "fl 0 = 0"
  by (simp add: fl_def)

lemma unit_pos [simp]: "0 < unit_of x"
  by (simp add: unit_of_def)

lemma floor_minus_frac: "x \<noteq> of_int \<lfloor>x\<rfloor> \<Longrightarrow> \<lfloor>- x\<rfloor> = - \<lfloor>x\<rfloor> - 1" for x :: rat
  by (simp add: floor_minus ceiling_altdef)

lemma round_even_minus: "round_even (- x) = - round_even x"
proof (cases "x = of_int \<lfloor>x\<rfloor>")
  case True
  then show ?thesis by (metis of_int_minus round_even_int)
next
  case False
  have d: "- x - of_int \<lfloor>- x\<rfloor> = 1 - (x - of_int \<lfloor>x\<rfloor>)"
    using floor_minus_frac [OF False] by simp
  show ?thesis
    unfolding round_even_def Let_def d floor_minus_frac [OF False] by auto
qed

lemma fl_minus: "fl (- x) = - fl x"
  by (simp add: fl_def unit_of_def round_even_minus)

lemma unit_bounds:
  assumes "0 < x"
  shows "2 ^ 52 \<le> x / unit_of x" "x / unit_of x < 2 ^ 53"
proof -
  have "2 powi exponent2 x = 2 ^ 52 * unit_of x" "2 powi (exponent2 x + 1) = 2 ^ 53 * unit_of x"
    using assms by (simp_all add: unit_of_def power_int_diff power_int_add field_simps)
  with exponent2_bounds [OF assms] show "2 ^ 52 \<le> x / unit_of x" "x / unit_of x < 2 ^ 53"
    by (simp_all add: pos_le_divide_eq pos_divide_less_eq)
qed

lemma fl_bounds:
  assumes "0 < x"
  shows "2 ^ 52 \<le> round_even (x / unit_of x)" "round_even (x / unit_of x) \<le> 2 ^ 53"
proof -
  have "round_even (of_int (2 ^ 52)) \<le> round_even (x / unit_of x)"
    using unit_bounds(1) [OF assms] by (intro round_even_mono) simp
  then show "2 ^ 52 \<le> round_even (x / unit_of x)"
    by (simp only: round_even_int)
  have "round_even (x / unit_of x) \<le> round_even (of_int (2 ^ 53))"
    using unit_bounds(2) [OF assms] by (intro round_even_mono) simp
  then show "round_even (x / unit_of x) \<le> 2 ^ 53"
    by (simp only: round_even_int)
qed

lemma fl_pos: "0 < x \<Longrightarrow> 0 < fl x"
  using fl_bounds(1) [of x] by (auto simp: fl_def intro!: mult_pos_pos)

lemma fl_mono_pos:
  assumes "0 < x" "x \<le> y"
  shows "fl x \<le> fl y"
proof (cases "exponent2 x = exponent2 y")
  case True
  then have u: "unit_of y = unit_of x"
    using assms by (simp add: unit_of_def)
  have "round_even (x / unit_of x) \<le> round_even (y / unit_of x)"
    using assms by (intro round_even_mono divide_right_mono) (simp_all add: less_imp_le)
  then show ?thesis
    using assms u by (simp add: fl_def mult_right_mono less_imp_le)
next
  case False
  then have e: "exponent2 x + 1 \<le> exponent2 y"
    using exponent2_mono [OF assms] by simp
  have "fl x \<le> 2 ^ 53 * unit_of x"
    using assms(1) fl_bounds(2) [OF assms(1)]
    by (simp add: fl_def)
  also have "\<dots> = 2 powi (exponent2 x + 1)"
    using assms by (simp add: unit_of_def power_int_diff power_int_add field_simps)
  also have "\<dots> \<le> 2 powi exponent2 y"
    using e by (intro power_int_increasing) simp_all
  also have "\<dots> = 2 ^ 52 * unit_of y"
    using assms by (simp add: unit_of_def power_int_diff field_simps)
  also have "\<dots> \<le> fl y"
    using assms fl_bounds(1) [of y]
    by (auto simp: fl_def)
  finally show ?thesis .
qed

lemma fl_mono: "x \<le> y \<Longrightarrow> fl x \<le> fl y"
proof -
  assume xy: "x \<le> y"
  consider "0 < x" | "x \<le> 0" "0 \<le> y" | "y < 0" by linarith
  then show ?thesis
  proof cases
    case 1
    then show ?thesis using xy by (rule fl_mono_pos)
  next
    case 2
    then have "fl x \<le> 0" "0 \<le> fl y"
      using fl_pos [of "- x"] fl_pos [of y] fl_minus [of x] by (cases "x = 0"; cases "y = 0"; simp)+
    then show ?thesis by simp
  next
    case 3
    then have "fl (- y) \<le> fl (- x)" using xy by (intro fl_mono_pos) simp_all
    then show ?thesis by (simp add: fl_minus)
  qed
qed

subsection \<open>Values of 53 digits\<close>

definition representable :: "rat \<Rightarrow> bool" where
  "representable x \<longleftrightarrow> (\<exists>m k. \<bar>m\<bar> < 2 ^ 53 \<and> x = of_int m * 2 powi k)"

lemma fl_multiple:
  assumes "x = of_int n * unit_of x"
  shows "fl x = x"
proof (cases "x = 0")
  case False
  have "x / unit_of x = of_int n"
    using assms unit_pos [of x] by (metis less_irrefl nonzero_mult_div_cancel_right)
  then show ?thesis
    using False assms by (simp add: fl_def)
qed simp

lemma fl_exact_pos:
  assumes "0 < m" "m < 2 ^ 53" and x: "x = of_int m * 2 powi k"
  shows "fl x = x"
proof -
  define e where "e = exponent2 x"
  have pos: "0 < x" using assms(1) x by simp
  have "(of_int m :: rat) < 2 ^ 53"
    using assms(2) by (metis of_int_less_iff of_int_numeral of_int_power)
  then have "x < 2 ^ 53 * 2 powi k"
    unfolding x by (intro mult_strict_right_mono) simp_all
  then have lt: "x < 2 powi (53 + k)"
    by (simp add: power_int_add)
  have "e < 53 + k"
  proof (rule ccontr)
    assume "\<not> e < 53 + k"
    then have "(2::rat) powi (53 + k) \<le> 2 powi e"
      by (intro power_int_increasing) simp_all
    then show False
      using exponent2_bounds(1) [OF pos] lt unfolding e_def by linarith
  qed
  then have k: "k = int (nat (k - e + 52)) + (e - 52)"
    by simp
  have "2 powi k = (2 ^ nat (k - e + 52) * 2 powi (e - 52) :: rat)"
    by (subst k) (simp add: power_int_add del: of_nat_nat int_nat_eq)
  then have "x = of_int (m * 2 ^ nat (k - e + 52)) * unit_of x"
    using pos x by (simp add: unit_of_def e_def)
  then show ?thesis by (rule fl_multiple)
qed

lemma fl_representable: "representable x \<Longrightarrow> fl x = x"
proof -
  assume "representable x"
  then obtain m k where m: "\<bar>m\<bar> < 2 ^ 53" "x = of_int m * 2 powi k"
    by (auto simp: representable_def)
  consider "m = 0" | "0 < m" | "0 < - m" by linarith
  then show ?thesis
  proof cases
    case 3
    then have "fl (- x) = - x"
      using m by (intro fl_exact_pos [of "- m" _ k]) simp_all
    then show ?thesis using fl_minus [of x] by simp
  qed (use m fl_exact_pos in auto)
qed

lemma representable_minus: "representable x \<Longrightarrow> representable (- x)"
  unfolding representable_def by (metis abs_minus_cancel mult_minus_left of_int_minus)

lemma representable_half: "representable x \<Longrightarrow> representable (x / 2)"
proof -
  assume "representable x"
  then obtain m k where m: "\<bar>m\<bar> < 2 ^ 53" "x = of_int m * 2 powi k"
    by (auto simp: representable_def)
  have "x / 2 = of_int m * 2 powi (k - 1)"
    using m(2) by (simp add: power_int_diff)
  then show ?thesis using m(1) representable_def by blast
qed

lemma representable_int: "\<bar>i\<bar> < 2 ^ 53 \<Longrightarrow> representable (of_int i)"
  unfolding representable_def by (intro exI [of _ i] exI [of _ 0]) simp

subsection \<open>Conversion to a 64-bit integer\<close>

text \<open>Conversion truncates. The result for a value out of range depends on the implementation; it
  is the parameter \<open>oob\<close>.\<close>

definition trunc_rat :: "rat \<Rightarrow> int" where
  "trunc_rat x = (if 0 \<le> x then \<lfloor>x\<rfloor> else \<lceil>x\<rceil>)"

definition float_to_int64 :: "int \<Rightarrow> rat \<Rightarrow> int" where
  "float_to_int64 oob x = (if int64 (trunc_rat x) then trunc_rat x else oob)"

text \<open>\<open>math.Pow(2, float64(k))\<close> as a 64-bit integer: a negative power truncates to zero, a power
  from \<open>2^63\<close> on (or an infinity) is out of range.\<close>

definition pow2_int64 :: "int \<Rightarrow> int \<Rightarrow> int" where
  "pow2_int64 oob k = (if k < 0 then 0 else if k < 63 then 2 ^ nat k else oob)"

lemma trunc_rat_bounds: "- of_int b \<le> x \<Longrightarrow> x \<le> of_int b \<Longrightarrow> - b \<le> trunc_rat x \<and> trunc_rat x \<le> b"
  by (auto simp: trunc_rat_def le_floor_iff floor_le_iff ceiling_le_iff le_ceiling_iff)

end
