(* ===== verification/Go_Duration.thy ===== *)
theory Go_Duration
  imports Go_Time Go_Float
begin

text \<open>
  Go's textual durations, which the API uses for the delays of a retry policy:
  \<open>time.ParseDuration\<close> and \<open>Duration.String\<close> of the standard library, with the 64-bit
  bounds of the former and the floating-point arithmetic of its fractions. Strings are their
  UTF-8 bytes. The text of a parse error is not used by the sources, so an error is \<open>None\<close>.

  The main lemma: every 64-bit duration survives printing and parsing.
\<close>

definition dval :: "int \<Rightarrow> string \<Rightarrow> int" where
  "dval x ds = foldl (\<lambda>acc c. acc * 10 + digit_val c) x ds"

subsection \<open>Parsing\<close>

fun leadingInt :: "int \<Rightarrow> string \<Rightarrow> (int \<times> string) option" where
  "leadingInt x [] = Some (x, [])"
| "leadingInt x (c # s) =
     (if \<not> is_digit c then Some (x, c # s)
      else if 2 ^ 63 div 10 < x then None
      else (let y = x * 10 + digit_val c in if 2 ^ 63 < y then None else leadingInt y s))"

fun leadingFraction :: "int \<Rightarrow> rat \<Rightarrow> bool \<Rightarrow> string \<Rightarrow> int \<times> rat \<times> string" where
  "leadingFraction x scale overflow [] = (x, scale, [])"
| "leadingFraction x scale overflow (c # s) =
     (if \<not> is_digit c then (x, scale, c # s)
      else if overflow then leadingFraction x scale overflow s
      else if (2 ^ 63 - 1) div 10 < x then leadingFraction x scale True s
      else (let y = x * 10 + digit_val c
            in if 2 ^ 63 < y then leadingFraction x scale True s
               else leadingFraction y (fl (scale * 10)) overflow s))"

definition micro :: string where
  "micro = [CHR 0xC2, CHR 0xB5]"

definition unitMap :: "string \<Rightarrow> int option" where
  "unitMap u =
     (if u = ''ns'' then Some 1
      else if u = ''us'' then Some 1000
      else if u = micro @ ''s'' then Some 1000
      else if u = [CHR 0xCE, CHR 0xBC] @ ''s'' then Some 1000
      else if u = ''ms'' then Some 1000000
      else if u = ''s'' then Some 1000000000
      else if u = ''m'' then Some 60000000000
      else if u = ''h'' then Some 3600000000000 else None)"

definition unit_char :: "char \<Rightarrow> bool" where
  "unit_char c \<longleftrightarrow> c \<noteq> CHR ''.'' \<and> \<not> is_digit c"

text \<open>The optional fraction: its digits as a number, its scale, the rest, and whether it had digits.\<close>

definition parse_fraction :: "string \<Rightarrow> int \<times> rat \<times> string \<times> bool" where
  "parse_fraction s =
     (if s \<noteq> [] \<and> hd s = CHR ''.''
      then (case leadingFraction 0 1 False (tl s) of
              (f, scale, s') \<Rightarrow> (f, scale, s', length (tl s) \<noteq> length s'))
      else (0, 1, s, False))"

text \<open>The unit and the nanoseconds: the rest of the text begins with a digit or a dot.\<close>

definition parse_unit :: "int \<Rightarrow> int \<Rightarrow> rat \<Rightarrow> string \<Rightarrow> (int \<times> string) option" where
  "parse_unit v f scale s =
     (let u = takeWhile unit_char s
      in if u = [] then None
         else (case unitMap u of
                 None \<Rightarrow> None
               | Some unit \<Rightarrow>
                   if 2 ^ 63 div unit < v then None
                   else (let v1 = v * unit;
                             v2 = (if 0 < f then v1 + trunc_rat (fl (fl (of_int f) * fl (fl (of_int unit) / scale))) else v1)
                         in if 0 < f \<and> 2 ^ 63 < v2 then None else Some (v2, dropWhile unit_char s))))"

text \<open>One number with its unit: its nanoseconds and the rest of the text.\<close>

definition parse_one :: "string \<Rightarrow> (int \<times> string) option" where
  "parse_one s =
     (if \<not> (hd s = CHR ''.'' \<or> is_digit (hd s)) then None
      else (case leadingInt 0 s of
              None \<Rightarrow> None
            | Some (v, s1) \<Rightarrow>
                (case parse_fraction s1 of (f, scale, s2, post) \<Rightarrow>
                   if length s = length s1 \<and> \<not> post then None else parse_unit v f scale s2)))"

lemma leadingInt_length: "leadingInt x s = Some (v, s') \<Longrightarrow> length s' \<le> length s"
  by (induction x s rule: leadingInt.induct) (auto simp: Let_def split: if_splits)

lemma leadingFraction_length: "leadingFraction x sc b s = (f, sc', s') \<Longrightarrow> length s' \<le> length s"
  by (induction x sc b s rule: leadingFraction.induct) (auto simp: Let_def split: if_splits)

lemma dropWhile_shorter: "takeWhile P s \<noteq> [] \<Longrightarrow> length (dropWhile P s) < length s"
  by (cases s) (auto simp: le_imp_less_Suc length_dropWhile_le split: if_splits)

lemma parse_unit_length: "parse_unit v f sc s = Some (v', rest) \<Longrightarrow> length rest < length s"
  by (auto simp: parse_unit_def Let_def dropWhile_shorter split: if_splits option.splits)

lemma parse_fraction_length: "parse_fraction s = (f, sc, s', p) \<Longrightarrow> length s' \<le> length s"
  by (auto simp: parse_fraction_def split: if_splits prod.splits dest!: leadingFraction_length)

lemma parse_one_length: "parse_one s = Some (v, rest) \<Longrightarrow> length rest < length s"
  by (auto simp: parse_one_def split: if_splits option.splits prod.splits
      dest!: parse_unit_length leadingInt_length parse_fraction_length)

function parse_loop :: "int \<Rightarrow> string \<Rightarrow> int option" where
  "parse_loop d s =
     (if s = [] then Some d
      else (case parse_one s of
              None \<Rightarrow> None
            | Some (v, rest) \<Rightarrow>
                (let d' = (d + v) mod 2 ^ 64 in if 2 ^ 63 < d' then None else parse_loop d' rest)))"
  by pat_completeness auto
termination
  by (relation "measure (\<lambda>(d, s). length s)") (auto dest: parse_one_length)

declare parse_loop.simps [simp del]

definition ParseDuration :: "string \<Rightarrow> int option" where
  "ParseDuration orig =
     (let neg = (orig \<noteq> [] \<and> hd orig = CHR ''-'');
          s = (if orig \<noteq> [] \<and> (hd orig = CHR ''-'' \<or> hd orig = CHR ''+'') then tl orig else orig)
      in if s = ''0'' then Some 0
         else if s = [] then None
         else (case parse_loop 0 s of
                 None \<Rightarrow> None
               | Some d \<Rightarrow> if neg then Some (wrap64 (- wrap64 d))
                           else if 2 ^ 63 - 1 < d then None else Some d))"

subsection \<open>Printing\<close>

fun fmtFrac :: "nat \<Rightarrow> bool \<Rightarrow> int \<Rightarrow> string \<Rightarrow> string \<times> int" where
  "fmtFrac 0 print v acc = ((if print then CHR ''.'' # acc else acc), v)"
| "fmtFrac (Suc n) print v acc =
     (let digit = v mod 10; print' = (print \<or> digit \<noteq> 0)
      in fmtFrac n print' (v div 10) (if print' then digit_char digit # acc else acc))"

definition fmtInt :: "int \<Rightarrow> string" where
  "fmtInt v = show_nat (nat v)"

definition Duration_String :: "int \<Rightarrow> string" where
  "Duration_String d =
     (let u = \<bar>d\<bar>;
          body = (if u < Second
                  then if u = 0 then ''0s''
                       else (let (prec, unit) = (if u < 1000 then (0, ''n'') else if u < Millisecond then (3, micro) else (6, ''m''));
                                 (fr, q) = fmtFrac prec False u []
                             in fmtInt q @ fr @ unit @ ''s'')
                  else (let (fr, secs) = fmtFrac 9 False u [];
                            mins = secs div 60;
                            hours = mins div 60
                        in (if 0 < mins then (if 0 < hours then fmtInt hours @ ''h'' else []) @ fmtInt (mins mod 60) @ ''m'' else [])
                           @ fmtInt (secs mod 60) @ fr @ ''s''))
      in if d < 0 then ''-'' @ body else body)"


subsection \<open>Digits\<close>

lemma digit_val_bounds: "is_digit c \<Longrightarrow> 0 \<le> digit_val c \<and> digit_val c \<le> 9"
  by (simp add: is_digit_def digit_val_def)

lemma dval_Nil [simp]: "dval x [] = x"
  by (simp add: dval_def)

lemma dval_Cons [simp]: "dval x (c # ds) = dval (x * 10 + digit_val c) ds"
  by (simp add: dval_def)

lemma dval_append: "dval x (ds @ es) = dval (dval x ds) es"
  by (simp add: dval_def)

lemma dval_read: "dval 0 ds = read_digits ds"
  by (simp add: dval_def read_digits_def)

lemma dval_mono: "list_all is_digit ds \<Longrightarrow> 0 \<le> x \<Longrightarrow> x \<le> dval x ds"
proof (induction ds arbitrary: x)
  case (Cons c ds)
  have d: "0 \<le> digit_val c"
    using Cons.prems(1) digit_val_bounds by simp
  then have "x \<le> x * 10 + digit_val c" "0 \<le> x * 10 + digit_val c"
    using Cons.prems(2) by simp_all
  moreover have "x * 10 + digit_val c \<le> dval (x * 10 + digit_val c) ds"
    using Cons d by simp
  ultimately show ?case
    by simp
qed simp

lemma show_nat_digits: "list_all is_digit (show_nat n)" "show_nat n \<noteq> []"
proof (induction n rule: show_nat.induct)
  case (1 n)
  {
    case 1
    then show ?case
      using "1.IH" by (subst show_nat.simps) (simp add: digit_char_digit)
  next
    case 2
    then show ?case by (subst show_nat.simps) simp
  }
qed

lemma is_digit_dot [simp]: "\<not> is_digit CHR ''.''"
  by (simp add: is_digit_def)

text \<open>A text whose first character is no digit.\<close>

definition no_digit :: "string \<Rightarrow> bool" where
  "no_digit s \<longleftrightarrow> (s \<noteq> [] \<longrightarrow> \<not> is_digit (hd s))"

lemma leadingInt_stop: "no_digit s \<Longrightarrow> leadingInt x s = Some (x, s)"
  by (cases s) (auto simp: no_digit_def)

lemma leadingInt_digits:
  assumes "list_all is_digit ds" "0 \<le> x" "dval x ds \<le> 2 ^ 63" "no_digit rest"
  shows "leadingInt x (ds @ rest) = Some (dval x ds, rest)"
  using assms
proof (induction ds arbitrary: x)
  case Nil
  then show ?case by (simp add: leadingInt_stop)
next
  case (Cons c ds)
  let ?y = "x * 10 + digit_val c"
  have d: "is_digit c" "0 \<le> digit_val c"
    using Cons.prems(1) digit_val_bounds by auto
  then have y: "?y \<le> 2 ^ 63" "0 \<le> ?y"
    using dval_mono [of ds ?y] Cons.prems by auto
  then have "\<not> 2 ^ 63 div 10 < x"
    using d(2) by auto
  then show ?case
    using Cons d y by (simp add: Let_def)
qed

lemma fl_ten: "k \<le> 15 \<Longrightarrow> fl (10 ^ k) = 10 ^ k"
proof -
  assume "k \<le> 15"
  then have "(10::int) ^ k \<le> 10 ^ 15"
    by (intro power_increasing) simp_all
  then have "\<bar>(10::int) ^ k\<bar> < 2 ^ 53"
    by simp
  then have "representable (of_int (10 ^ k))"
    by (rule representable_int)
  then show ?thesis
    using fl_representable by fastforce
qed

lemma leadingFraction_digits:
  assumes "list_all is_digit ds" "0 \<le> x" "dval x ds < 10 ^ 9" "no_digit rest" "k + length ds \<le> 9"
  shows "leadingFraction x (10 ^ k) False (ds @ rest) = (dval x ds, 10 ^ (k + length ds), rest)"
  using assms
proof (induction ds arbitrary: x k)
  case Nil
  then show ?case by (cases rest) (simp_all add: no_digit_def)
next
  case (Cons c ds)
  let ?y = "x * 10 + digit_val c"
  have d: "is_digit c" "0 \<le> digit_val c"
    using Cons.prems(1) digit_val_bounds by auto
  then have y: "?y < 10 ^ 9" "0 \<le> ?y"
    using dval_mono [of ds ?y] Cons.prems by auto
  have "fl (10 ^ k * 10) = 10 ^ Suc k"
    using fl_ten [of "Suc k"] Cons.prems(5) by (simp add: mult.commute)
  moreover have "leadingFraction ?y (10 ^ Suc k) False (ds @ rest) = (dval ?y ds, 10 ^ (Suc k + length ds), rest)"
    using Cons y by (intro Cons.IH) simp_all
  moreover have "\<not> (2 ^ 63 - 1) div 10 < x" "\<not> 2 ^ 63 < ?y"
    using y d(2) Cons.prems(2) by simp_all
  ultimately show ?case
    using d(1) by (simp add: Let_def)
qed

subsection \<open>Fractions\<close>

text \<open>The last \<open>n\<close> digits of a number.\<close>

fun low_digits :: "nat \<Rightarrow> int \<Rightarrow> string" where
  "low_digits 0 v = []"
| "low_digits (Suc n) v = low_digits n (v div 10) @ [digit_char (v mod 10)]"

lemma low_digits_facts:
  "list_all is_digit (low_digits n v)" "length (low_digits n v) = n"
  by (induction n v rule: low_digits.induct) (simp_all add: digit_char_digit)

lemma mod_Suc_ten: "(v::int) mod 10 ^ Suc n = (v div 10) mod 10 ^ n * 10 + v mod 10"
  by (simp add: zmod_zmult2_eq)

lemma dval_low: "dval x (low_digits n v) = x * 10 ^ n + v mod 10 ^ n"
proof (induction n v rule: low_digits.induct)
  case (2 n v)
  then show ?case
    by (simp add: dval_append digit_val_char mod_Suc_ten del: power_Suc) (simp add: algebra_simps)
qed simp

lemma div_Suc_ten: "(v::int) div 10 ^ Suc n = v div 10 div 10 ^ n"
  by (simp add: zdiv_zmult2_eq)

lemma fmtFrac_print: "fmtFrac n True v acc = (CHR ''.'' # low_digits n v @ acc, v div 10 ^ n)"
  by (induction n arbitrary: v acc) (simp_all add: Let_def div_Suc_ten del: power_Suc)

text \<open>The fraction that is printed: empty when the digits are all zero, otherwise a dot and at
  most \<open>n\<close> digits with the same value.\<close>

lemma fmtFrac_value:
  obtains (none) "fmtFrac n False v [] = ([], v div 10 ^ n)" "v mod 10 ^ n = 0"
  | (some) ds k where "fmtFrac n False v [] = (CHR ''.'' # ds, v div 10 ^ n)" "list_all is_digit ds" "ds \<noteq> []"
      "length ds + k = n" "dval 0 ds * 10 ^ k = v mod 10 ^ n" "0 < v mod 10 ^ n"
proof (induction n arbitrary: v thesis)
  case 0
  then show ?case by simp
next
  case (Suc n)
  show ?case
  proof (cases "v mod 10 = 0")
    case True
    then have eq: "fmtFrac (Suc n) False v [] = fmtFrac n False (v div 10) []"
      by simp
    show ?thesis
    proof (rule Suc.IH [of "v div 10"])
      assume "fmtFrac n False (v div 10) [] = ([], v div 10 div 10 ^ n)" "v div 10 mod 10 ^ n = 0"
      then show ?thesis
        using Suc.prems(1) eq True by (simp add: mod_Suc_ten div_Suc_ten del: power_Suc)
    next
      fix ds k
      assume d: "fmtFrac n False (v div 10) [] = (CHR ''.'' # ds, v div 10 div 10 ^ n)" "list_all is_digit ds" "ds \<noteq> []"
        "length ds + k = n" "dval 0 ds * 10 ^ k = v div 10 mod 10 ^ n" "0 < v div 10 mod 10 ^ n"
      show ?thesis
        by (rule Suc.prems(2) [of ds "Suc k"])
          (use d eq True in \<open>simp_all add: mod_Suc_ten div_Suc_ten del: power_Suc\<close>, simp add: algebra_simps)
    qed
  next
    case False
    let ?ds = "low_digits n (v div 10) @ [digit_char (v mod 10)]"
    have f: "fmtFrac (Suc n) False v [] = (CHR ''.'' # ?ds, v div 10 ^ Suc n)"
      using False by (simp add: fmtFrac_print div_Suc_ten del: power_Suc)
    have v: "dval 0 ?ds = v mod 10 ^ Suc n"
      using dval_low [of 0 "Suc n" v] by (simp del: power_Suc)
    have pos: "0 < v mod 10 ^ Suc n"
    proof -
      have "0 \<le> v mod 10" "0 \<le> v div 10 mod 10 ^ n" by simp_all
      with False show ?thesis unfolding mod_Suc_ten by linarith
    qed
    have d: "list_all is_digit ?ds" "?ds \<noteq> []" "length ?ds + 0 = Suc n"
      using low_digits_facts [of n "v div 10"] digit_char_digit [of "v mod 10"] by simp_all
    show ?thesis
      by (rule Suc.prems(2) [OF f d _ pos]) (simp only: v power_0 mult_1_right)
  qed
qed


subsection \<open>Printed durations read back\<close>

lemma unit_char_letters [simp]:
  "unit_char CHR ''n''" "unit_char CHR ''m''" "unit_char CHR ''s''" "unit_char CHR ''h''"
  "unit_char CHR 0xC2" "unit_char CHR 0xB5"
  by (simp_all add: unit_char_def is_digit_def)

definition starts_number :: "string \<Rightarrow> bool" where
  "starts_number s \<longleftrightarrow> (s \<noteq> [] \<longrightarrow> is_digit (hd s))"

lemma unit_split:
  assumes "list_all unit_char u" "starts_number rest"
  shows "takeWhile unit_char (u @ rest) = u" "dropWhile unit_char (u @ rest) = rest"
proof -
  have "takeWhile unit_char rest = []" "dropWhile unit_char rest = rest"
    using assms(2) by (cases rest; simp add: starts_number_def unit_char_def)+
  moreover have "\<And>x. x \<in> set u \<Longrightarrow> unit_char x"
    using assms(1) by (simp add: list_all_iff)
  ultimately show "takeWhile unit_char (u @ rest) = u" "dropWhile unit_char (u @ rest) = rest"
    by (simp_all add: takeWhile_append2 dropWhile_append2)
qed

lemma unit_no_digit: "list_all unit_char u \<Longrightarrow> u \<noteq> [] \<Longrightarrow> no_digit (u @ rest) \<and> hd (u @ rest) \<noteq> CHR ''.''"
  by (cases u) (auto simp: no_digit_def unit_char_def)

text \<open>The floating-point product of a fraction is exact.\<close>

lemma fraction_exact:
  assumes "0 \<le> f" "f * 10 ^ k < 10 ^ 9" "n + k \<le> 9"
  shows "trunc_rat (fl (fl (of_int f) * fl (fl (of_int (10 ^ (n + k))) / 10 ^ n))) = f * 10 ^ k"
proof -
  have "f \<le> f * 10 ^ k"
    using assms(1) by (simp add: mult_le_cancel_left1)
  then have f: "fl (of_int f) = of_int f" and p: "fl (of_int (f * 10 ^ k)) = of_int (f * 10 ^ k)"
    using assms by (intro fl_representable representable_int; simp)+
  have t: "fl (10 ^ (n + k)) = 10 ^ (n + k)" "fl (10 ^ k) = 10 ^ k"
    using assms(3) by (intro fl_ten; simp)+
  have "(10::rat) ^ (n + k) / 10 ^ n = 10 ^ k"
    by (simp add: power_add)
  then have "fl (fl (of_int f) * fl (fl (of_int (10 ^ (n + k))) / 10 ^ n)) = of_int (f * 10 ^ k)"
    using f p t by simp
  moreover have "trunc_rat (of_int i) = i" for i
    unfolding trunc_rat_def by simp
  ultimately show ?thesis by (simp only:)
qed

lemma le_div: "0 < b \<Longrightarrow> a * b \<le> c \<Longrightarrow> a \<le> c div b" for a b c :: int
  using zdiv_mono1 [of "a * b" c b] by simp

lemma div_le: "0 < b \<Longrightarrow> 0 \<le> c \<Longrightarrow> c div b \<le> c" for b c :: int
  using zdiv_mono2 [of c 1 b] by simp

text \<open>One printed number, with or without a fraction, reads back.\<close>

lemma leadingInt_fmtInt:
  assumes "0 \<le> q" "q * unit \<le> 2 ^ 63" "0 < unit" "no_digit s"
  shows "q \<le> 2 ^ 63 div unit" "leadingInt 0 (fmtInt q @ s) = Some (q, s)"
proof -
  show q: "q \<le> 2 ^ 63 div unit"
    using le_div [OF assms(3,2)] .
  also have "\<dots> \<le> 2 ^ 63"
    using assms(3) by (intro div_le) simp_all
  finally have "q \<le> 2 ^ 63" .
  moreover have "dval 0 (fmtInt q) = q"
    using assms(1) by (simp add: dval_read fmtInt_def read_show_nat)
  ultimately show "leadingInt 0 (fmtInt q @ s) = Some (q, s)"
    using leadingInt_digits [of "fmtInt q" 0 s] show_nat_digits(1) assms(4) by (simp add: fmtInt_def)
qed

lemma parse_int_unit:
  assumes "0 \<le> q" "list_all unit_char u" "unitMap u = Some unit" "0 < unit" "q * unit \<le> 2 ^ 63" "starts_number rest"
  shows "parse_one (fmtInt q @ u @ rest) = Some (q * unit, rest)"
proof -
  have u: "u \<noteq> []"
    using assms(3) by (auto simp: unitMap_def micro_def)
  note nd = unit_no_digit [OF assms(2) u, of rest]
  note l = leadingInt_fmtInt [OF assms(1,5,4) nd [THEN conjunct1]]
  have f: "parse_fraction (u @ rest) = (0, 1, u @ rest, False)"
    using nd by (simp add: parse_fraction_def)
  have h: "is_digit (hd (fmtInt q @ u @ rest))" "fmtInt q \<noteq> []"
    using show_nat_digits [of "nat q"] by (simp_all add: fmtInt_def list_all_iff)
  show ?thesis
    using h l f u unit_split [OF assms(2,6)] assms(3) by (simp add: parse_one_def parse_unit_def)
qed

text \<open>The digits of a fraction of at most nine places, read as an integer.\<close>

lemma fraction_digits:
  assumes "list_all is_digit ds" "dval 0 ds * 10 ^ k = v mod 10 ^ n" "0 < v mod 10 ^ n" "n \<le> 9"
  shows "0 < dval 0 ds" "dval 0 ds < 10 ^ 9" "dval 0 ds * 10 ^ k < 10 ^ 9"
proof -
  have f0: "0 \<le> dval 0 ds" using dval_mono [OF assms(1)] by simp
  then show "0 < dval 0 ds"
    using assms(2,3) by (cases "dval 0 ds = 0") auto
  have "(10::int) ^ n \<le> 10 ^ 9"
    using assms(4) by (intro power_increasing) simp_all
  moreover have "v mod 10 ^ n < 10 ^ n" by simp
  ultimately show f9: "dval 0 ds * 10 ^ k < 10 ^ 9"
    using assms(2) by linarith
  have "dval 0 ds \<le> dval 0 ds * 10 ^ k" using f0 by (simp add: mult_le_cancel_left1)
  then show "dval 0 ds < 10 ^ 9" using f9 by linarith
qed

lemma parse_frac_unit:
  assumes "0 \<le> q" "list_all unit_char u" "unitMap u = Some (10 ^ n)" "n \<le> 9" "v div 10 ^ n = q" "0 \<le> v" "v \<le> 2 ^ 63"
    and "fmtFrac n False v [] = (fr, q)"
  shows "parse_one (fmtInt q @ fr @ u) = Some (v, [])"
proof (cases rule: fmtFrac_value [of n v, case_names none some])
  case none
  then have "v = q * 10 ^ n" "fr = []"
    using assms(5,8) by (auto simp: mod_eq_0_iff_dvd)
  then show ?thesis
    using parse_int_unit [OF assms(1-3), of "[]"] assms(7) by (simp add: starts_number_def)
next
  case (some ds k)
  have fr: "fr = CHR ''.'' # ds" using some(1) assms(8) by simp
  have u: "u \<noteq> []"
    using assms(3) by (auto simp: unitMap_def micro_def)
  note nd = unit_no_digit [OF assms(2) u, of "[]"]
  have v: "v = q * 10 ^ n + dval 0 ds * 10 ^ k"
    using some(5) assms(5) by (metis div_mult_mod_eq)
  note fr_b = fraction_digits [OF some(2,5,6) assms(4)]
  then have "0 \<le> dval 0 ds * 10 ^ k" by simp
  then have qn: "q * 10 ^ n \<le> 2 ^ 63" using v assms(7) by linarith
  have "no_digit (CHR ''.'' # ds @ u)" by (simp add: no_digit_def)
  note l = leadingInt_fmtInt [OF assms(1) qn _ this]
  have "leadingFraction 0 (10 ^ 0) False (ds @ u) = (dval 0 ds, 10 ^ (0 + length ds), u)"
    using some(2,4) fr_b nd assms(4) by (intro leadingFraction_digits) simp_all
  then have f: "parse_fraction (CHR ''.'' # ds @ u) = (dval 0 ds, 10 ^ length ds, u, True)"
    using some(3) by (simp add: parse_fraction_def)
  have x: "trunc_rat (fl (fl (of_int (dval 0 ds)) * fl (fl (of_int (10 ^ n)) / 10 ^ length ds))) = dval 0 ds * 10 ^ k"
    using fraction_exact [OF less_imp_le [OF fr_b(1)] fr_b(3), of "length ds"] some(4) assms(4) by simp
  have h: "is_digit (hd (fmtInt q @ fr @ u))"
    using show_nat_digits [of "nat q"] by (simp add: fmtInt_def list_all_iff)
  have tw: "takeWhile unit_char u = u" "dropWhile unit_char u = []"
    using unit_split [OF assms(2), of "[]"] by (simp_all only: starts_number_def append_Nil2) simp_all
  have "parse_unit q (dval 0 ds) (10 ^ length ds) u = Some (v, [])"
    using u l(1) assms(3,7) x v fr_b(1) by (simp add: parse_unit_def tw Let_def)
  then show ?thesis
    using h l f by (simp add: parse_one_def fr)
qed


text \<open>The loop over the printed numbers, and the two shapes of a printed duration.\<close>

lemma parse_loop_step:
  assumes "parse_one s = Some (v, rest)" "s \<noteq> []" "0 \<le> d" "0 \<le> v" "d + v \<le> 2 ^ 63"
  shows "parse_loop d s = parse_loop (d + v) rest"
  using assms by (simp add: parse_loop.simps [of d s] Let_def)

lemma parse_loop_Nil [simp]: "parse_loop d [] = Some d"
  by (subst parse_loop.simps) simp

lemma fmtInt_starts [simp]: "starts_number (fmtInt q @ s)" "fmtInt q \<noteq> []"
  using show_nat_digits [of "nat q"] by (simp_all add: fmtInt_def starts_number_def list_all_iff)

lemma fmtFrac_div: "fmtFrac n False v [] = (fst (fmtFrac n False v []), v div 10 ^ n)"
  by (rule fmtFrac_value [of n v]) simp_all

lemma parse_last:
  assumes "list_all unit_char u" "unitMap u = Some (10 ^ n)" "n \<le> 9" "0 \<le> v" "0 \<le> d" "d + v \<le> 2 ^ 63"
  shows "parse_loop d (fmtInt (v div 10 ^ n) @ fst (fmtFrac n False v []) @ u) = Some (d + v)"
proof -
  have "parse_one (fmtInt (v div 10 ^ n) @ fst (fmtFrac n False v []) @ u) = Some (v, [])"
    using assms by (intro parse_frac_unit [OF _ assms(1-3) refl assms(4) _ fmtFrac_div]) (simp_all add: pos_imp_zdiv_nonneg_iff)
  from parse_loop_step [OF this _ assms(5,4,6)] show ?thesis by simp
qed

text \<open>The fraction and the seconds of a minute are those of the whole duration.\<close>

lemma fmtFrac_cong: "v mod 10 ^ n = v' mod 10 ^ n \<Longrightarrow> fst (fmtFrac n b v acc) = fst (fmtFrac n b v' acc)"
proof (induction n arbitrary: b v v' acc)
  case (Suc n)
  have r: "(a * 10 + b mod 10) mod 10 = b mod 10" "(a * 10 + b mod 10) div 10 = a" for a b :: int
    by simp_all
  have "v mod 10 = v' mod 10" "v div 10 mod 10 ^ n = v' div 10 mod 10 ^ n"
    using arg_cong [OF Suc.prems, of "\<lambda>x. x mod 10"] arg_cong [OF Suc.prems, of "\<lambda>x. x div 10"]
    unfolding mod_Suc_ten r by simp_all
  note eqs = this
  show ?case
    unfolding fmtFrac.simps Let_def eqs(1) by (rule Suc.IH) (rule eqs(2))
qed simp

lemma parse_seconds:
  assumes "0 \<le> d" "0 \<le> v" "d + v mod (60 * 10 ^ 9) \<le> 2 ^ 63"
  shows "parse_loop d (fmtInt (v div 10 ^ 9 mod 60) @ fst (fmtFrac 9 False v []) @ ''s'') = Some (d + v mod (60 * 10 ^ 9))"
proof -
  let ?v = "v mod (60 * 10 ^ 9)"
  have "v mod (10 ^ 9 * 60) = 10 ^ 9 * (v div 10 ^ 9 mod 60) + v mod 10 ^ 9"
    by (rule zmod_zmult2_eq) simp
  then have eq: "?v = (v div 10 ^ 9 mod 60) * 10 ^ 9 + v mod 10 ^ 9"
    by (simp only: mult.commute)
  have m: "?v mod 10 ^ 9 = v mod 10 ^ 9" "?v div 10 ^ 9 = v div 10 ^ 9 mod 60"
    unfolding eq by simp_all
  have "parse_loop d (fmtInt (?v div 10 ^ 9) @ fst (fmtFrac 9 False ?v []) @ ''s'') = Some (d + ?v)"
    using assms by (intro parse_last) (simp_all add: unitMap_def micro_def)
  then show ?thesis
    using fmtFrac_cong [OF m(1)] m(2) by simp
qed


lemma parse_small:
  assumes "0 < u" "u < Second"
  shows "parse_loop 0 (Duration_String u) = Some u"
proof -
  have b: "u \<le> 2 ^ 63" using assms by (simp add: duration_units)
  have f: "(case fmtFrac n False u [] of (fr, q) \<Rightarrow> P fr q) = P (fst (fmtFrac n False u [])) (u div 10 ^ n)"
    for n and P :: "string \<Rightarrow> int \<Rightarrow> string"
    by (subst fmtFrac_div) simp
  consider "u < 1000" | "1000 \<le> u" "u < Millisecond" | "Millisecond \<le> u" by linarith
  then show ?thesis
  proof cases
    case 1
    then have "Duration_String u = fmtInt (u div 10 ^ 0) @ fst (fmtFrac 0 False u []) @ ''ns''"
      using assms by (simp add: Duration_String_def Let_def duration_units)
    then show ?thesis
      using parse_last [of "''ns''" 0 u 0] assms b by (simp add: unitMap_def)
  next
    case 2
    then have "Duration_String u = fmtInt (u div 10 ^ 3) @ fst (fmtFrac 3 False u []) @ (micro @ ''s'')"
      using assms by (simp add: Duration_String_def Let_def duration_units f)
    then show ?thesis
      using parse_last [of "micro @ ''s''" 3 u 0] assms b by (simp add: unitMap_def micro_def)
  next
    case 3
    then have "Duration_String u = fmtInt (u div 10 ^ 6) @ fst (fmtFrac 6 False u []) @ ''ms''"
      using assms by (simp add: Duration_String_def Let_def duration_units f)
    then show ?thesis
      using parse_last [of "''ms''" 6 u 0] assms b by (simp add: unitMap_def micro_def)
  qed
qed

text \<open>From a second on: hours and minutes when there are any, then the seconds. The minutes are read
  first.\<close>

definition seconds_text :: "int \<Rightarrow> string" where
  "seconds_text u = fmtInt (u div 10 ^ 9 mod 60) @ fst (fmtFrac 9 False u []) @ ''s''"

lemma Duration_String_large:
  assumes "Second \<le> u"
  defines "m \<equiv> u div 10 ^ 9 div 60"
  shows "Duration_String u = (if 0 < m then (if 0 < m div 60 then fmtInt (m div 60) @ ''h'' else [])
      @ fmtInt (m mod 60) @ ''m'' else []) @ seconds_text u"
proof -
  have "(case fmtFrac 9 False u [] of (fr, q) \<Rightarrow> P fr q) = P (fst (fmtFrac 9 False u [])) (u div 10 ^ 9)"
    for P :: "string \<Rightarrow> int \<Rightarrow> string"
    by (subst fmtFrac_div) simp
  then show ?thesis
    using assms(1) by (simp add: m_def Duration_String_def seconds_text_def Let_def duration_units)
qed

lemma minutes_split: "u = u div 10 ^ 9 div 60 * (60 * 10 ^ 9) + u mod (60 * 10 ^ 9)" for u :: int
proof -
  have "u div 10 ^ 9 div 60 = u div (10 ^ 9 * 60)"
    by (simp add: zdiv_zmult2_eq)
  then show ?thesis by (metis div_mult_mod_eq mult.commute)
qed

lemma parse_minutes:
  assumes "0 \<le> d" "0 \<le> u" "0 \<le> m" "d + m * (60 * 10 ^ 9) + u mod (60 * 10 ^ 9) \<le> 2 ^ 63"
  shows "parse_loop d (fmtInt m @ ''m'' @ seconds_text u) = Some (d + m * (60 * 10 ^ 9) + u mod (60 * 10 ^ 9))"
proof -
  have b: "0 \<le> m * (60 * 10 ^ 9)" "0 \<le> u mod (60 * 10 ^ 9)" using assms(3) by simp_all
  then have b2: "m * (60 * 10 ^ 9) \<le> 2 ^ 63" "d + m * (60 * 10 ^ 9) \<le> 2 ^ 63"
    using assms(1,4) by linarith+
  have "parse_one (fmtInt m @ ''m'' @ seconds_text u) = Some (m * (60 * 10 ^ 9), seconds_text u)"
    using b2(1) assms(3) by (intro parse_int_unit) (simp_all add: unitMap_def micro_def seconds_text_def)
  from parse_loop_step [OF this _ assms(1) b(1) b2(2)] show ?thesis
    using parse_seconds [of "d + m * (60 * 10 ^ 9)" u] assms b by (simp add: seconds_text_def)
qed

lemma parse_large:
  assumes "Second \<le> u" "u \<le> 2 ^ 63"
  shows "parse_loop 0 (Duration_String u) = Some u"
proof -
  define m where "m = u div 10 ^ 9 div 60"
  have u: "0 \<le> u" using assms(1) by (simp add: duration_units)
  then have m0: "0 \<le> m" by (simp add: m_def pos_imp_zdiv_nonneg_iff)
  note str = Duration_String_large [OF assms(1), folded m_def]
  have um: "u = m * (60 * 10 ^ 9) + u mod (60 * 10 ^ 9)" using minutes_split by (simp only: m_def)
  have r0: "0 \<le> u mod (60 * 10 ^ 9)" by simp
  consider "m = 0" | "0 < m" "m div 60 = 0" | "0 < m" "0 < m div 60"
    using m0 by (metis div_pos_pos_trivial not_less order_le_less pos_imp_zdiv_nonneg_iff zero_less_numeral)
  then show ?thesis
  proof cases
    case 1
    then show ?thesis using str parse_seconds [of 0 u] um u assms(2) by (simp add: seconds_text_def)
  next
    case 2
    then have "m mod 60 = m" using m0 by (metis mult_zero_right add_0 mult_div_mod_eq)
    then show ?thesis using str 2 parse_minutes [of 0 u m] um u m0 assms(2) by simp
  next
    case 3
    let ?h = "m div 60"
    have "m * (60 * 10 ^ 9) = (?h * 60 + m mod 60) * (60 * 10 ^ 9)" by simp
    also have "\<dots> = ?h * 3600000000000 + m mod 60 * (60 * 10 ^ 9)" by (simp only: distrib_right) simp
    finally have eq: "?h * 3600000000000 + m mod 60 * (60 * 10 ^ 9) + u mod (60 * 10 ^ 9) = u"
      using um by linarith
    have b: "0 \<le> ?h * 3600000000000" "0 \<le> m mod 60 * (60 * 10 ^ 9)" using 3 by simp_all
    then have b2: "?h * 3600000000000 \<le> 2 ^ 63"
      using eq r0 assms(2) by linarith
    have "parse_one (fmtInt ?h @ ''h'' @ fmtInt (m mod 60) @ ''m'' @ seconds_text u) = Some (?h * 3600000000000, fmtInt (m mod 60) @ ''m'' @ seconds_text u)"
      using b2 3 by (intro parse_int_unit) (simp_all add: unitMap_def micro_def)
    from parse_loop_step [OF this _ _ b(1)] show ?thesis
      using parse_minutes [OF b(1) u, of "m mod 60"] eq b2 assms(2) str 3 by simp
  qed
qed

lemma duration_roundtrip:
  assumes "int64 d"
  shows "ParseDuration (Duration_String d) = Some d"
proof -
  have nz: "parse_loop 0 (Duration_String u) = Some u" "Duration_String u \<noteq> []" "Duration_String u \<noteq> ''0''"
      "hd (Duration_String u) \<noteq> CHR ''-''" "hd (Duration_String u) \<noteq> CHR ''+''"
    if "0 < u" "u \<le> 2 ^ 63" for u
  proof -
    show p: "parse_loop 0 (Duration_String u) = Some u"
      using parse_small parse_large that by (cases "u < Second") simp_all
    show ne: "Duration_String u \<noteq> []" using p that by auto
    then have "hd (Duration_String u) = CHR ''.'' \<or> is_digit (hd (Duration_String u))"
      using p by (subst (asm) parse_loop.simps) (auto simp: parse_one_def split: if_splits)
    then show "hd (Duration_String u) \<noteq> CHR ''-''" "hd (Duration_String u) \<noteq> CHR ''+''"
      by (auto simp: is_digit_def)
    have "parse_loop 0 ''0'' = None"
      by (simp add: parse_loop.simps [of 0 "''0''"] parse_one_def is_digit_def digit_val_def parse_fraction_def parse_unit_def)
    then show "Duration_String u \<noteq> ''0''" using p by auto
  qed
  consider "d = 0" | "0 < d" | "d < 0" by linarith
  then show ?thesis
  proof cases
    case 1
    have "parse_loop 0 (Duration_String 0) = Some 0"
      by code_simp
    then show ?thesis using 1 by (simp add: ParseDuration_def Duration_String_def Second_def)
  next
    case 2
    then show ?thesis using nz [of d] assms by (simp add: ParseDuration_def int64_def)
  next
    case 3
    have "Duration_String d = CHR ''-'' # Duration_String (- d)"
      using 3 by (simp add: Duration_String_def Let_def)
    moreover have "wrap64 (- wrap64 (- d)) = d"
      using assms 3 by (cases "- d = 2 ^ 63") (auto simp: int64_def wrap64_def)
    ultimately show ?thesis
      using nz [of "- d"] assms 3 by (simp add: ParseDuration_def int64_def)
  qed
qed

end
