(* ===== verification/Api.thy ===== *)
theory Api
  imports Call_Service Campaign_Laws Go_Duration
begin

text \<open>
  The HTTP API (\<open>internal/api/handlers\<close>): the request and response types, the parsing of
  policies and windows, one definition per handler, the translation of errors and the table of
  routes.

  What the web framework does is a parameter: a handler gets the path parameter, the query
  parameters and the result of \<open>BodyParser\<close> as arguments. So are \<open>uuid.Parse\<close> and the time
  zone database. A handler returns an error or a response, and the new world. A response that
  \<open>SendStatus\<close> fills has the body \<open>StatusText\<close>.
\<close>

subsection \<open>Requests and responses\<close>

record retryPolicyRequest =
  rq_MaxAttempts :: int
  rq_BaseDelay :: string
  rq_MaxDelay :: string
  rq_Jitter :: float64

record businessHourRequest =
  bq_DayOfWeek :: int
  bq_Start :: string
  bq_End :: string

record targetRequest =
  tq_PhoneNumber :: string
  tq_Metadata :: metadata

record createCampaignRequest =
  cq_Name :: string
  cq_Description :: string
  cq_TimeZone :: string
  cq_MaxConcurrentCalls :: int
  cq_RetryPolicy :: "retryPolicyRequest option"
  cq_BusinessHours :: "businessHourRequest list"
  cq_Targets :: "targetRequest list"

record updateCampaignRequest =
  uq_Name :: "string option"
  uq_Description :: "string option"
  uq_MaxConcurrentCalls :: "int option"
  uq_RetryPolicy :: "retryPolicyRequest option"
  uq_BusinessHours :: "businessHourRequest list option"

record triggerCallRequest =
  tr_CampaignID :: string
  tr_PhoneNumber :: string
  tr_Metadata :: metadata

record retryPolicyResponse =
  rr_MaxAttempts :: int
  rr_BaseDelay :: string
  rr_MaxDelay :: string
  rr_Jitter :: float64

record businessHourResponse =
  br_DayOfWeek :: int
  br_Start :: string
  br_End :: string

record campaignResponse =
  cp_ID :: uuid
  cp_Name :: string
  cp_Description :: string
  cp_TimeZone :: string
  cp_Status :: campaign_status
  cp_MaxConcurrentCalls :: int
  cp_RetryPolicy :: retryPolicyResponse
  cp_BusinessHours :: "businessHourResponse list"
  cp_CreatedAt :: go_time
  cp_UpdatedAt :: go_time
  cp_StartedAt :: "go_time option"
  cp_CompletedAt :: "go_time option"

record campaignStatsResponse =
  sp_TotalCalls :: int
  sp_CompletedCalls :: int
  sp_FailedCalls :: int
  sp_InProgressCalls :: int
  sp_PendingCalls :: int
  sp_RetriesAttempted :: int

record callResponse =
  lp_ID :: uuid
  lp_CampaignID :: uuid
  lp_PhoneNumber :: string
  lp_Status :: call_status
  lp_AttemptCount :: int
  lp_ScheduledAt :: go_time
  lp_CreatedAt :: go_time
  lp_UpdatedAt :: go_time
  lp_LastError :: "string option"

record listCallsResponse =
  lc_Calls :: "callResponse list"
  lc_NextPage :: string

datatype body =
    CampaignBody campaignResponse
  | CampaignsBody "campaignResponse list"
  | StatsBody campaignStatsResponse
  | CallBody callResponse
  | CallsBody listCallsResponse
  | StatusText
  | ErrorBody string string
  | HealthBody string "(string \<times> string) list"

record response =
  rs_code :: int
  rs_body :: body

text \<open>An error a handler returns: one of the framework, with its code, or any other.\<close>

datatype http_error = FiberError int string | Plain go_error

type_synonym reply = "http_error + response"

record api =
  ap_loc :: "string \<Rightarrow> go_error + location"
  ap_parse_uuid :: "string \<Rightarrow> go_error + uuid"
  ap_defaultConcurrency :: int
  ap_callTopic :: string

subsection \<open>Errors\<close>

definition translateError :: "go_error \<Rightarrow> http_error" where
  "translateError err =
     (if Is err ErrValidation then FiberError 400 (Error err)
      else if Is err ErrNotFound then FiberError 404 ''resource not found''
      else if Is err ErrConflict then FiberError 409 (Error err)
      else if Is err ErrQuotaExceeded then FiberError 429 (Error err)
      else if Is err ErrUnavailable then FiberError 503 (Error err)
      else Plain err)"

definition ErrorHandler :: "string \<Rightarrow> http_error \<Rightarrow> response" where
  "ErrorHandler traceID err =
     (case err of
        FiberError code message \<Rightarrow> \<lparr>rs_code = code, rs_body = ErrorBody message traceID\<rparr>
      | Plain e \<Rightarrow> \<lparr>rs_code = 500, rs_body = ErrorBody (Error e) traceID\<rparr>)"

subsection \<open>Parsing\<close>

text \<open>\<open>strconv.Atoi\<close>, whose error the handlers ignore: zero for a syntax error, the nearest
  64-bit integer for a number out of range.\<close>

fun parse_uint :: "int \<Rightarrow> string \<Rightarrow> int option" where
  "parse_uint n [] = Some n"
| "parse_uint n (c # s) =
     (if \<not> is_digit c then None
      else if (2 ^ 64 - 1) div 10 + 1 \<le> n then Some (2 ^ 64 - 1)
      else if 2 ^ 64 - 1 < n * 10 + digit_val c then Some (2 ^ 64 - 1)
      else parse_uint (n * 10 + digit_val c) s)"

definition Atoi :: "string \<Rightarrow> int" where
  "Atoi s0 =
     (let neg = (s0 \<noteq> [] \<and> hd s0 = CHR ''-'');
          s = (if s0 \<noteq> [] \<and> (hd s0 = CHR ''-'' \<or> hd s0 = CHR ''+'') then tl s0 else s0)
      in if s = [] then 0
         else (case parse_uint 0 s of
                 None \<Rightarrow> 0
               | Some un \<Rightarrow> if neg then (if 2 ^ 63 < un then - (2 ^ 63) else - un)
                            else if 2 ^ 63 \<le> un then 2 ^ 63 - 1 else un))"

definition Query :: "(string \<Rightarrow> string) \<Rightarrow> string \<Rightarrow> string \<Rightarrow> string" where
  "Query q key fallback = (if q key = [] then fallback else q key)"

definition parse_delay :: "string \<Rightarrow> string \<Rightarrow> go_error + duration" where
  "parse_delay msg v =
     (if v \<noteq> [] then (case ParseDuration v of
          None \<Rightarrow> Inl (Errorf [] (Sentinel ErrValidation) msg) | Some d \<Rightarrow> Inr d) else Inr 0)"

definition parseRetryPolicy :: "retryPolicyRequest \<Rightarrow> go_error + RetryPolicy" where
  "parseRetryPolicy req =
     (case parse_delay '': invalid base_delay'' (rq_BaseDelay req) of
        Inl err \<Rightarrow> Inl err
      | Inr base \<Rightarrow>
          (case parse_delay '': invalid max_delay'' (rq_MaxDelay req) of
             Inl err \<Rightarrow> Inl err
           | Inr mx \<Rightarrow> Inr \<lparr>MaxAttempts = rq_MaxAttempts req, BaseDelay = base, MaxDelay = mx, Jitter = rq_Jitter req\<rparr>))"

fun parseBusinessHours :: "businessHourRequest list \<Rightarrow> go_error + BusinessHourInput list" where
  "parseBusinessHours [] = Inr []"
| "parseBusinessHours (bh # req) =
     (case parse_hhmm (bq_Start bh) of
        None \<Rightarrow> Inl (Errorf [] (Sentinel ErrValidation) '': invalid start time'')
      | Some start \<Rightarrow>
          (case parse_hhmm (bq_End bh) of
             None \<Rightarrow> Inl (Errorf [] (Sentinel ErrValidation) '': invalid end time'')
           | Some stop \<Rightarrow>
               (case parseBusinessHours req of
                  Inl err \<Rightarrow> Inl err
                | Inr windows \<Rightarrow> Inr (\<lparr>in_DayOfWeek = bq_DayOfWeek bh, in_Start = start, in_End = stop\<rparr> # windows))))"

definition target_inputs :: "targetRequest list \<Rightarrow> TargetInput list" where
  "target_inputs ts = map (\<lambda>t. \<lparr>ti_PhoneNumber = tq_PhoneNumber t, ti_Payload = tq_Metadata t\<rparr>) ts"

definition zero_policy :: RetryPolicy where
  "zero_policy = \<lparr>MaxAttempts = 0, BaseDelay = 0, MaxDelay = 0, Jitter = 0\<rparr>"

definition toCreateCampaignInput :: "createCampaignRequest \<Rightarrow> go_error + CreateCampaignInput" where
  "toCreateCampaignInput req =
     (case (case cq_RetryPolicy req of None \<Rightarrow> Inr zero_policy | Some rp \<Rightarrow> parseRetryPolicy rp) of
        Inl err \<Rightarrow> Inl err
      | Inr policy \<Rightarrow>
          (case (if cq_BusinessHours req \<noteq> [] then parseBusinessHours (cq_BusinessHours req) else Inr []) of
             Inl err \<Rightarrow> Inl err
           | Inr windows \<Rightarrow>
               Inr \<lparr>ci_Name = cq_Name req, ci_Description = cq_Description req, ci_TimeZone = cq_TimeZone req,
                    ci_MaxConcurrentCalls = cq_MaxConcurrentCalls req, ci_RetryPolicy = policy,
                    ci_BusinessHours = windows, ci_Targets = target_inputs (cq_Targets req)\<rparr>))"

subsection \<open>Printing\<close>

definition window_response :: "BusinessHourWindow \<Rightarrow> businessHourResponse" where
  "window_response b = \<lparr>br_DayOfWeek = DayOfWeek b, br_Start = format_hhmm (Start b), br_End = format_hhmm (End b)\<rparr>"

definition toCampaignResponse :: "Campaign \<Rightarrow> campaignResponse" where
  "toCampaignResponse c =
     \<lparr>cp_ID = c_ID c, cp_Name = c_Name c, cp_Description = c_Description c, cp_TimeZone = c_TimeZone c,
      cp_Status = c_Status c, cp_MaxConcurrentCalls = c_MaxConcurrentCalls c,
      cp_RetryPolicy = \<lparr>rr_MaxAttempts = MaxAttempts (c_RetryPolicy c),
        rr_BaseDelay = Duration_String (BaseDelay (c_RetryPolicy c)),
        rr_MaxDelay = Duration_String (MaxDelay (c_RetryPolicy c)), rr_Jitter = Jitter (c_RetryPolicy c)\<rparr>,
      cp_BusinessHours = map window_response (c_BusinessHours c),
      cp_CreatedAt = c_CreatedAt c, cp_UpdatedAt = c_UpdatedAt c,
      cp_StartedAt = c_StartedAt c, cp_CompletedAt = c_CompletedAt c\<rparr>"

definition toCallResponse :: "Call \<Rightarrow> callResponse" where
  "toCallResponse c =
     \<lparr>lp_ID = call_ID c, lp_CampaignID = call_CampaignID c, lp_PhoneNumber = call_PhoneNumber c,
      lp_Status = call_Status c, lp_AttemptCount = call_AttemptCount c, lp_ScheduledAt = call_ScheduledAt c,
      lp_CreatedAt = call_CreatedAt c, lp_UpdatedAt = call_UpdatedAt c, lp_LastError = call_LastError c\<rparr>"

definition stats_response :: "CampaignStats \<Rightarrow> campaignStatsResponse" where
  "stats_response s =
     \<lparr>sp_TotalCalls = TotalCalls s, sp_CompletedCalls = CompletedCalls s, sp_FailedCalls = FailedCalls s,
      sp_InProgressCalls = InProgressCalls s, sp_PendingCalls = PendingCalls s, sp_RetriesAttempted = RetriesAttempted s\<rparr>"

subsection \<open>Handlers\<close>

definition createCampaign ::
    "env \<Rightarrow> api \<Rightarrow> go_error + createCampaignRequest \<Rightarrow> world \<Rightarrow> reply \<times> world" where
  "createCampaign e a parsed w =
     (case parsed of
        Inl err \<Rightarrow> (Inl (FiberError 400 ''invalid request body''), w)
      | Inr req \<Rightarrow>
          (case toCreateCampaignInput req of
             Inl err \<Rightarrow> (Inl (translateError err), w)
           | Inr input \<Rightarrow>
               (case campaign_Create e (ap_loc a) (ap_defaultConcurrency a) input w of
                  (Inl err, w1) \<Rightarrow> (Inl (translateError err), w1)
                | (Inr campaign, w1) \<Rightarrow>
                    (case campaign_Get e (c_ID campaign) w1 of
                       (Inl err, w2) \<Rightarrow> (Inl (translateError err), w2)
                     | (Inr full, w2) \<Rightarrow> (Inr \<lparr>rs_code = 201, rs_body = CampaignBody (toCampaignResponse full)\<rparr>, w2)))))"

fun get_each :: "env \<Rightarrow> Campaign list \<Rightarrow> world \<Rightarrow> (go_error + campaignResponse list) \<times> world" where
  "get_each e [] w = (Inr [], w)"
| "get_each e (c # cs) w =
     (case campaign_Get e (c_ID c) w of
        (Inl err, w1) \<Rightarrow> (Inl err, w1)
      | (Inr full, w1) \<Rightarrow>
          (case get_each e cs w1 of
             (Inl err, w2) \<Rightarrow> (Inl err, w2)
           | (Inr rs, w2) \<Rightarrow> (Inr (toCampaignResponse full # rs), w2)))"

definition listCampaigns :: "env \<Rightarrow> api \<Rightarrow> (string \<Rightarrow> string) \<Rightarrow> world \<Rightarrow> reply \<times> world" where
  "listCampaigns e a q w =
     (let limit = Atoi (Query q ''limit'' ''50'');
          afterStr = Query q ''after_id'' [];
          afterID = (if afterStr \<noteq> [] then (case ap_parse_uuid a afterStr of Inl err \<Rightarrow> None | Inr i \<Rightarrow> Some i) else None)
      in case campaign_List e afterID limit w of
           (Inl err, w1) \<Rightarrow> (Inl (translateError err), w1)
         | (Inr campaigns, w1) \<Rightarrow>
             (case get_each e campaigns w1 of
                (Inl err, w2) \<Rightarrow> (Inl (translateError err), w2)
              | (Inr rs, w2) \<Rightarrow> (Inr \<lparr>rs_code = 200, rs_body = CampaignsBody rs\<rparr>, w2)))"

definition with_id :: "api \<Rightarrow> string \<Rightarrow> string \<Rightarrow> (uuid \<Rightarrow> world \<Rightarrow> reply \<times> world) \<Rightarrow> world \<Rightarrow> reply \<times> world" where
  "with_id a msg param f w =
     (case ap_parse_uuid a param of
        Inl err \<Rightarrow> (Inl (FiberError 400 msg), w)
      | Inr i \<Rightarrow> f i w)"

definition getCampaign :: "env \<Rightarrow> api \<Rightarrow> string \<Rightarrow> world \<Rightarrow> reply \<times> world" where
  "getCampaign e a param = with_id a ''invalid campaign id'' param (\<lambda>i w.
     (case campaign_Get e i w of
        (Inl err, w1) \<Rightarrow> (Inl (translateError err), w1)
      | (Inr c, w1) \<Rightarrow> (Inr \<lparr>rs_code = 200, rs_body = CampaignBody (toCampaignResponse c)\<rparr>, w1)))"

definition update_input :: "uuid \<Rightarrow> updateCampaignRequest \<Rightarrow> go_error + UpdateCampaignInput" where
  "update_input i req =
     (case (case uq_RetryPolicy req of None \<Rightarrow> Inr None
              | Some rp \<Rightarrow> (case parseRetryPolicy rp of Inl err \<Rightarrow> Inl err | Inr p \<Rightarrow> Inr (Some p))) of
        Inl err \<Rightarrow> Inl err
      | Inr policy \<Rightarrow>
          (case (case uq_BusinessHours req of None \<Rightarrow> Inr None
                   | Some bhs \<Rightarrow> (case parseBusinessHours bhs of Inl err \<Rightarrow> Inl err | Inr ws \<Rightarrow> Inr (Some ws))) of
             Inl err \<Rightarrow> Inl err
           | Inr windows \<Rightarrow>
               Inr \<lparr>ui_ID = i, ui_Name = uq_Name req, ui_Description = uq_Description req,
                    ui_MaxConcurrentCalls = uq_MaxConcurrentCalls req, ui_RetryPolicy = policy,
                    ui_BusinessHours = windows\<rparr>))"

definition updateCampaign ::
    "env \<Rightarrow> api \<Rightarrow> string \<Rightarrow> go_error + updateCampaignRequest \<Rightarrow> world \<Rightarrow> reply \<times> world" where
  "updateCampaign e a param parsed = with_id a ''invalid campaign id'' param (\<lambda>i w.
     (case parsed of
        Inl err \<Rightarrow> (Inl (FiberError 400 ''invalid request body''), w)
      | Inr req \<Rightarrow>
          (case update_input i req of
             Inl err \<Rightarrow> (Inl (translateError err), w)
           | Inr input \<Rightarrow>
               (case campaign_Update e (ap_defaultConcurrency a) input w of
                  (Inl err, w1) \<Rightarrow> (Inl (translateError err), w1)
                | (Inr c, w1) \<Rightarrow> (Inr \<lparr>rs_code = 200, rs_body = CampaignBody (toCampaignResponse c)\<rparr>, w1)))))"

text \<open>The shape of the handlers that answer with a status only.\<close>

definition send_status :: "int \<Rightarrow> go_error option \<times> world \<Rightarrow> reply \<times> world" where
  "send_status code result =
     (case result of
        (Some err, w1) \<Rightarrow> (Inl (translateError err), w1)
      | (None, w1) \<Rightarrow> (Inr \<lparr>rs_code = code, rs_body = StatusText\<rparr>, w1))"

definition startCampaign :: "env \<Rightarrow> api \<Rightarrow> string \<Rightarrow> world \<Rightarrow> reply \<times> world" where
  "startCampaign e a param = with_id a ''invalid campaign id'' param (\<lambda>i w. send_status 204 (campaign_Start e i w))"

definition pauseCampaign :: "env \<Rightarrow> api \<Rightarrow> string \<Rightarrow> world \<Rightarrow> reply \<times> world" where
  "pauseCampaign e a param = with_id a ''invalid campaign id'' param (\<lambda>i w. send_status 204 (campaign_Pause e i w))"

definition completeCampaign :: "env \<Rightarrow> api \<Rightarrow> string \<Rightarrow> world \<Rightarrow> reply \<times> world" where
  "completeCampaign e a param = with_id a ''invalid campaign id'' param (\<lambda>i w. send_status 204 (campaign_Complete e i w))"

definition campaignStats :: "env \<Rightarrow> api \<Rightarrow> string \<Rightarrow> world \<Rightarrow> reply \<times> world" where
  "campaignStats e a param = with_id a ''invalid campaign id'' param (\<lambda>i w.
     (case campaign_Stats e i w of
        (Inl err, w1) \<Rightarrow> (Inl (translateError err), w1)
      | (Inr s, w1) \<Rightarrow> (Inr \<lparr>rs_code = 200, rs_body = StatsBody (stats_response s)\<rparr>, w1)))"

definition addTargets :: "env \<Rightarrow> api \<Rightarrow> string \<Rightarrow> go_error + targetRequest list \<Rightarrow> world \<Rightarrow> reply \<times> world" where
  "addTargets e a param parsed = with_id a ''invalid campaign id'' param (\<lambda>i w.
     (case parsed of
        Inl err \<Rightarrow> (Inl (FiberError 400 ''invalid request body''), w)
      | Inr ts \<Rightarrow> send_status 202 (campaign_AddTargets e i (target_inputs ts) w)))"

definition listCampaignCalls :: "env \<Rightarrow> api \<Rightarrow> string \<Rightarrow> (string \<Rightarrow> string) \<Rightarrow> world \<Rightarrow> reply \<times> world" where
  "listCampaignCalls e a param q = with_id a ''invalid campaign id'' param (\<lambda>i w.
     (let limit = Atoi (Query q ''limit'' ''100'');
          token = Query q ''page_token'' []
      in case DecodePagingState token of
           Inl err \<Rightarrow> (Inl (FiberError 400 ''invalid page token''), w)
         | Inr paging \<Rightarrow>
             (case call_ListCallsByCampaign e i limit paging w of
                (Inl err, w1) \<Rightarrow> (Inl (translateError err), w1)
              | (Inr (calls, next), w1) \<Rightarrow>
                  (Inr \<lparr>rs_code = 200, rs_body = CallsBody \<lparr>lc_Calls = map toCallResponse calls,
                     lc_NextPage = EncodePagingState next\<rparr>\<rparr>, w1))))"

definition triggerCall :: "env \<Rightarrow> api \<Rightarrow> go_error + triggerCallRequest \<Rightarrow> world \<Rightarrow> reply \<times> world" where
  "triggerCall e a parsed w =
     (case parsed of
        Inl err \<Rightarrow> (Inl (FiberError 400 ''invalid request body''), w)
      | Inr req \<Rightarrow>
          with_id a ''invalid campaign_id format'' (tr_CampaignID req) (\<lambda>i w.
            (case TriggerCall e (ap_callTopic a) (ap_defaultConcurrency a)
                    \<lparr>tc_CampaignID = i, tc_PhoneNumber = tr_PhoneNumber req, tc_Metadata = tr_Metadata req\<rparr> w of
               (Inl err, w1) \<Rightarrow> (Inl (translateError err), w1)
             | (Inr call, w1) \<Rightarrow> (Inr \<lparr>rs_code = 202, rs_body = CallBody (toCallResponse call)\<rparr>, w1))) w)"

definition api_getCall :: "env \<Rightarrow> api \<Rightarrow> string \<Rightarrow> world \<Rightarrow> reply \<times> world" where
  "api_getCall e a param = with_id a ''invalid call id'' param (\<lambda>i w.
     (case call_GetCall e i w of
        (Inl err, w1) \<Rightarrow> (Inl (translateError err), w1)
      | (Inr call, w1) \<Rightarrow> (Inr \<lparr>rs_code = 200, rs_body = CallBody (toCallResponse call)\<rparr>, w1)))"

text \<open>The health check gets the outcome of its three pings.\<close>

definition health :: "go_error option \<Rightarrow> go_error option \<Rightarrow> go_error option \<Rightarrow> response" where
  "health postgres redis scylla =
     (let entry = (\<lambda>name err. case err of None \<Rightarrow> [] | Some x \<Rightarrow> [(name, Error x)]);
          errs = entry ''postgres'' postgres @ entry ''redis'' redis @ entry ''scylla'' scylla
      in \<lparr>rs_code = (if errs \<noteq> [] then 503 else 200), rs_body = HealthBody ''ok'' errs\<rparr>)"

subsection \<open>Routes\<close>

datatype request =
    GetHealth "go_error option" "go_error option" "go_error option"
  | PostCampaigns "go_error + createCampaignRequest"
  | GetCampaigns "string \<Rightarrow> string"
  | GetCampaign string
  | PutCampaign string "go_error + updateCampaignRequest"
  | PostStart string
  | PostPause string
  | PostComplete string
  | GetStats string
  | PostTargets string "go_error + targetRequest list"
  | GetCampaignCalls string "string \<Rightarrow> string"
  | PostCalls "go_error + triggerCallRequest"
  | GetCallById string

fun Register :: "env \<Rightarrow> api \<Rightarrow> request \<Rightarrow> world \<Rightarrow> reply \<times> world" where
  "Register e a (GetHealth pg rd sc) w = (Inr (health pg rd sc), w)"
| "Register e a (PostCampaigns b) w = createCampaign e a b w"
| "Register e a (GetCampaigns q) w = listCampaigns e a q w"
| "Register e a (GetCampaign i) w = getCampaign e a i w"
| "Register e a (PutCampaign i b) w = updateCampaign e a i b w"
| "Register e a (PostStart i) w = startCampaign e a i w"
| "Register e a (PostPause i) w = pauseCampaign e a i w"
| "Register e a (PostComplete i) w = completeCampaign e a i w"
| "Register e a (GetStats i) w = campaignStats e a i w"
| "Register e a (PostTargets i b) w = addTargets e a i b w"
| "Register e a (GetCampaignCalls i q) w = listCampaignCalls e a i q w"
| "Register e a (PostCalls b) w = triggerCall e a b w"
| "Register e a (GetCallById i) w = api_getCall e a i w"

definition serve :: "env \<Rightarrow> api \<Rightarrow> string \<Rightarrow> request \<Rightarrow> world \<Rightarrow> response \<times> world" where
  "serve e a traceID req w =
     (case Register e a req w of
        (Inl err, w') \<Rightarrow> (ErrorHandler traceID err, w')
      | (Inr resp, w') \<Rightarrow> (resp, w'))"

end
