(* ===== verification/Api_Laws.thy ===== *)
theory Api_Laws
  imports Api
begin

text \<open>
  What the handlers of the API promise: which errors reach a client and what a refused request
  leaves behind, when a resource is not found, the round trip of policies and windows through
  requests and responses, and the paging of the list of campaigns.
\<close>

subsection \<open>Errors that carry a sentinel\<close>

text \<open>An error of a service either carries no sentinel or is a refusal: a validation error or a
  missing resource, which has changed nothing.\<close>

definition refusal :: "world \<Rightarrow> go_error \<Rightarrow> world \<Rightarrow> bool" where
  "refusal w err w' \<longleftrightarrow> (\<forall>s. Is err s \<longrightarrow> (s = ErrValidation \<or> s = ErrNotFound) \<and> same_store w w')"

definition plain :: "go_error \<Rightarrow> bool" where
  "plain err \<longleftrightarrow> (\<forall>s. \<not> Is err s)"

lemma plain_simps [simp]:
  "plain (New m)" "plain (Errorf a err b) = plain err" "\<not> plain (Sentinel s)"
  by (auto simp: plain_def)

lemma plain_refusal: "plain err \<Longrightarrow> refusal w err w'"
  by (simp add: plain_def refusal_def)

lemma refusal_Errorf [simp]: "refusal w (Errorf a err b) w' = refusal w err w'"
  by (simp add: refusal_def)

lemma refusal_same: "same_store w w' \<Longrightarrow> refusal w (Sentinel ErrNotFound) w'" "same_store w w' \<Longrightarrow> refusal w (Sentinel ErrValidation) w'"
  by (auto simp: refusal_def)

lemma refusal_before: "same_store w w1 \<Longrightarrow> refusal w1 err w' \<Longrightarrow> refusal w err w'"
  using same_store_trans by (fastforce simp: refusal_def)

lemma query_plain: "query e q w = (Inl err, w') \<Longrightarrow> plain err"
  by (auto simp: query_def split: io_outcome.splits)

lemma exec_plain: "exec e st w = (Inl err, w') \<Longrightarrow> plain err"
  by (auto simp: exec_def Let_def split: io_outcome.splits option.splits)

lemma run_stmt_plain: "run_stmt e msg st w = (Some err, w') \<Longrightarrow> plain err"
  unfolding plain_def by (blast dest: run_stmt_not_sentinel)

lemma scan_loop_plain: "scan_loop e rs w = (Some err, w') \<Longrightarrow> plain err"
  by (induction rs arbitrary: w) (auto split: prod.splits sum.splits dest: query_plain)

lemma fetch_rows_plain: "fetch_rows e a b c q w = (Inl err, w') \<Longrightarrow> plain err"
  by (auto simp: fetch_rows_def split: prod.splits sum.splits option.splits dest: query_plain scan_loop_plain)

lemma Get_refusal: "CampaignRepository_Get e i w = (Inl err, w') \<Longrightarrow> refusal w err w'"
  by (auto simp: CampaignRepository_Get_def split: prod.splits sum.splits option.splits
      dest: query_same intro: query_plain [THEN plain_refusal] refusal_same)

lemma stats_Get_refusal: "CampaignStatisticsRepository_Get e i w = (Inl err, w') \<Longrightarrow> refusal w err w'"
  by (auto simp: CampaignStatisticsRepository_Get_def split: prod.splits sum.splits option.splits
      dest: query_same intro: query_plain [THEN plain_refusal] refusal_same)

lemma check_affected_error: "check_affected e n w = (Some err, w') \<Longrightarrow> plain err \<or> n = 0 \<and> err = Sentinel ErrNotFound"
  by (auto simp: check_affected_def split: prod.splits sum.splits if_splits dest: query_plain query_Inr)

lemma map_unhit: "filter P xs = [] \<Longrightarrow> map (\<lambda>x. if P x then f x else x) xs = xs"
  by (induction xs) (auto split: if_splits)

lemma update_none_same:
  assumes "update_campaign e r w = Some (0, w')"
  shows "same_store w w'"
proof -
  have "filter (\<lambda>old. r_id old = r_id r) (w_campaigns w) = []"
    using assms by (auto simp: update_campaign_def Let_def split: if_splits)
  then show ?thesis
    using assms map_unhit [of "\<lambda>old. r_id old = r_id r" "w_campaigns w" "updated_row e w r"]
    by (auto simp: update_campaign_def Let_def same_store_def split: if_splits)
qed

lemma Update_refusal:
  assumes "CampaignRepository_Update e c w = (Some err, w')"
  shows "refusal w err w'"
proof -
  obtain r w1 where x: "exec e (update_campaign e (to_row c)) w = (r, w1)" by force
  show ?thesis
  proof (cases r)
    case (Inl er)
    then show ?thesis
      using assms x by (auto simp: CampaignRepository_Update_def intro: exec_plain [THEN plain_refusal])
  next
    case (Inr n)
    then have c: "check_affected e n w1 = (Some err, w')"
      using assms x by (simp add: CampaignRepository_Update_def)
    from check_affected_error [OF c] show ?thesis
    proof
      assume n: "n = 0 \<and> err = Sentinel ErrNotFound"
      then have "same_store (tick_io w) w1"
        using x Inr update_none_same by (auto dest: exec_Inr)
      then have "same_store w w'"
        using check_affected_same [OF c] same_store_trans same_store_counters(1) by blast
      then show ?thesis using n by (simp add: refusal_same)
    qed (rule plain_refusal)
  qed
qed

lemma insert_windows_plain: "insert_windows e i bs w = (Some err, w') \<Longrightarrow> plain err"
  by (induction bs arbitrary: w) (auto split: prod.splits sum.splits dest: exec_plain)

lemma replace_body_plain: "replace_body e i ws w = (Some err, w') \<Longrightarrow> plain err"
  by (auto simp: replace_body_def split: prod.splits sum.splits if_splits dest: exec_plain query_plain insert_windows_plain)

lemma withTx_plain:
  assumes "withTx e fn w = (Some err, w')" "\<And>w err w'. fn w = (Some err, w') \<Longrightarrow> plain err"
  shows "plain err"
  using assms by (fastforce simp: withTx_def split: prod.splits sum.splits option.splits io_outcome.splits dest: query_plain)

lemma Replace_plain: "BusinessHourRepository_Replace e i ws w = (Some err, w') \<Longrightarrow> plain err"
  unfolding Replace_withTx by (rule withTx_plain) (auto dest: replace_body_plain)

lemma write_plain:
  "CampaignRepository_Create e c w = (Some err, w') \<Longrightarrow> plain err"
  "CampaignTargetRepository_BulkInsert e i ts w = (Some err, w') \<Longrightarrow> plain err"
  "CampaignStatisticsRepository_Ensure e i w = (Some err, w') \<Longrightarrow> plain err"
  "CampaignStatisticsRepository_ApplyDelta e i d w = (Some err, w') \<Longrightarrow> plain err"
  by (auto simp: CampaignRepository_Create_def CampaignTargetRepository_BulkInsert_def
      CampaignStatisticsRepository_Ensure_def CampaignStatisticsRepository_ApplyDelta_def
      split: if_splits intro: run_stmt_plain)

lemma list_plain:
  "CampaignTargetRepository_ListByCampaign e i n st w = (Inl err, w') \<Longrightarrow> plain err"
  "BusinessHourRepository_List e i w = (Inl err, w') \<Longrightarrow> plain err"
  "CampaignRepository_List e a n w = (Inl err, w') \<Longrightarrow> plain err"
  "GetCall e i w = (Inl err, w') \<Longrightarrow> plain err"
  "ListCallsByCampaign e i n st w = (Inl err, w') \<Longrightarrow> plain err"
  by (auto simp: CampaignTargetRepository_ListByCampaign_def BusinessHourRepository_List_def CampaignRepository_List_def
      GetCall_def ListCallsByCampaign_def Let_def
      split: prod.splits sum.splits option.splits if_splits intro: fetch_rows_plain query_plain)

subsection \<open>Services refuse without effect\<close>

text \<open>The contract between the services and the handlers: an operation that returns an error with
  a sentinel has refused the request. An operation without a result returns \<open>Inr ()\<close>.\<close>

locale refusing_service =
  fixes operation :: "'i \<Rightarrow> world \<Rightarrow> (go_error + 'r) \<times> world"
  assumes refuses: "operation i w = (Inl err, w') \<Longrightarrow> refusal w err w'"
begin

lemma client_error:
  assumes "operation i w = (Inl err, w')" "translateError err = FiberError code m"
  shows "(code = 400 \<or> code = 404) \<and> same_store w w'"
  using refuses [OF assms(1)] assms(2) by (auto simp: refusal_def translateError_def split: if_splits)

end

definition as_result :: "go_error option \<times> world \<Rightarrow> (go_error + unit) \<times> world" where
  "as_result r = (case r of (Some err, w) \<Rightarrow> (Inl err, w) | (None, w) \<Rightarrow> (Inr (), w))"

lemma as_result_Inl [simp]: "as_result r = (Inl err, w') \<longleftrightarrow> r = (Some err, w')"
  by (auto simp: as_result_def split: prod.splits option.splits)

lemma validate_refusal: "validateCreateInput loc input = Some err \<Longrightarrow> refusal w err w"
proof -
  have "validate_hours hs = Some err \<Longrightarrow> refusal w err w" for hs
    by (induction hs) (auto simp: Let_def refusal_same split: if_splits)
  then show "validateCreateInput loc input = Some err \<Longrightarrow> refusal w err w"
    by (auto simp: validateCreateInput_def refusal_same split: if_splits sum.splits)
qed

lemmas plain_refusals = write_plain [THEN plain_refusal] list_plain [THEN plain_refusal] Replace_plain [THEN plain_refusal]

interpretation create: refusing_service "\<lambda>input. campaign_Create e loc d input" for e loc d
  by unfold_locales
    (auto simp: campaign_Create_def Let_def split: option.splits prod.splits if_splits
      intro: validate_refusal plain_refusals)

interpretation get: refusing_service "campaign_Get e" for e
  by unfold_locales
    (auto simp: campaign_Get_def split: prod.splits sum.splits intro: Get_refusal plain_refusals)

interpretation list: refusing_service "\<lambda>(a, n). campaign_List e a n" for e
  by unfold_locales (auto simp: campaign_List_def intro: plain_refusals)

interpretation update: refusing_service "\<lambda>input. campaign_Update e d input" for e d
proof
  fix input w err w'
  assume u: "campaign_Update e d input w = (Inl err, w')"
  obtain g w1 where g: "CampaignRepository_Get e (ui_ID input) w = (g, w1)" by force
  obtain now w2 where n: "Now e w1 = (now, w2)" by force
  have s: "same_store w w2"
    using Get_same [OF g] Now_same [OF n] same_store_trans by blast
  show "refusal w err w'"
    using u g n
    by (auto simp: campaign_Update_def Let_def split: option.splits prod.splits sum.splits
        intro: Get_refusal plain_refusals refusal_before [OF s] Update_refusal)
qed

interpretation start: refusing_service "\<lambda>i w. as_result (campaign_Start e i w)" for e
proof
  fix i w err w'
  assume u: "as_result (campaign_Start e i w) = (Inl err, w')"
  obtain g w1 where g: "CampaignRepository_Get e i w = (g, w1)" by force
  obtain now w2 where n: "Now e w1 = (now, w2)" by force
  have s: "same_store w w2"
    using Get_same [OF g] Now_same [OF n] same_store_trans by blast
  show "refusal w err w'"
    using u g n
    by (auto simp: campaign_Start_def Let_def split: option.splits prod.splits sum.splits if_splits
        intro: Get_refusal refusal_before [OF s] Update_refusal plain_refusal)
qed

interpretation pause: refusing_service "\<lambda>i w. as_result (campaign_Pause e i w)" for e
  by unfold_locales
    (auto simp: campaign_Pause_def split: prod.splits sum.splits
      intro: Get_refusal refusal_before [OF Get_same] Update_refusal)

interpretation complete: refusing_service "\<lambda>i w. as_result (campaign_Complete e i w)" for e
proof
  fix i w err w'
  assume u: "as_result (campaign_Complete e i w) = (Inl err, w')"
  obtain g w1 where g: "CampaignRepository_Get e i w = (g, w1)" by force
  obtain now w2 where n: "Now e w1 = (now, w2)" by force
  have s: "same_store w w2"
    using Get_same [OF g] Now_same [OF n] same_store_trans by blast
  show "refusal w err w'"
    using u g n
    by (auto simp: campaign_Complete_def split: prod.splits sum.splits
        intro: Get_refusal refusal_before [OF s] Update_refusal)
qed

interpretation stats: refusing_service "campaign_Stats e" for e
  by unfold_locales (auto simp: campaign_Stats_def intro: stats_Get_refusal)

lemma check_phones_refusal: "check_phones P ts = Some err \<Longrightarrow> same_store w w' \<Longrightarrow> refusal w err w'"
  by (induction ts) (auto simp: refusal_same split: if_splits)

interpretation targets: refusing_service "\<lambda>(i, ts) w. as_result (campaign_AddTargets e i ts w)" for e
proof
  fix its w err w'
  assume u: "(case its of (i, ts) \<Rightarrow> \<lambda>w. as_result (campaign_AddTargets e i ts w)) w = (Inl err, w')"
  obtain i ts where its: "its = (i, ts)" by force
  obtain l w1 where l: "CampaignTargetRepository_ListByCampaign e i 10000 [] w = (l, w1)" by force
  have s: "same_store w w1"
    using l by (rule ListByCampaign_same)
  show "refusal w err w'"
    using u l s its
    by (auto simp: campaign_AddTargets_def split: prod.splits sum.splits option.splits if_splits
        intro: plain_refusals check_phones_refusal refusal_same)
qed

lemma validatePhone_refusal:
  assumes "validatePhoneInCampaignTargets e i p w = (Some err, w')"
  shows "refusal w err w'"
proof -
  obtain l w1 where l: "CampaignTargetRepository_ListByCampaign e i 10000 [] w = (l, w1)" by force
  have "same_store w w1"
    using l by (rule ListByCampaign_same)
  then show ?thesis
    using assms l
    by (cases l) (auto simp: validatePhoneInCampaignTargets_def refusal_same split: if_splits intro: plain_refusals)
qed

lemma publish_plain: "DispatchCall e topic msg w = (Some err, w') \<Longrightarrow> plain err"
  by (auto simp: DispatchCall_def split: prod.splits option.splits intro: run_stmt_plain)

lemma CreateCall_plain: "CreateCall e c w = (Some err, w') \<Longrightarrow> plain err"
  by (auto simp: CreateCall_def split: prod.splits option.splits intro: run_stmt_plain)

interpretation trigger: refusing_service "TriggerCall e topic d" for e topic d
proof
  fix input w err w'
  assume t: "TriggerCall e topic d input w = (Inl err, w')"
  let ?i = "tc_CampaignID input"
  obtain g w1 where g: "CampaignRepository_Get e ?i w = (g, w1)" by force
  obtain v w2 where v: "validatePhoneInCampaignTargets e ?i (tc_PhoneNumber input) w1 = (v, w2)" by force
  show "refusal w err w'"
  proof (cases "tc_PhoneNumber input = [] \<or> (\<exists>er. g = Inl er) \<or> v \<noteq> None")
    case True
    then show ?thesis
      using t g v Get_refusal [of e ?i w] refusal_before [OF Get_same [OF g]] validatePhone_refusal [of e ?i _ w1]
      by (cases g; cases v) (auto simp: TriggerCall_def refusal_same split: if_splits)
  next
    case False
    then obtain c where c: "g = Inr c" "v = None" "tc_PhoneNumber input \<noteq> []" by (cases g) auto
    obtain now w3 where n: "Now e w2 = (now, w3)" by force
    obtain u w4 where u: "uuid_New e w3 = (u, w4)" by force
    obtain q5 w5 where q5: "CreateCall e (new_call input u now) w4 = (q5, w5)" by force
    obtain q6 w6 where q6: "CampaignStatisticsRepository_ApplyDelta e ?i
        (zero_delta\<lparr>TotalCallsDelta := 1, PendingCallsDelta := 1\<rparr>) w5 = (q6, w6)" by force
    obtain q7 w7 where q7: "DispatchCall e topic (new_dispatch input c d u now) w6 = (q7, w7)" by force
    have "plain err"
      using t g v n u q5 q6 q7 c CreateCall_plain [of e _ w4] write_plain(4) [of e ?i _ w5] publish_plain [of e topic _ w6]
      by (cases q5; cases q6; cases q7) (auto simp: TriggerCall_def)
    then show ?thesis by (rule plain_refusal)
  qed
qed

interpretation calls: refusing_service "\<lambda>(i, n, st). call_ListCallsByCampaign e i n st" for e
  by unfold_locales (auto simp: call_ListCallsByCampaign_def intro: plain_refusals)

interpretation one_call: refusing_service "call_GetCall e" for e
  by unfold_locales (auto simp: call_GetCall_def intro: plain_refusals)


subsection \<open>Handlers\<close>

text \<open>A client error of a handler: code 400 or 404, and nothing changed.\<close>

definition harmless :: "world \<Rightarrow> reply \<times> world \<Rightarrow> bool" where
  "harmless w r \<longleftrightarrow> (\<forall>code m. fst r = Inl (FiberError code m) \<longrightarrow> (code = 400 \<or> code = 404) \<and> same_store w (snd r))"

lemma harmless_translate: "refusal w err w' \<Longrightarrow> harmless w (Inl (translateError err), w')"
  by (auto simp: harmless_def refusal_def translateError_def split: if_splits)

lemma harmless_Inr [simp]: "harmless w (Inr resp, w')"
  by (simp add: harmless_def)

lemma harmless_400 [simp]: "harmless w (Inl (FiberError 400 m), w)"
  by (simp add: harmless_def)

lemma harmless_with_id: "(\<And>i. harmless w (f i w)) \<Longrightarrow> harmless w (with_id a msg p f w)"
  by (simp add: with_id_def split: sum.split)

lemma harmless_send_status: "(\<And>err w'. r = (Some err, w') \<Longrightarrow> refusal w err w') \<Longrightarrow> harmless w (send_status code r)"
  by (auto simp: send_status_def harmless_translate split: prod.splits option.splits)

lemma parse_refusals:
  "parseRetryPolicy req = Inl err \<Longrightarrow> refusal w err w"
  "parseBusinessHours hs = Inl err \<Longrightarrow> refusal w err w"
proof -
  show "parseRetryPolicy req = Inl err \<Longrightarrow> refusal w err w"
    by (auto simp: parseRetryPolicy_def parse_delay_def refusal_same split: if_splits option.splits sum.splits)
  show "parseBusinessHours hs = Inl err \<Longrightarrow> refusal w err w"
    by (induction hs arbitrary: err) (auto simp: refusal_same split: option.splits sum.splits)
qed

lemma input_refusals:
  "toCreateCampaignInput cq = Inl err \<Longrightarrow> refusal w err w" "update_input i uq = Inl err \<Longrightarrow> refusal w err w"
  by (auto simp: toCreateCampaignInput_def update_input_def split: option.splits sum.splits if_splits intro: parse_refusals)

lemma Get_missing: "CampaignRepository_Get e i w = (Inl err, w') \<Longrightarrow> campaign_at i w \<noteq> None \<Longrightarrow> plain err"
  by (auto simp: CampaignRepository_Get_def campaign_at_def split: prod.splits sum.splits option.splits
      dest!: query_Inr intro: query_plain)

lemma service_Get_missing: "campaign_Get e i w = (Inl err, w') \<Longrightarrow> campaign_at i w \<noteq> None \<Longrightarrow> plain err"
  by (auto simp: campaign_Get_def split: prod.splits sum.splits intro: list_plain Get_missing)

lemma harmless_create: "harmless w (createCampaign e a parsed w)"
proof (cases parsed)
  case (Inr req)
  show ?thesis
  proof (cases "toCreateCampaignInput req")
    case (Inl err)
    then show ?thesis
      using Inr by (simp add: createCampaign_def harmless_translate input_refusals)
  next
    case input: (Inr input)
    obtain r w1 where c: "campaign_Create e (ap_loc a) (ap_defaultConcurrency a) input w = (r, w1)" by force
    show ?thesis
    proof (cases r)
      case (Inl err)
      then show ?thesis
        using Inr input c create.refuses [of e "ap_loc a" "ap_defaultConcurrency a" input w]
        by (simp add: createCampaign_def harmless_translate)
    next
      case campaign: (Inr campaign)
      then have "campaign_at (c_ID campaign) w1 \<noteq> None"
        using Create_service_at [OF c] by auto
      then show ?thesis
        using Inr input c campaign service_Get_missing [of e "c_ID campaign" w1]
        by (auto simp: createCampaign_def split: prod.splits sum.splits
            intro: harmless_translate plain_refusal)
    qed
  qed
qed (simp add: createCampaign_def)

lemma get_each_reads: "get_each e cs w = (r, w') \<Longrightarrow> same_store w w'"
proof (induction cs arbitrary: w r)
  case (Cons c cs)
  obtain g w1 where g: "campaign_Get e (c_ID c) w = (g, w1)" by force
  then have "same_store w w1" using service_reads_same(1) by (metis snd_conv)
  then show ?case
    using Cons g by (auto split: sum.splits prod.splits intro: same_store_trans)
qed simp

lemma get_each_refusal: "get_each e cs w = (Inl err, w') \<Longrightarrow> refusal w err w'"
proof (induction cs arbitrary: w)
  case (Cons c cs)
  obtain g w1 where g: "campaign_Get e (c_ID c) w = (g, w1)" by force
  then have s: "same_store w w1" using service_reads_same(1) by (metis snd_conv)
  show ?case
    using Cons g by (auto split: sum.splits prod.splits intro: get.refuses refusal_before [OF s])
qed simp

lemma harmless_list: "harmless w (listCampaigns e a q w)"
proof -
  obtain after n where "listCampaigns e a q w = (case campaign_List e after n w of
           (Inl err, w1) \<Rightarrow> (Inl (translateError err), w1)
         | (Inr campaigns, w1) \<Rightarrow>
             (case get_each e campaigns w1 of
                (Inl err, w2) \<Rightarrow> (Inl (translateError err), w2)
              | (Inr rs, w2) \<Rightarrow> (Inr \<lparr>rs_code = 200, rs_body = CampaignsBody rs\<rparr>, w2)))"
    unfolding listCampaigns_def Let_def by blast
  moreover obtain l w1 where l: "campaign_List e after n w = (l, w1)" by force
  moreover have "same_store w w1" using service_reads_same(2) l by (metis snd_conv)
  moreover have "l = Inl err \<Longrightarrow> refusal w err w1" for err
    using list.refuses [of e "(after, n)" w err w1] l by simp
  ultimately show ?thesis
    by (auto split: sum.splits prod.splits intro!: harmless_translate dest: get_each_refusal intro: refusal_before)
qed

lemma harmless_calls: "harmless w (listCampaignCalls e a p q w)"
proof -
  have "refusal w err w1" if "call_ListCallsByCampaign e i n st w = (Inl err, w1)" for i n st err w1
    using calls.refuses [of e "(i, n, st)" w err w1] that by simp
  then show ?thesis
    unfolding listCampaignCalls_def
    by (intro harmless_with_id) (auto simp: Let_def split: sum.splits prod.splits intro: harmless_translate)
qed

lemma harmless_targets: "harmless w (addTargets e a p parsed w)"
proof -
  have "refusal w err w1" if "campaign_AddTargets e i ts w = (Some err, w1)" for i ts err w1
    using targets.refuses [of e "(i, ts)" w err w1] that by simp
  then show ?thesis
    unfolding addTargets_def by (intro harmless_with_id) (simp split: sum.split add: harmless_send_status)
qed

lemma harmless_Register: "harmless w (Register e a req w)"
proof (cases req)
  case (PutCampaign p parsed)
  then show ?thesis
    by (auto simp: updateCampaign_def split: sum.splits prod.splits
        intro!: harmless_with_id intro: input_refusals [THEN harmless_translate] update.refuses [THEN harmless_translate])
next
  case (PostCalls parsed)
  then show ?thesis
    by (auto simp: triggerCall_def split: sum.splits prod.splits
        intro!: harmless_with_id intro: trigger.refuses [THEN harmless_translate])
next
  case (PostStart p)
  then show ?thesis
    using start.refuses [of e _ w] by (auto simp: startCampaign_def intro!: harmless_with_id harmless_send_status)
next
  case (PostPause p)
  then show ?thesis
    using pause.refuses [of e _ w] by (auto simp: pauseCampaign_def intro!: harmless_with_id harmless_send_status)
next
  case (PostComplete p)
  then show ?thesis
    using complete.refuses [of e _ w] by (auto simp: completeCampaign_def intro!: harmless_with_id harmless_send_status)
qed (auto simp: harmless_create harmless_list harmless_calls harmless_targets getCampaign_def campaignStats_def api_getCall_def
      split: sum.splits prod.splits intro!: harmless_with_id
      intro: get.refuses [THEN harmless_translate] stats.refuses [THEN harmless_translate] one_call.refuses [THEN harmless_translate])


lemma Register_codes:
  assumes "Register e a req w = (Inr resp, w')"
  shows "rs_code resp \<in> {200, 201, 202, 204} \<or> rs_code resp = 503 \<and> (\<exists>pg rd sc. req = GetHealth pg rd sc)"
  using assms
  by (cases req)
    (auto simp: createCampaign_def listCampaigns_def getCampaign_def updateCampaign_def startCampaign_def pauseCampaign_def
      completeCampaign_def campaignStats_def addTargets_def listCampaignCalls_def triggerCall_def api_getCall_def health_def
      with_id_def send_status_def Let_def split: sum.splits prod.splits option.splits if_splits)

subsection \<open>Round trips\<close>

definition policy_request :: "retryPolicyResponse \<Rightarrow> retryPolicyRequest" where
  "policy_request r = \<lparr>rq_MaxAttempts = rr_MaxAttempts r, rq_BaseDelay = rr_BaseDelay r, rq_MaxDelay = rr_MaxDelay r,
     rq_Jitter = rr_Jitter r\<rparr>"

definition hours_request :: "businessHourResponse \<Rightarrow> businessHourRequest" where
  "hours_request r = \<lparr>bq_DayOfWeek = br_DayOfWeek r, bq_Start = br_Start r, bq_End = br_End r\<rparr>"

lemma Duration_String_nonempty: "int64 d \<Longrightarrow> Duration_String d \<noteq> []"
  using duration_roundtrip [of d] by (auto simp: ParseDuration_def)

lemma parse_delay_String: "int64 d \<Longrightarrow> parse_delay msg (Duration_String d) = Inr d"
  by (simp add: parse_delay_def Duration_String_nonempty duration_roundtrip)

lemma Date_hm_minute: "minute_of_day (Date_hm midnight_year0 (Hour t) (Minute t)) = minute_of_day t"
  using Hour_bounds [of t] Minute_bounds [of t] by (simp add: minute_of_day_def)

lemma parse_windows:
  "\<exists>hs. parseBusinessHours (map (hours_request \<circ> window_response) bs) = Inr hs
     \<and> map window_key (toDomainBusinessHours hs) = map window_key bs"
proof (induction bs)
  case Nil
  then show ?case by (simp add: toDomainBusinessHours_def)
next
  case (Cons b bs)
  then show ?case
    by (auto simp: hours_request_def window_response_def parse_format_hhmm toDomainBusinessHours_def window_key_def Date_hm_minute)
qed

subsection \<open>Pages\<close>

definition page_limit :: "(string \<Rightarrow> string) \<Rightarrow> int" where
  "page_limit q = (let n = Atoi (Query q ''limit'' ''50'') in if n \<le> 0 then 50 else n)"

definition page_after :: "api \<Rightarrow> (string \<Rightarrow> string) \<Rightarrow> uuid option" where
  "page_after a q = (let s = Query q ''after_id'' [] in
     if s \<noteq> [] then (case ap_parse_uuid a s of Inl err \<Rightarrow> None | Inr i \<Rightarrow> Some i) else None)"

text \<open>The ids of the campaigns after a given one, in ascending order.\<close>

definition ids_after :: "uuid option \<Rightarrow> world \<Rightarrow> uuid list" where
  "ids_after after w = sorted_list_of_set {i \<in> r_id ` set (w_campaigns w). case after of None \<Rightarrow> True | Some x \<Rightarrow> x < i}"

lemma map_sort_key: "map f (sort_key f xs) = sort (map f xs)"
  by (rule properties_for_sort [symmetric]) simp_all

lemma select_after_ids:
  assumes "scans (scan_campaigns e)" "pg_wf w"
  shows "map r_id (select_campaigns_after e after n w) = take (nat n) (ids_after after w)"
proof -
  let ?P = "\<lambda>i. case after of None \<Rightarrow> True | Some x \<Rightarrow> x < i"
  let ?f = "filter (\<lambda>r. ?P (r_id r)) (scan_campaigns e (w_campaigns w))"
  have "distinct (map r_id (scan_campaigns e (w_campaigns w)))"
    using assms(2) by (intro scans_distinct [OF assms(1)]) (simp add: pg_wf_def)
  then have d: "distinct (map r_id ?f)"
    by (rule distinct_map_filter)
  have "set (map r_id ?f) = {i \<in> r_id ` set (w_campaigns w). ?P i}"
    using scans_set [OF assms(1)] by auto
  then have "ids_after after w = sort (map r_id ?f)"
    unfolding ids_after_def
    by (simp only: sorted_list_of_set_sort_remdups distinct_remdups_id [OF d] flip: \<open>set (map r_id ?f) = _\<close>)
  then show ?thesis
    by (simp add: select_campaigns_after_def limit_rows_def take_map [symmetric] map_sort_key)
qed

lemma ids_after_last:
  assumes "take n (ids_after after w) \<noteq> []"
  shows "ids_after (Some (last (take n (ids_after after w)))) w = drop n (ids_after after w)"
proof -
  let ?S = "{i \<in> r_id ` set (w_campaigns w). case after of None \<Rightarrow> True | Some x \<Rightarrow> x < i}"
  let ?l = "ids_after after w" and ?x = "last (take n (ids_after after w))"
  have l: "sorted_wrt (<) ?l" "set ?l = ?S"
    by (simp_all add: ids_after_def strict_sorted_list_of_set)
  have app: "?l = take n ?l @ drop n ?l" by simp
  have x: "?x \<in> set (take n ?l)" using assms by simp
  have lt: "\<forall>y \<in> set (drop n ?l). ?x < y"
    using l(1) x by (metis app sorted_wrt_append)
  have le: "\<forall>y \<in> set (take n ?l). y \<le> ?x"
  proof -
    have "sorted_wrt (<) (butlast (take n ?l) @ [?x])"
      using l(1) assms by (metis app sorted_wrt_append append_butlast_last_id)
    then have "\<forall>y \<in> set (butlast (take n ?l) @ [?x]). y \<le> ?x"
      by (auto simp: sorted_wrt_append)
    then show ?thesis using assms by (metis append_butlast_last_id)
  qed
  have eq: "{i \<in> r_id ` set (w_campaigns w). ?x < i} = set (drop n ?l)"
  proof -
    have "?x \<in> ?S" using in_set_takeD [OF x] by (simp only: l(2))
    then have "{i \<in> r_id ` set (w_campaigns w). ?x < i} = {i \<in> ?S. ?x < i}"
      by (auto split: option.splits dest: order_less_trans)
    also have "\<dots> = {i \<in> set (take n ?l @ drop n ?l). ?x < i}"
      by (simp only: l(2) append_take_drop_id)
    also have "\<dots> = set (drop n ?l)"
      using lt le by (auto simp del: append_take_drop_id)
    finally show ?thesis .
  qed
  have "sorted_wrt (<) (drop n ?l)"
    using l(1) by (metis app sorted_wrt_append)
  then have srt: "sorted (drop n ?l)" "distinct (drop n ?l)"
    by (simp_all add: strict_sorted_iff)
  have "ids_after (Some ?x) w = sorted_list_of_set (set (drop n ?l))"
    by (subst ids_after_def) (simp only: option.case eq)
  also have "\<dots> = drop n ?l"
    by (rule sorted_list_of_set.idem_if_sorted_distinct [OF srt])
  finally show ?thesis .
qed

text \<open>Without faults the loop over a page finds every campaign that was listed.\<close>

lemma campaign_Get_ok:
  assumes "no_faults e" "env_scans e" "pg_wf w" "campaign_at i w = Some c"
  shows "\<exists>ws w'. campaign_Get e i w = (Inr (c\<lparr>c_BusinessHours := ws\<rparr>), w') \<and> same_store w w'
     \<and> mset (map window_key ws) = hours_at i w"
proof -
  have g: "CampaignRepository_Get e i w = (Inr c, tick_io w)"
    using assms(1,4) by (simp add: Get_ok)
  obtain w2 where "fetch_rows e ''business hours: query: '' ''business hours: scan: '' ''business hours: rows err: '' (select_hours e i) (tick_io w)
      = (Inr (select_hours e i (tick_io w)), w2)"
    using fetch_rows_ok [OF assms(1)] by blast
  then have l: "BusinessHourRepository_List e i (tick_io w) = (Inr (map row_window (select_hours e i (tick_io w))), w2)"
    by (simp add: BusinessHourRepository_List_def)
  have "mset (map window_key (map row_window (select_hours e i (tick_io w)))) = hours_at i (tick_io w)"
    using assms(2,3) wf.keeps_tick by (intro listed_keys) (simp_all add: env_scans_def)
  moreover have "campaign_Get e i w = (Inr (c\<lparr>c_BusinessHours := map row_window (select_hours e i (tick_io w))\<rparr>), w2)"
    using g l by (simp add: campaign_Get_def)
  moreover have "same_store w w2"
    using service_reads_same(1) [of w e i] calculation(2) by simp
  moreover have "hours_at i (tick_io w) = hours_at i w"
    by (simp add: hours_at_def)
  ultimately show ?thesis
    by metis
qed

lemma get_each_ok:
  assumes "no_faults e" "env_scans e" "pg_wf w" "\<forall>c \<in> set cs. campaign_at (c_ID c) w \<noteq> None"
  shows "\<exists>rs w'. get_each e cs w = (Inr rs, w') \<and> same_store w w' \<and> map cp_ID rs = map c_ID cs"
  using assms(3,4)
proof (induction cs arbitrary: w)
  case Nil
  then show ?case by simp
next
  case (Cons c cs)
  then obtain c' where c': "campaign_at (c_ID c) w = Some c'" by auto
  obtain ws w1 where g: "campaign_Get e (c_ID c) w = (Inr (c'\<lparr>c_BusinessHours := ws\<rparr>), w1)" "same_store w w1"
    using campaign_Get_ok [OF assms(1,2) Cons.prems(1) c'] by blast
  have "pg_wf w1" "\<forall>c \<in> set cs. campaign_at (c_ID c) w1 \<noteq> None"
    using Cons.prems wf.I_same [OF g(2)] campaign_at_same [OF g(2)] by auto
  then obtain rs w2 where r: "get_each e cs w1 = (Inr rs, w2)" "same_store w1 w2" "map cp_ID rs = map c_ID cs"
    using Cons.IH by blast
  then show ?case
    using g campaign_at_ID [OF c'] same_store_trans by (auto simp: toCampaignResponse_def)
qed


subsection \<open>A sample API\<close>

definition sample_api :: api where
  "sample_api = \<lparr>ap_loc = sample_zones,
     ap_parse_uuid = (\<lambda>s. if s = ''one'' then Inr 1 else if s = ''two'' then Inr 2 else Inl (New ''invalid UUID'')),
     ap_defaultConcurrency = 5, ap_callTopic = ''calls''\<rparr>"

lemma sample_at: "campaign_at 1 sample_world = Some (toDomain sample_row)" "campaign_at 2 sample_world = None"
  by (simp_all add: campaign_at_def find_campaign_def sample_defs)

subsection \<open>Properties\<close>

text \<open>C32: Every response of the API has one of the documented codes, and 503 only comes from the health
  check; the codes for conflicts and quotas never occur. A request that is refused with 400 or
  404 has changed nothing in any store, whatever requests to the servers failed on the way.\<close>

theorem refused_requests_change_nothing:
  assumes "serve e a traceID req w = (resp, w')"
  shows "rs_code resp \<in> {200, 201, 202, 204, 400, 404, 500, 503}
     \<and> (rs_code resp = 503 \<longrightarrow> (\<exists>pg rd sc. req = GetHealth pg rd sc))
     \<and> (rs_code resp = 400 \<or> rs_code resp = 404 \<longrightarrow> same_store w w')"
proof (cases "Register e a req w")
  case (Pair r w1)
  show ?thesis
  proof (cases r)
    case (Inr x)
    then have "resp = x" "Register e a req w = (Inr x, w')"
      using assms Pair by (simp_all add: serve_def)
    then show ?thesis using Register_codes [of e a req w x w'] by auto
  next
    case (Inl err)
    then have "resp = ErrorHandler traceID err" "w1 = w'"
      using assms Pair by (simp_all add: serve_def)
    then show ?thesis
      using harmless_Register [of w e a req] Pair Inl
      by (cases err) (auto simp: harmless_def ErrorHandler_def)
  qed
qed

theorem refused_requests_change_nothing_witness:
  "same_store sample_world (snd (serve sample_env sample_api [] (GetCampaign ''two'') sample_world))"
proof -
  have "campaign_Get sample_env 2 sample_world = (Inl (Sentinel ErrNotFound), tick_io sample_world)"
    using sample_at(2) by (simp add: campaign_Get_def Get_ok)
  then have "serve sample_env sample_api [] (GetCampaign ''two'') sample_world =
      (\<lparr>rs_code = 404, rs_body = ErrorBody ''resource not found'' []\<rparr>, tick_io sample_world)"
    by (simp add: serve_def getCampaign_def with_id_def sample_api_def translateError_def ErrorHandler_def)
  from refused_requests_change_nothing [OF this] this show ?thesis by simp
qed

text \<open>Without faults, the request for a campaign is answered with 404 exactly when the campaign is not
  stored, and otherwise with 200, the stored campaign and its stored business hours; it changes
  nothing.\<close>

theorem get_campaign_answers:
  assumes "no_faults e" "env_scans e" "pg_wf w" "ap_parse_uuid a param = Inr i"
    and "serve e a traceID (GetCampaign param) w = (resp, w')"
  shows "same_store w w'
     \<and> (campaign_at i w = None \<longrightarrow> resp = \<lparr>rs_code = 404, rs_body = ErrorBody ''resource not found'' traceID\<rparr>)
     \<and> (\<forall>c. campaign_at i w = Some c \<longrightarrow> (\<exists>ws. mset (map window_key ws) = hours_at i w
          \<and> resp = \<lparr>rs_code = 200, rs_body = CampaignBody (toCampaignResponse (c\<lparr>c_BusinessHours := ws\<rparr>))\<rparr>))"
proof (cases "campaign_at i w")
  case None
  then have "campaign_Get e i w = (Inl (Sentinel ErrNotFound), tick_io w)"
    using assms(1) by (simp add: campaign_Get_def Get_ok)
  then show ?thesis
    using assms(4,5) None by (auto simp: serve_def getCampaign_def with_id_def translateError_def ErrorHandler_def)
next
  case (Some c)
  obtain ws w1 where g: "campaign_Get e i w = (Inr (c\<lparr>c_BusinessHours := ws\<rparr>), w1)" "same_store w w1"
      "mset (map window_key ws) = hours_at i w"
    using campaign_Get_ok [OF assms(1-3) Some] by blast
  then show ?thesis
    using assms(4,5) Some by (auto simp: serve_def getCampaign_def with_id_def)
qed

theorem get_campaign_answers_witness:
  "\<exists>ws. fst (serve sample_env sample_api [] (GetCampaign ''one'') sample_world) =
     \<lparr>rs_code = 200, rs_body = CampaignBody (toCampaignResponse ((toDomain sample_row)\<lparr>c_BusinessHours := ws\<rparr>))\<rparr>"
proof -
  have "ap_parse_uuid sample_api ''one'' = Inr 1"
    by (simp add: sample_api_def)
  from get_campaign_answers [OF sample_no_faults sample_scans sample_world_wf this surjective_pairing] sample_at(1)
  show ?thesis by blast
qed

text \<open>C33: What the API shows of a campaign can be sent back: the retry policy of a response parses to the
  campaign's policy, for every 64-bit delay, and the windows parse to windows with the same days
  and minutes.\<close>

theorem api_policy_roundtrip:
  assumes "int64 (BaseDelay (c_RetryPolicy c))" "int64 (MaxDelay (c_RetryPolicy c))"
  shows "parseRetryPolicy (policy_request (cp_RetryPolicy (toCampaignResponse c))) = Inr (c_RetryPolicy c)
     \<and> (\<exists>hs. parseBusinessHours (map hours_request (cp_BusinessHours (toCampaignResponse c))) = Inr hs
          \<and> map window_key (toDomainBusinessHours hs) = map window_key (c_BusinessHours c))"
  using parse_windows [of "c_BusinessHours c"] parse_delay_String [OF assms(1)] parse_delay_String [OF assms(2)]
  by (simp add: parseRetryPolicy_def policy_request_def toCampaignResponse_def)

theorem api_policy_roundtrip_witness:
  "parseRetryPolicy (policy_request (cp_RetryPolicy (toCampaignResponse saturday_night))) = Inr (c_RetryPolicy saturday_night)"
  using api_policy_roundtrip [of saturday_night] by (simp add: saturday_night_def int64_def)

text \<open>C34: The list of campaigns is paged without gaps or repetitions: without faults a page holds the first
  campaigns after the given id in ascending order of their ids, as many as the limit allows, and
  what follows the page's last id is exactly what the page has left out.\<close>

theorem campaign_pages:
  assumes "no_faults e" "env_scans e" "pg_wf w"
  shows "\<exists>rs w'. listCampaigns e a q w = (Inr \<lparr>rs_code = 200, rs_body = CampaignsBody rs\<rparr>, w') \<and> same_store w w'
     \<and> map cp_ID rs = take (nat (page_limit q)) (ids_after (page_after a q) w)
     \<and> (rs \<noteq> [] \<longrightarrow> ids_after (Some (cp_ID (last rs))) w = drop (nat (page_limit q)) (ids_after (page_after a q) w))"
proof -
  let ?rows = "select_campaigns_after e (page_after a q) (page_limit q) w"
  have sc: "scans (scan_campaigns e)" using assms(2) by (simp add: env_scans_def)
  obtain w1 where f: "fetch_rows e ''campaign repo: list: '' ''campaign repo: scan: '' ''campaign repo: rows err: ''
      (select_campaigns_after e (page_after a q) (page_limit q)) w = (Inr ?rows, w1)" "same_store w w1"
    using fetch_rows_ok [OF assms(1)] by blast
  then have l: "campaign_List e (page_after a q) (Atoi (Query q ''limit'' ''50'')) w = (Inr (map toDomain ?rows), w1)"
    by (simp add: campaign_List_def CampaignRepository_List_def page_limit_def Let_def)
  have rows: "set ?rows \<subseteq> set (w_campaigns w)"
    by (auto simp: select_campaigns_after_def limit_rows_def scans_set [OF sc] dest!: set_take_sort_key)
  have "\<forall>c \<in> set (map toDomain ?rows). campaign_at (c_ID c) w1 \<noteq> None"
  proof -
    have "campaign_at (r_id r) w \<noteq> None" if "r \<in> set ?rows" for r
      using rows that by (intro campaign_at_exists) blast
    then show ?thesis
      using campaign_at_same [OF f(2)] by (simp add: toDomain_def)
  qed
  then obtain rs w2 where g: "get_each e (map toDomain ?rows) w1 = (Inr rs, w2)" "same_store w1 w2"
      "map cp_ID rs = map c_ID (map toDomain ?rows)"
    using get_each_ok [OF assms(1,2) wf.I_same [OF f(2) assms(3)]] by blast
  have ids: "map cp_ID rs = take (nat (page_limit q)) (ids_after (page_after a q) w)"
    using g(3) select_after_ids [OF sc assms(3)] by (simp add: toDomain_def comp_def)
  have "listCampaigns e a q w = (Inr \<lparr>rs_code = 200, rs_body = CampaignsBody rs\<rparr>, w2)"
    using l g(1) by (simp add: listCampaigns_def page_after_def Let_def)
  moreover have "rs \<noteq> [] \<Longrightarrow> cp_ID (last rs) = last (take (nat (page_limit q)) (ids_after (page_after a q) w))"
    using ids last_map [of rs cp_ID] by simp
  moreover have "rs \<noteq> [] \<Longrightarrow> take (nat (page_limit q)) (ids_after (page_after a q) w) \<noteq> []"
    using ids by (metis map_is_Nil_conv)
  ultimately have "rs \<noteq> [] \<longrightarrow> ids_after (Some (cp_ID (last rs))) w = drop (nat (page_limit q)) (ids_after (page_after a q) w)"
    using ids_after_last by metis
  moreover note \<open>listCampaigns e a q w = _\<close>
  ultimately show ?thesis
    using ids same_store_trans [OF f(2) g(2)] by blast
qed

theorem campaign_pages_witness:
  "\<exists>rs. rs_body (projr (fst (listCampaigns sample_env sample_api (\<lambda>_. []) sample_world))) = CampaignsBody rs
     \<and> map cp_ID rs = take 50 (ids_after None sample_world)"
proof -
  have "nat (page_limit (\<lambda>_. [])) = 50"
    by (simp add: page_limit_def Query_def Atoi_def is_digit_def digit_val_def)
  moreover have "page_after sample_api (\<lambda>_. []) = None"
    by (simp add: page_after_def Query_def)
  ultimately show ?thesis
    using campaign_pages [OF sample_no_faults sample_scans sample_world_wf, of sample_api "\<lambda>_. []"] by auto
qed

end
