(* ===== verification/Scheduler.thy ===== *)
theory Scheduler
  imports Call_Service Campaign_Laws
begin

text \<open>
  The scheduler (\<open>internal/scheduler/scheduler.go\<close>): one tick, with the check for pending
  retries, the loop over the campaigns in progress and, for each, the batch of targets that is
  marked and then dispatched. What a read of a retry topic returns within its 200 ms is a
  parameter: \<open>None\<close> for a message, otherwise the error. Errors inside the loop are only logged.
\<close>

record scheduler =
  sc_retryTopics :: "string list"
  sc_workerCount :: int
  sc_maxBatchSize :: int
  sc_callTopic :: string
  sc_defaultConcurrency :: int

fun hasPendingRetries :: "(string \<Rightarrow> go_error option) \<Rightarrow> string list \<Rightarrow> bool" where
  "hasPendingRetries probe [] = False"
| "hasPendingRetries probe (topic # topics) =
     (case probe topic of None \<Rightarrow> True | Some err \<Rightarrow> hasPendingRetries probe topics)"

definition campaignFetchLimit :: "int \<Rightarrow> int" where
  "campaignFetchLimit workerCount =
     (let limit = wrap64 (workerCount * 10);
          limit = (if limit \<le> 0 then 100 else limit)
      in wrap64 (limit * 2))"

text \<open>The loop that triggers the calls of a batch: the ids of the targets that failed.\<close>

fun trigger_loop ::
    "env \<Rightarrow> scheduler \<Rightarrow> uuid \<Rightarrow> CampaignTargetRecord list \<Rightarrow> world \<Rightarrow> uuid list \<times> world" where
  "trigger_loop e sc i [] w = ([], w)"
| "trigger_loop e sc i (t # ts) w =
     (case TriggerCall e (sc_callTopic sc) (sc_defaultConcurrency sc)
             \<lparr>tc_CampaignID = i, tc_PhoneNumber = ct_PhoneNumber t, tc_Metadata = ct_Payload t\<rparr> w of
        (r, w1) \<Rightarrow> (case trigger_loop e sc i ts w1 of (failed, w2) \<Rightarrow>
           (case r of Inl err \<Rightarrow> ct_ID t # failed | Inr call \<Rightarrow> failed, w2)))"

text \<open>The batch that was read: it is marked, its calls are triggered and the targets that failed are
  pending again.\<close>

definition claim_batch :: "env \<Rightarrow> scheduler \<Rightarrow> uuid \<Rightarrow> CampaignTargetRecord list \<Rightarrow> world \<Rightarrow> world" where
  "claim_batch e sc i targets w =
     (case Now e w of (scheduledAt, w2) \<Rightarrow>
        (case CampaignTargetRepository_MarkScheduled e i (map ct_ID targets) scheduledAt w2 of
           (Some err, w3) \<Rightarrow> w3
         | (None, w3) \<Rightarrow>
             (case trigger_loop e sc i targets w3 of (failed, w4) \<Rightarrow>
                if failed \<noteq> [] then snd (CampaignTargetRepository_SetState e i failed ''pending'' w4) else w4)))"

definition schedule_campaign ::
    "env \<Rightarrow> (string \<Rightarrow> go_error + location) \<Rightarrow> scheduler \<Rightarrow> go_time \<Rightarrow> Campaign \<Rightarrow> world \<Rightarrow> world" where
  "schedule_campaign e loc sc nowUTC campaign w =
     (if \<not> isWithinBusinessHours loc nowUTC campaign then w
      else (case CampaignTargetRepository_NextBatchForScheduling e (c_ID campaign) (sc_maxBatchSize sc) w of
              (Inl err, w1) \<Rightarrow> w1
            | (Inr targets, w1) \<Rightarrow>
                if targets = [] then w1 else claim_batch e sc (c_ID campaign) targets w1))"

definition tick ::
    "env \<Rightarrow> (string \<Rightarrow> go_error + location) \<Rightarrow> scheduler \<Rightarrow> (string \<Rightarrow> go_error option) \<Rightarrow> world
      \<Rightarrow> go_error option \<times> world" where
  "tick e loc sc probe w =
     (if hasPendingRetries probe (sc_retryTopics sc) then (None, w)
      else (case Now e w of (nowUTC, w1) \<Rightarrow>
             (case campaign_ListByStatus e CampaignStatusInProgress (campaignFetchLimit (sc_workerCount sc)) w1 of
                (Inl err, w2) \<Rightarrow> (Some err, w2)
              | (Inr campaigns, w2) \<Rightarrow> (None, fold (schedule_campaign e loc sc nowUTC) campaigns w2))))"

subsection \<open>The batch of a campaign\<close>

definition dispatches_one :: "string \<Rightarrow> uuid \<Rightarrow> string set \<Rightarrow> kafka_record \<Rightarrow> bool" where
  "dispatches_one topic i phones r \<longleftrightarrow>
     (\<exists>d. k_topic r = topic \<and> k_value r = enc_dispatch d \<and> dm_CampaignID d = i \<and> dm_Attempt d = 1 \<and> dm_PhoneNumber d \<in> phones)"

lemma new_dispatch_fields [simp]:
  "dm_CampaignID (new_dispatch input c dc u now) = tc_CampaignID input"
  "dm_PhoneNumber (new_dispatch input c dc u now) = tc_PhoneNumber input"
  "dm_Attempt (new_dispatch input c dc u now) = 1" "dm_CallID (new_dispatch input c dc u now) = u"
  "dm_MaxAttempts (new_dispatch input c dc u now) = MaxAttempts (c_RetryPolicy c)"
  by (simp_all add: new_dispatch_def Let_def)

lemma dispatches_oneI:
  "k_topic r = topic \<Longrightarrow> k_value r = enc_dispatch d \<Longrightarrow> dm_CampaignID d = i \<Longrightarrow> dm_Attempt d = 1 \<Longrightarrow>
   dm_PhoneNumber d \<in> P \<Longrightarrow> dispatches_one topic i P r"
  unfolding dispatches_one_def by blast

lemma TriggerCall_kafka:
  assumes "TriggerCall e topic dc input w = (r, w')"
  shows "w_kafka w' = w_kafka w \<and> (\<exists>err. r = Inl err) \<or>
    (\<exists>x. w_kafka w' = w_kafka w @ [x] \<and> dispatches_one topic (tc_CampaignID input) {tc_PhoneNumber input} x)"
  using assms
proof (cases rule: TriggerCall_cases)
  case (unsaved err c u now w4)
  then show ?thesis using CreateCall_tables(4) [OF unsaved(3)] by (simp add: same_store_fields)
next
  case (uncounted err c u now w4 w5)
  then show ?thesis
    using CreateCall_tables(4) [OF uncounted(3)] ApplyDelta_stats(4) [OF uncounted(4)] by (simp add: same_store_fields)
next
  case (sent campaign u now w1 w2 w4 w5 w6 w7 q)
  have w6: "w_kafka w6 = w_kafka w"
    using CreateCall_tables(4) [OF sent(4)] ApplyDelta_stats(4) [OF sent(5)] sent(1) by (simp add: same_store_fields)
  have w7: "w_kafka w' = w_kafka w7"
    using sent(7,8) ApplyDelta_stats(4) [OF surjective_pairing] by (cases q) auto
  have "w_kafka w7 = w_kafka w6 \<and> q \<noteq> None \<or>
      (\<exists>x. w_kafka w7 = w_kafka w6 @ [x] \<and> dispatches_one topic (tc_CampaignID input) {tc_PhoneNumber input} x)"
    using dispatcher.publish_kafka [OF sent(6)]
    by (auto intro!: dispatches_oneI [where d = "new_dispatch input campaign dc u now"])
  then show ?thesis
    using w6 w7 sent(8) by auto
qed (simp add: same_store_fields)

lemma dispatches_mono: "dispatches_one topic i P r \<Longrightarrow> P \<subseteq> Q \<Longrightarrow> dispatches_one topic i Q r"
  by (auto simp: dispatches_one_def)

lemma trigger_loop_kafka:
  assumes "trigger_loop e sc i ts w = (failed, w')"
  shows "\<exists>rs. w_kafka w' = w_kafka w @ rs \<and> length rs \<le> length ts
     \<and> length ts \<le> length rs + length failed
     \<and> (\<forall>r \<in> set rs. dispatches_one (sc_callTopic sc) i (ct_PhoneNumber ` set ts) r)"
  using assms
proof (induction ts arbitrary: w failed)
  case Nil
  then show ?case by simp
next
  case (Cons t ts)
  obtain r w1 where t: "TriggerCall e (sc_callTopic sc) (sc_defaultConcurrency sc)
      \<lparr>tc_CampaignID = i, tc_PhoneNumber = ct_PhoneNumber t, tc_Metadata = ct_Payload t\<rparr> w = (r, w1)" by force
  obtain f where l: "trigger_loop e sc i ts w1 = (f, w')"
    and f: "failed = (case r of Inl err \<Rightarrow> ct_ID t # f | Inr call \<Rightarrow> f)"
    using Cons.prems t by (auto split: prod.splits)
  obtain rs where rs: "w_kafka w' = w_kafka w1 @ rs" "length rs \<le> length ts" "length ts \<le> length rs + length f"
      "\<forall>r \<in> set rs. dispatches_one (sc_callTopic sc) i (ct_PhoneNumber ` set ts) r"
    using Cons.IH [OF l] by blast
  have sub: "\<forall>r \<in> set rs. dispatches_one (sc_callTopic sc) i (ct_PhoneNumber ` set (t # ts)) r"
    using rs(4) dispatches_mono [of _ _ "ct_PhoneNumber ` set ts" _ "ct_PhoneNumber ` set (t # ts)"] by auto
  from TriggerCall_kafka [OF t] show ?case
  proof
    assume "w_kafka w1 = w_kafka w \<and> (\<exists>err. r = Inl err)"
    then show ?thesis using rs f sub by (intro exI [of _ rs]) auto
  next
    assume "\<exists>x. w_kafka w1 = w_kafka w @ [x] \<and> dispatches_one (sc_callTopic sc)
      (tc_CampaignID \<lparr>tc_CampaignID = i, tc_PhoneNumber = ct_PhoneNumber t, tc_Metadata = ct_Payload t\<rparr>)
      {tc_PhoneNumber \<lparr>tc_CampaignID = i, tc_PhoneNumber = ct_PhoneNumber t, tc_Metadata = ct_Payload t\<rparr>} x"
    then obtain x where x: "w_kafka w1 = w_kafka w @ [x]" "dispatches_one (sc_callTopic sc) i {ct_PhoneNumber t} x"
      by auto
    have "dispatches_one (sc_callTopic sc) i (ct_PhoneNumber ` set (t # ts)) x"
      using dispatches_mono [OF x(2)] by auto
    then show ?thesis
      using rs f sub x(1) by (intro exI [of _ "x # rs"]) (auto split: sum.splits)
  qed
qed

lemma trigger_loop_tables:
  "trigger_loop e sc i ts w = (failed, w') \<Longrightarrow> w_campaigns w' = w_campaigns w \<and> w_targets w' = w_targets w
     \<and> w_hours w' = w_hours w"
proof (induction ts arbitrary: w failed)
  case (Cons t ts)
  then show ?case
    by (auto split: prod.splits dest!: TriggerCall_tables)
qed simp

subsection \<open>Marking targets\<close>

definition queue_target :: "go_time \<Rightarrow> target_row \<Rightarrow> target_row" where
  "queue_target tm r = r\<lparr>tg_state := ''queued'', tg_scheduled_at := Some tm\<rparr>"

definition set_target :: "string \<Rightarrow> target_row \<Rightarrow> target_row" where
  "set_target st r = r\<lparr>tg_state := st\<rparr>"

lemma MarkScheduled_cases:
  assumes "CampaignTargetRepository_MarkScheduled e i ids tm w = (err, w')"
  obtains (same) "same_store w w'" "err \<noteq> None \<or> ids = []"
  | (marked) t where "same_store (w\<lparr>w_targets := retargeted t i ids (queue_target tm) (w_targets w)\<rparr>) w'"
proof (cases "ids = []")
  case True
  then show thesis using assms same by (simp add: CampaignTargetRepository_MarkScheduled_def)
next
  case False
  then have "run_stmt e ''campaign targets: mark scheduled: '' (update_targets e i ids (queue_target tm)) w = (err, w')"
    using assms by (simp add: CampaignTargetRepository_MarkScheduled_def queue_target_def [abs_def])
  then show thesis
    by (cases rule: run_update_targets_cases) (use same marked in blast)+
qed

lemma SetState_cases:
  assumes "CampaignTargetRepository_SetState e i ids st w = (err, w')"
  obtains (same) "same_store w w'" "err \<noteq> None \<or> ids = []"
  | (marked) t where "same_store (w\<lparr>w_targets := retargeted t i ids (set_target st) (w_targets w)\<rparr>) w'"
proof (cases "ids = []")
  case True
  then show thesis using assms same by (simp add: CampaignTargetRepository_SetState_def)
next
  case False
  then have "run_stmt e ''campaign targets: set state: '' (update_targets e i ids (set_target st)) w = (err, w')"
    using assms by (simp add: CampaignTargetRepository_SetState_def set_target_def [abs_def])
  then show thesis
    by (cases rule: run_update_targets_cases) (use same marked in blast)+
qed

text \<open>\<open>keeps_lists w w'\<close>: the campaigns, their hours and their registered phone numbers are the same.\<close>

definition keeps_lists :: "world \<Rightarrow> world \<Rightarrow> bool" where
  "keeps_lists w w' \<longleftrightarrow> w_campaigns w' = w_campaigns w \<and> w_hours w' = w_hours w
     \<and> (\<forall>j. phones_of j w' = phones_of j w)"

lemma keeps_lists_same: "same_store w w' \<Longrightarrow> keeps_lists w w'"
  by (simp add: keeps_lists_def same_store_fields phones_of_same)

lemma keeps_lists_trans [trans]: "keeps_lists a b \<Longrightarrow> keeps_lists b c \<Longrightarrow> keeps_lists a c"
  by (simp add: keeps_lists_def)

lemma keeps_lists_targets:
  "w_campaigns w' = w_campaigns w \<Longrightarrow> w_hours w' = w_hours w \<Longrightarrow> w_targets w' = w_targets w \<Longrightarrow> keeps_lists w w'"
  by (simp add: keeps_lists_def phones_of_def targets_of_def)

lemma retargeted_phones:
  assumes "\<And>r. tg_phone_number (f r) = tg_phone_number r" "\<And>r. tg_campaign_id (f r) = tg_campaign_id r"
  shows "phones_of j (w\<lparr>w_targets := retargeted t i ids f (w_targets w)\<rparr>) = phones_of j w"
proof -
  have "map (\<lambda>r. (tg_campaign_id r, tg_phone_number r)) (retargeted t i ids f rows) =
      map (\<lambda>r. (tg_campaign_id r, tg_phone_number r)) rows" for rows
    using assms by (induction rows) (auto simp: retargeted_def)
  from arg_cong [OF this [of "w_targets w"], of set]
  have "(\<lambda>r. (tg_campaign_id r, tg_phone_number r)) ` set (retargeted t i ids f (w_targets w)) =
      (\<lambda>r. (tg_campaign_id r, tg_phone_number r)) ` set (w_targets w)"
    by (simp only: set_map)
  moreover have "phones_of j v = {p. (j, p) \<in> (\<lambda>r. (tg_campaign_id r, tg_phone_number r)) ` set (w_targets v)}" for v
    by (auto simp: phones_of_def targets_of_def)
  ultimately show ?thesis by simp
qed

lemma keeps_lists_marked:
  assumes "same_store (w\<lparr>w_targets := retargeted t i ids f (w_targets w)\<rparr>) w'"
    and "\<And>r. tg_phone_number (f r) = tg_phone_number r" "\<And>r. tg_campaign_id (f r) = tg_campaign_id r"
  shows "keeps_lists w w'"
proof -
  have "phones_of j w' = phones_of j w" for j
    by (simp only: phones_of_same [OF assms(1)] retargeted_phones [OF assms(2,3)])
  then show ?thesis
    using same_store_fields [OF assms(1)] by (simp add: keeps_lists_def)
qed

lemma MarkScheduled_keeps:
  "CampaignTargetRepository_MarkScheduled e i ids tm w = (err, w') \<Longrightarrow> keeps_lists w w' \<and> w_kafka w' = w_kafka w"
  by (erule MarkScheduled_cases)
    (auto simp: queue_target_def dest: keeps_lists_same same_store_fields(8) intro: keeps_lists_marked)

lemma SetState_keeps:
  "CampaignTargetRepository_SetState e i ids st w = (err, w') \<Longrightarrow> keeps_lists w w' \<and> w_kafka w' = w_kafka w"
  by (erule SetState_cases)
    (auto simp: set_target_def dest: keeps_lists_same same_store_fields(8) intro: keeps_lists_marked)

lemma select_targets_phones:
  assumes "scans (scan_targets e)" "r \<in> set (select_targets e i st n w)"
  shows "tg_phone_number r \<in> phones_of i w"
  using select_targets_set [OF assms] by (simp add: phones_of_def)

lemma NextBatch_phones:
  assumes "CampaignTargetRepository_NextBatchForScheduling e i n w = (Inr ts, w')" "env_scans e"
  shows "ct_PhoneNumber ` set ts \<subseteq> phones_of i w" "0 < n \<Longrightarrow> length ts \<le> nat n"
proof -
  have ts: "ts = map (toModel i) (select_targets e i (Some ''pending'') (if n \<le> 0 then 100 else n) w)"
    using assms(1) by (rule NextBatch_Inr)
  then show "ct_PhoneNumber ` set ts \<subseteq> phones_of i w"
    using select_targets_phones [where e = e and w = w] assms(2) by (auto simp: env_scans_def)
  show "0 < n \<Longrightarrow> length ts \<le> nat n"
    using ts select_targets_length [of e i "Some ''pending''" n w] by simp
qed

text \<open>What scheduling one campaign does, whatever fails.\<close>

lemma claim_batch_effect:
  obtains rs where "keeps_lists w (claim_batch e sc i ts w)" "w_kafka (claim_batch e sc i ts w) = w_kafka w @ rs"
    "length rs \<le> length ts" "\<forall>r \<in> set rs. dispatches_one (sc_callTopic sc) i (ct_PhoneNumber ` set ts) r"
proof -
  obtain tm w2 where n: "Now e w = (tm, w2)" by force
  then have k2: "keeps_lists w w2" "w_kafka w2 = w_kafka w"
    using Now_same keeps_lists_same same_store_fields(8) by blast+
  obtain m w3 where m: "CampaignTargetRepository_MarkScheduled e i (map ct_ID ts) tm w2 = (m, w3)" by force
  then have k3: "keeps_lists w w3" "w_kafka w3 = w_kafka w"
    using k2 MarkScheduled_keeps keeps_lists_trans by metis+
  show thesis
  proof (cases m)
    case (Some err)
    then have "claim_batch e sc i ts w = w3"
      using n m by (simp add: claim_batch_def)
    then show thesis using that [of "[]"] k3 by simp
  next
    case None
    obtain failed w4 where l: "trigger_loop e sc i ts w3 = (failed, w4)" by force
    have k4: "keeps_lists w w4"
      using trigger_loop_tables [OF l] keeps_lists_targets keeps_lists_trans [OF k3(1)] by blast
    obtain rs where rs: "w_kafka w4 = w_kafka w3 @ rs" "length rs \<le> length ts"
        "\<forall>r \<in> set rs. dispatches_one (sc_callTopic sc) i (ct_PhoneNumber ` set ts) r"
      using trigger_loop_kafka [OF l] by blast
    obtain x w5 where x: "CampaignTargetRepository_SetState e i failed ''pending'' w4 = (x, w5)" by force
    have "keeps_lists w w5" "w_kafka w5 = w_kafka w4"
      using SetState_keeps [OF x] k4 keeps_lists_trans by blast+
    moreover have "claim_batch e sc i ts w = (if failed \<noteq> [] then w5 else w4)"
      using n m None l x by (simp add: claim_batch_def)
    ultimately show thesis using that [of rs] rs k3(2) k4 by auto
  qed
qed

lemma schedule_campaign_effect:
  assumes "env_scans e"
  shows "keeps_lists w (schedule_campaign e loc sc now c w)
    \<and> (\<exists>rs. w_kafka (schedule_campaign e loc sc now c w) = w_kafka w @ rs
         \<and> (rs \<noteq> [] \<longrightarrow> isWithinBusinessHours loc now c)
         \<and> (0 < sc_maxBatchSize sc \<longrightarrow> length rs \<le> nat (sc_maxBatchSize sc))
         \<and> (\<forall>r \<in> set rs. dispatches_one (sc_callTopic sc) (c_ID c) (phones_of (c_ID c) w) r))"
proof (cases "isWithinBusinessHours loc now c")
  case False
  then show ?thesis by (simp add: schedule_campaign_def keeps_lists_same)
next
  case open_now: True
  obtain b w1 where b: "CampaignTargetRepository_NextBatchForScheduling e (c_ID c) (sc_maxBatchSize sc) w = (b, w1)" by force
  then have k1: "keeps_lists w w1" "w_kafka w1 = w_kafka w"
    using NextBatch_same keeps_lists_same same_store_fields(8) by blast+
  show ?thesis
  proof (cases "\<exists>ts. b = Inr ts \<and> ts \<noteq> []")
    case False
    then have "schedule_campaign e loc sc now c w = w1"
      using open_now b by (cases b) (auto simp: schedule_campaign_def)
    then show ?thesis using k1 by simp
  next
    case True
    then obtain ts where ts: "b = Inr ts" "ts \<noteq> []" by blast
    obtain rs where rs: "keeps_lists w1 (claim_batch e sc (c_ID c) ts w1)" "w_kafka (claim_batch e sc (c_ID c) ts w1) = w_kafka w1 @ rs"
        "length rs \<le> length ts" "\<forall>r \<in> set rs. dispatches_one (sc_callTopic sc) (c_ID c) (ct_PhoneNumber ` set ts) r"
      by (rule claim_batch_effect)
    have "\<forall>r \<in> set rs. dispatches_one (sc_callTopic sc) (c_ID c) (phones_of (c_ID c) w) r"
      using rs(4) NextBatch_phones(1) [OF b [unfolded ts(1)] assms] dispatches_mono by blast
    moreover have "schedule_campaign e loc sc now c w = claim_batch e sc (c_ID c) ts w1"
      using open_now b ts by (simp add: schedule_campaign_def)
    ultimately show ?thesis
      using k1 rs(1-3) keeps_lists_trans open_now NextBatch_phones(2) [OF b [unfolded ts(1)] assms]
      by (intro conjI exI [of _ rs]) auto
  qed
qed


lemma fold_schedule_effect:
  assumes "env_scans e"
  shows "keeps_lists w (fold (schedule_campaign e loc sc now) cs w)
    \<and> (\<exists>rs. w_kafka (fold (schedule_campaign e loc sc now) cs w) = w_kafka w @ rs
         \<and> (0 < sc_maxBatchSize sc \<longrightarrow> length rs \<le> length cs * nat (sc_maxBatchSize sc))
         \<and> (\<forall>r \<in> set rs. \<exists>c \<in> set cs. isWithinBusinessHours loc now c
              \<and> dispatches_one (sc_callTopic sc) (c_ID c) (phones_of (c_ID c) w) r))"
proof (induction cs arbitrary: w)
  case Nil
  then show ?case by (simp add: keeps_lists_same)
next
  case (Cons c cs)
  let ?w1 = "schedule_campaign e loc sc now c w"
  obtain rs where k: "keeps_lists w ?w1" and rs: "w_kafka ?w1 = w_kafka w @ rs" "rs \<noteq> [] \<longrightarrow> isWithinBusinessHours loc now c"
      "0 < sc_maxBatchSize sc \<longrightarrow> length rs \<le> nat (sc_maxBatchSize sc)"
      "\<forall>r \<in> set rs. dispatches_one (sc_callTopic sc) (c_ID c) (phones_of (c_ID c) w) r"
    using schedule_campaign_effect [OF assms, of w loc sc now c] by blast
  obtain qs where k2: "keeps_lists ?w1 (fold (schedule_campaign e loc sc now) cs ?w1)"
      and qs: "w_kafka (fold (schedule_campaign e loc sc now) cs ?w1) = w_kafka ?w1 @ qs"
      "0 < sc_maxBatchSize sc \<longrightarrow> length qs \<le> length cs * nat (sc_maxBatchSize sc)"
      "\<forall>r \<in> set qs. \<exists>c \<in> set cs. isWithinBusinessHours loc now c
              \<and> dispatches_one (sc_callTopic sc) (c_ID c) (phones_of (c_ID c) ?w1) r"
    using Cons.IH [of ?w1] by blast
  have ph: "phones_of j ?w1 = phones_of j w" for j
    using k by (simp add: keeps_lists_def)
  show ?case
    using keeps_lists_trans [OF k k2] rs qs
    by (intro conjI exI [of _ "rs @ qs"]) (auto simp: ph)
qed

text \<open>The windows stored for a campaign, and the test of the scheduler on them: the order in which
  they are listed does not matter.\<close>

definition stored_hours :: "uuid \<Rightarrow> world \<Rightarrow> BusinessHourWindow list" where
  "stored_hours i w = map row_window (filter (\<lambda>h. h_campaign_id h = i) (w_hours w))"

definition stored_campaign :: "world \<Rightarrow> campaign_row \<Rightarrow> Campaign" where
  "stored_campaign w r = (toDomain r)\<lparr>c_BusinessHours := stored_hours (r_id r) w\<rparr>"

lemma window_loop_member: "window_loop d m ws \<longleftrightarrow> (\<exists>b \<in> set ws. window_loop d m [b])"
proof (induction ws)
  case (Cons b ws)
  have "window_loop d m (b # ws) \<longleftrightarrow> window_loop d m [b] \<or> window_loop d m ws"
    by (auto simp: Let_def)
  then show ?case using Cons by simp
qed simp

lemma isWithinBusinessHours_set:
  assumes "set (c_BusinessHours c) = set ws"
  shows "isWithinBusinessHours loc t c = isWithinBusinessHours loc t (c\<lparr>c_BusinessHours := ws\<rparr>)"
proof -
  have "(c_BusinessHours c = []) = (ws = [])"
    using assms by (metis set_empty)
  moreover have "window_loop d m (c_BusinessHours c) = window_loop d m ws" for d m
    using assms window_loop_member [of d m ws] window_loop_member [of d m "c_BusinessHours c"] by simp
  ultimately show ?thesis
    by (simp add: isWithinBusinessHours_def Let_def split: sum.split)
qed

lemma listed_hours_set: "scans (scan_hours e) \<Longrightarrow> set (map row_window (select_hours e i w)) = set (stored_hours i w)"
  by (auto simp: stored_hours_def select_hours_set)

lemma populate_hours_Inr:
  assumes "populate_hours e cs w = (Inr cs', w')" "scans (scan_hours e)"
  shows "list_all2 (\<lambda>c c'. \<exists>ws. set ws = set (stored_hours (c_ID c) w) \<and> c' = c\<lparr>c_BusinessHours := ws\<rparr>) cs cs'"
  using assms(1)
proof (induction cs arbitrary: w cs')
  case Nil
  then show ?case by simp
next
  case (Cons c cs)
  obtain ws w1 cs1 where l: "BusinessHourRepository_List e (c_ID c) w = (Inr ws, w1)"
    and p: "populate_hours e cs w1 = (Inr cs1, w')" and cs': "cs' = c\<lparr>c_BusinessHours := ws\<rparr> # cs1"
    using Cons.prems by (auto split: prod.splits sum.splits)
  have "set ws = set (stored_hours (c_ID c) w)"
    using List_hours_Inr [OF l] listed_hours_set [OF assms(2)] by metis
  moreover have "stored_hours i w1 = stored_hours i w" for i
    using List_hours_same [OF l] by (simp add: stored_hours_def same_store_fields)
  ultimately show ?case
    using Cons.IH [OF p] cs' by auto
qed

lemma ListByStatus_members:
  assumes "campaign_ListByStatus e st n w = (Inr cs, w')" "env_scans e" "c \<in> set cs"
  shows "\<exists>r \<in> set (w_campaigns w). r_status r = st \<and> c_ID c = r_id r
    \<and> (\<forall>loc t. isWithinBusinessHours loc t c = isWithinBusinessHours loc t (stored_campaign w r))"
proof -
  obtain cs0 w1 where l: "CampaignRepository_ListByStatus e st n w = (Inr cs0, w1)"
      and p: "populate_hours e cs0 w1 = (Inr cs, w')"
    using assms(1) by (auto simp: campaign_ListByStatus_def split: prod.splits sum.splits)
  obtain c0 ws where c0: "c0 \<in> set cs0" "set ws = set (stored_hours (c_ID c0) w1)" "c = c0\<lparr>c_BusinessHours := ws\<rparr>"
    using populate_hours_Inr [OF p] assms(2,3) unfolding env_scans_def list_all2_conv_all_nth in_set_conv_nth by metis
  have h: "stored_hours i w1 = stored_hours i w" for i
    using ListByStatus_same [OF l] by (simp add: stored_hours_def same_store_fields)
  have "c0 \<in> toDomain ` set (select_campaigns_by_status e st (if n \<le> 0 then 100 else n) w)"
    using l c0(1) by (auto simp: CampaignRepository_ListByStatus_def Let_def split: prod.splits sum.splits if_splits dest!: fetch_rows_Inr)
  then obtain r where r: "c0 = toDomain r" "r \<in> set (w_campaigns w)" "r_status r = st"
    using assms(2) by (auto simp: select_campaigns_by_status_def limit_rows_def env_scans_def scans_set dest!: set_take_sort_key)
  have id: "c_ID (toDomain r) = r_id r"
    by (simp add: toDomain_def)
  have "isWithinBusinessHours loc t c = isWithinBusinessHours loc t (stored_campaign w r)" for loc t
    using c0(2) isWithinBusinessHours_set [of c "stored_hours (r_id r) w" loc t]
    by (simp add: c0(3) r(1) id h stored_campaign_def)
  then show ?thesis
    using r c0(3) id by (intro bexI [of _ r]) simp_all
qed

lemma ListByStatus_length:
  assumes "campaign_ListByStatus e st n w = (Inr cs, w')" "env_scans e"
  shows "length cs \<le> nat (if n \<le> 0 then 100 else n)"
proof -
  obtain cs0 w1 where l: "CampaignRepository_ListByStatus e st n w = (Inr cs0, w1)"
      and p: "populate_hours e cs0 w1 = (Inr cs, w')"
    using assms(1) by (auto simp: campaign_ListByStatus_def split: prod.splits sum.splits)
  have "length cs0 \<le> nat (if n \<le> 0 then 100 else n)"
    using l by (auto simp: CampaignRepository_ListByStatus_def Let_def select_campaigns_by_status_def limit_rows_def
        split: prod.splits sum.splits if_splits dest!: fetch_rows_Inr)
  then show ?thesis
    using populate_hours_Inr [OF p] assms(2) by (auto simp: env_scans_def dest: list_all2_lengthD)
qed


text \<open>The number of dispatches of a tick: the campaigns it fetches times the size of a batch.\<close>

lemma batch_bound:
  assumes "campaign_ListByStatus e st (campaignFetchLimit wc) w = (Inr cs, w')" "env_scans e"
    and "0 < wc" "wc < 2 ^ 58" "0 < mb" "n \<le> length cs * nat mb"
  shows "int n \<le> 20 * wc * mb"
proof -
  have "campaignFetchLimit wc = 20 * wc"
    using assms(3,4) by (simp add: campaignFetchLimit_def Let_def int64_def)
  then have "int (length cs) \<le> 20 * wc"
    using ListByStatus_length [OF assms(1,2)] assms(3) by simp
  then have "int (length cs) * mb \<le> 20 * wc * mb"
    using assms(5) by (intro mult_right_mono) simp_all
  moreover have "int (length cs * nat mb) = int (length cs) * mb"
    using assms(5) by simp
  ultimately show ?thesis
    using of_nat_mono [OF assms(6), where 'a = int] by linarith
qed

subsection \<open>Progress without faults\<close>

text \<open>The counters of a campaign have room for \<open>n\<close> more calls.\<close>

definition room :: "nat \<Rightarrow> uuid \<Rightarrow> world \<Rightarrow> bool" where
  "room n i w \<longleftrightarrow> (\<forall>s. w_stats w i = Some s \<longrightarrow> TotalCalls s + int n < 2 ^ 63 \<and> PendingCalls s + int n < 2 ^ 63)"

definition can_call :: "nat \<Rightarrow> uuid \<Rightarrow> world \<Rightarrow> bool" where
  "can_call n i w \<longleftrightarrow> pg_wf w \<and> campaign_at i w \<noteq> None \<and> int (card (targets_of i w)) \<le> 10000 \<and> room n i w"

lemma room_trigger:
  assumes "pg_wf w" "room (Suc n) i w" "w_stats w i = Some s"
  shows "stats_in_range (add_delta trigger_delta s)"
proof -
  have "stats_in_range s" "TotalCalls s + int (Suc n) < 2 ^ 63" "PendingCalls s + int (Suc n) < 2 ^ 63"
    using assms by (simp_all add: pg_wf_def room_def)
  then show ?thesis
    by (simp add: stats_in_range_def add_delta_def trigger_delta_def zero_delta_def int64_def)
qed

lemma can_call_step:
  assumes "TriggerCall e topic dc input w = (Inr call, w')" "tc_CampaignID input = i" "can_call (Suc n) i w"
  shows "can_call n i w'"
proof -
  have st: "w_stats w' = (w_stats w)(i := map_option (add_delta trigger_delta) (w_stats w i))"
    using TriggerCall_stats [OF assms(1)] assms(2) by (auto simp: stats_moved_def)
  have tb: "w_campaigns w' = w_campaigns w" "w_targets w' = w_targets w" "w_hours w' = w_hours w"
    using TriggerCall_tables [OF assms(1)] by simp_all
  have "pg_wf w'"
    using assms(3) room_trigger [of w n i]
    by (auto simp: can_call_def pg_wf_def st tb hours_row_ok_def split: if_splits)
  moreover have "room n i w'"
    using assms(3) by (auto simp: can_call_def room_def st add_delta_def trigger_delta_def zero_delta_def)
  ultimately show ?thesis
    using assms(3) by (simp add: can_call_def campaign_at_def find_campaign_def targets_of_def tb)
qed

lemma trigger_loop_ok:
  assumes "no_faults e" "env_scans e" "can_call (length ts) i w"
    and "\<forall>t \<in> set ts. ct_PhoneNumber t \<noteq> [] \<and> ct_PhoneNumber t \<in> phones_of i w"
  shows "\<exists>w'. trigger_loop e sc i ts w = ([], w')"
  using assms(3,4)
proof (induction ts arbitrary: w)
  case Nil
  then show ?case by simp
next
  case (Cons t ts)
  let ?in = "\<lparr>tc_CampaignID = i, tc_PhoneNumber = ct_PhoneNumber t, tc_Metadata = ct_Payload t\<rparr>"
  obtain c where c: "campaign_at i w = Some c"
    using Cons.prems(1) by (auto simp: can_call_def)
  have "\<exists>call w1. TriggerCall e (sc_callTopic sc) (sc_defaultConcurrency sc) ?in w = (Inr call, w1)"
    using Cons.prems c room_trigger [of w "length ts" i]
    by (intro TriggerCall_ok [OF assms(1,2)]) (simp_all add: can_call_def)
  then obtain call w1 where t: "TriggerCall e (sc_callTopic sc) (sc_defaultConcurrency sc) ?in w = (Inr call, w1)"
    by blast
  have "can_call (length ts) i w1"
    using Cons.prems(1) by (intro can_call_step [OF t]) simp_all
  moreover have "phones_of i w1 = phones_of i w"
    using TriggerCall_tables [OF t] by (simp add: phones_of_def targets_of_def)
  ultimately obtain w' where "trigger_loop e sc i ts w1 = ([], w')"
    using Cons.IH [of w1] Cons.prems(2) by auto
  then show ?case
    using t by simp
qed

lemma retargeted_ids [simp]:
  assumes "\<And>r. tg_id (f r) = tg_id r"
  shows "map tg_id (retargeted t i ids f rows) = map tg_id rows"
  using assms by (induction rows) (auto simp: retargeted_def)

lemma MarkScheduled_ok:
  assumes "no_faults e" "ids \<noteq> []"
  shows "\<exists>t w'. CampaignTargetRepository_MarkScheduled e i ids tm w = (None, w')
     \<and> same_store (w\<lparr>w_targets := retargeted t i ids (queue_target tm) (w_targets w)\<rparr>) w'"
proof -
  have "CampaignTargetRepository_MarkScheduled e i ids tm w = (None, (tick_io w)\<lparr>w_targets :=
      retargeted (db_now e (Suc (io_n w))) i ids (queue_target tm) (w_targets w)\<rparr>)"
    using assms by (simp add: CampaignTargetRepository_MarkScheduled_def run_stmt_ok update_targets_def
        retargeted_def queue_target_def tick_io_def)
  then show ?thesis
    by (intro exI [of _ "db_now e (Suc (io_n w))"]) (simp add: same_store_def tick_io_def)
qed

lemma SetState_ok:
  assumes "no_faults e" "ids \<noteq> []"
  shows "\<exists>t w'. CampaignTargetRepository_SetState e i ids st w = (None, w')
     \<and> same_store (w\<lparr>w_targets := retargeted t i ids (set_target st) (w_targets w)\<rparr>) w'"
proof -
  have "CampaignTargetRepository_SetState e i ids st w = (None, (tick_io w)\<lparr>w_targets :=
      retargeted (db_now e (Suc (io_n w))) i ids (set_target st) (w_targets w)\<rparr>)"
    using assms by (simp add: CampaignTargetRepository_SetState_def run_stmt_ok update_targets_def
        retargeted_def set_target_def tick_io_def)
  then show ?thesis
    by (intro exI [of _ "db_now e (Suc (io_n w))"]) (simp add: same_store_def tick_io_def)
qed

lemma NextBatch_ok:
  assumes "no_faults e"
  shows "\<exists>w'. CampaignTargetRepository_NextBatchForScheduling e i n w =
      (Inr (map (toModel i) (select_targets e i (Some ''pending'') (if n \<le> 0 then 100 else n) w)), w') \<and> same_store w w'"
proof -
  obtain w' where "fetch_rows e ''campaign targets: select for scheduling: '' ''campaign targets: scan: ''
      ''campaign targets: rows err: '' (select_targets e i (Some ''pending'') (if n \<le> 0 then 100 else n)) w =
      (Inr (select_targets e i (Some ''pending'') (if n \<le> 0 then 100 else n) w), w')" "same_store w w'"
    using fetch_rows_ok [OF assms] by blast
  then show ?thesis
    by (intro exI [of _ w']) (simp add: CampaignTargetRepository_NextBatchForScheduling_def Let_def)
qed


text \<open>The batch of a campaign without faults: every row of the campaign that is marked has its
  dispatch, every failed one is pending again.\<close>

lemma trigger_loop_each:
  assumes "trigger_loop e sc i ts w = (failed, w')" "t \<in> set ts" "ct_ID t \<notin> set failed"
  shows "\<exists>x \<in> set (drop (length (w_kafka w)) (w_kafka w')). dispatches_one (sc_callTopic sc) i {ct_PhoneNumber t} x"
  using assms
proof (induction ts arbitrary: w failed)
  case Nil
  then show ?case by simp
next
  case (Cons a ts)
  obtain r w1 where t: "TriggerCall e (sc_callTopic sc) (sc_defaultConcurrency sc)
      \<lparr>tc_CampaignID = i, tc_PhoneNumber = ct_PhoneNumber a, tc_Metadata = ct_Payload a\<rparr> w = (r, w1)" by force
  obtain f where l: "trigger_loop e sc i ts w1 = (f, w')"
    and f: "failed = (case r of Inl err \<Rightarrow> ct_ID a # f | Inr call \<Rightarrow> f)"
    using Cons.prems t by (auto split: prod.splits)
  obtain rs where rs: "w_kafka w' = w_kafka w1 @ rs"
    using trigger_loop_kafka [OF l] by blast
  obtain qs where qs: "w_kafka w1 = w_kafka w @ qs" "r \<noteq> Inl (projl r) \<longrightarrow> (\<exists>x \<in> set qs. dispatches_one (sc_callTopic sc) i {ct_PhoneNumber a} x)"
    using TriggerCall_kafka [OF t] by (cases r) auto
  show ?case
  proof (cases "t = a")
    case True
    then have "\<exists>x \<in> set qs. dispatches_one (sc_callTopic sc) i {ct_PhoneNumber t} x"
      using qs(2) Cons.prems(3) f by (cases r) auto
    then show ?thesis using rs qs(1) by auto
  next
    case False
    then have "t \<in> set ts" "ct_ID t \<notin> set f"
      using Cons.prems(2,3) f by (auto split: sum.splits)
    then show ?thesis
      using Cons.IH [OF l] qs(1) rs by auto
  qed
qed

definition settled :: "uuid \<Rightarrow> string \<Rightarrow> world \<Rightarrow> world \<Rightarrow> target_row \<Rightarrow> bool" where
  "settled i topic w w' r \<longleftrightarrow> r \<in> set (w_targets w) \<or> tg_campaign_id r = i \<and> (tg_state r = ''pending''
     \<or> tg_state r = ''queued'' \<and> (\<exists>x \<in> set (drop (length (w_kafka w)) (w_kafka w')). dispatches_one topic i {tg_phone_number r} x))"

lemma retargeted_member:
  assumes "r \<in> set (retargeted t i ids f rows)"
  obtains (other) "r \<in> set rows" "tg_campaign_id r = i \<Longrightarrow> tg_id r \<notin> set ids"
  | (changed) old where "old \<in> set rows" "tg_campaign_id old = i" "tg_id old \<in> set ids" "r = (f old)\<lparr>tg_updated_at := t\<rparr>"
  using assms by (auto simp: retargeted_def split: if_splits)

lemma distinct_key_eq: "distinct (map f xs) \<Longrightarrow> x \<in> set xs \<Longrightarrow> y \<in> set xs \<Longrightarrow> f x = f y \<Longrightarrow> x = y"
  by (simp add: distinct_map inj_on_def)

lemma batch_settled:
  assumes wf: "pg_wf w" and e: "env_scans e"
    and ts: "ts = map (toModel i) (select_targets e i (Some ''pending'') n w)"
    and m: "w_targets w4 = retargeted t1 i (map ct_ID ts) (queue_target tm) (w_targets w)" "w_kafka w3 = w_kafka w"
    and l: "trigger_loop e sc i ts w3 = (failed, w4)"
    and s: "w_targets w5 = retargeted t2 i failed (set_target ''pending'') (w_targets w4)" "w_kafka w5 = w_kafka w4"
    and r: "r \<in> set (w_targets w5)"
  shows "settled i (sc_callTopic sc) w w5 r"
  using r unfolding s(1)
proof (cases rule: retargeted_member)
  case (changed old)
  have "tg_campaign_id old = i" by fact
  then show ?thesis using changed by (simp add: settled_def set_target_def)
next
  case other
  from other(1) show ?thesis
    unfolding m(1)
  proof (cases rule: retargeted_member)
    case other
    then show ?thesis by (simp add: settled_def)
  next
    case (changed old)
    then have rr: "tg_campaign_id r = i" "tg_id r = tg_id old" "tg_phone_number r = tg_phone_number old" "tg_state r = ''queued''"
      by (simp_all add: queue_target_def)
    obtain x where x: "x \<in> set (select_targets e i (Some ''pending'') n w)" "tg_id x = tg_id old"
      using changed(3) by (auto simp: ts toModel_def)
    then have "x = old"
      using distinct_key_eq [of tg_id "w_targets w" x old] wf changed(1) select_targets_set [OF _ x(1)] e
      by (simp add: pg_wf_def env_scans_def targets_of_def)
    then have "toModel i old \<in> set ts"
      using x(1) ts by simp
    then have "\<exists>x \<in> set (drop (length (w_kafka w3)) (w_kafka w4)). dispatches_one (sc_callTopic sc) i {tg_phone_number old} x"
      using trigger_loop_each [OF l, of "toModel i old"] other(2) rr by (simp add: toModel_def)
    then show ?thesis
      using rr m(2) s(2) by (simp add: settled_def)
  qed
qed

lemma can_call_marked:
  assumes "same_store (w\<lparr>w_targets := retargeted t i ids (queue_target tm) (w_targets w)\<rparr>) w'" "can_call n j w"
  shows "can_call n j w'"
proof -
  let ?v = "w\<lparr>w_targets := retargeted t i ids (queue_target tm) (w_targets w)\<rparr>"
  have f: "tg_id (queue_target tm r) = tg_id r" "tg_campaign_id (queue_target tm r) = tg_campaign_id r" for r
    by (simp_all add: queue_target_def)
  have "map tg_campaign_id (retargeted t i ids (queue_target tm) rows) = map tg_campaign_id rows" for rows
    by (induction rows) (auto simp: retargeted_def f)
  moreover have wf0: "pg_wf w"
    using assms(2) by (simp add: can_call_def)
  ultimately have wf: "pg_wf ?v"
    by - (rule pg_wf_cong [OF wf0]; simp add: f; simp add: pg_wf_def)
  define g where "g r = (if tg_campaign_id r = i \<and> tg_id r \<in> set ids
      then (queue_target tm r)\<lparr>tg_updated_at := t\<rparr> else r)" for r
  have "w_targets ?v = map g (w_targets w)" "tg_campaign_id (g r) = tg_campaign_id r" for r
    by (simp_all add: retargeted_def g_def [abs_def] f)
  then have "targets_of j ?v = g ` targets_of j w"
    by (auto simp: targets_of_def)
  then have "card (targets_of j ?v) \<le> card (targets_of j w)"
    by (simp add: card_image_le targets_of_def)
  then have "can_call n j ?v"
    using assms(2) wf by (simp add: can_call_def room_def campaign_at_def find_campaign_def)
  then show ?thesis
    using assms(1) wf.I_same [OF assms(1)]
    by (simp add: can_call_def room_def campaign_at_same targets_of_def same_store_fields [OF assms(1)] campaign_at_def find_campaign_def)
qed

lemma retargeted_none [simp]: "retargeted t i [] f rows = rows"
  by (simp add: retargeted_def)

lemma schedule_campaign_open:
  assumes "no_faults e" "isWithinBusinessHours loc now c"
    and ts: "ts = map (toModel (c_ID c)) (select_targets e (c_ID c) (Some ''pending'')
        (if sc_maxBatchSize sc \<le> 0 then 100 else sc_maxBatchSize sc) w)" "ts \<noteq> []"
  obtains tm t1 t2 w3 w4 failed where
    "same_store (w\<lparr>w_targets := retargeted t1 (c_ID c) (map ct_ID ts) (queue_target tm) (w_targets w)\<rparr>) w3"
    "trigger_loop e sc (c_ID c) ts w3 = (failed, w4)"
    "w_targets (schedule_campaign e loc sc now c w) = retargeted t2 (c_ID c) failed (set_target ''pending'') (w_targets w4)"
    "w_kafka (schedule_campaign e loc sc now c w) = w_kafka w4"
proof -
  obtain w1 where b: "CampaignTargetRepository_NextBatchForScheduling e (c_ID c) (sc_maxBatchSize sc) w = (Inr ts, w1)" "same_store w w1"
    using NextBatch_ok [OF assms(1)] ts(1) by metis
  obtain tm w2 where n: "Now e w1 = (tm, w2)" by force
  have "map ct_ID ts \<noteq> []" using ts(2) by simp
  then obtain t1 w3 where m: "CampaignTargetRepository_MarkScheduled e (c_ID c) (map ct_ID ts) tm w2 = (None, w3)"
      "same_store (w2\<lparr>w_targets := retargeted t1 (c_ID c) (map ct_ID ts) (queue_target tm) (w_targets w2)\<rparr>) w3"
    using MarkScheduled_ok [OF assms(1)] by blast
  have "same_store w w2"
    using b(2) Now_same [OF n] same_store_trans by blast
  then have w3: "same_store (w\<lparr>w_targets := retargeted t1 (c_ID c) (map ct_ID ts) (queue_target tm) (w_targets w)\<rparr>) w3"
    using m(2) same_store_fields(3) [of w w2] by (cases w; cases w2; cases w3) (simp add: same_store_def)
  obtain failed w4 where l: "trigger_loop e sc (c_ID c) ts w3 = (failed, w4)" by force
  have u: "schedule_campaign e loc sc now c w = (if failed \<noteq> []
      then snd (CampaignTargetRepository_SetState e (c_ID c) failed ''pending'' w4) else w4)"
    using assms(2) b(1) ts(2) n m(1) l by (simp add: schedule_campaign_def claim_batch_def)
  show thesis
  proof (cases "failed = []")
    case True
    then show thesis using that [OF w3 l] u by simp
  next
    case False
    obtain t2 w5 where x: "CampaignTargetRepository_SetState e (c_ID c) failed ''pending'' w4 = (None, w5)"
        "same_store (w4\<lparr>w_targets := retargeted t2 (c_ID c) failed (set_target ''pending'') (w_targets w4)\<rparr>) w5"
      using SetState_ok [OF assms(1) False] by blast
    have "schedule_campaign e loc sc now c w = w5"
      using u x(1) False by simp
    then show thesis
      using that [OF w3 l, of t2] same_store_fields(3,8) [OF x(2)] by simp
  qed
qed


subsection \<open>A running campaign\<close>

definition sample_running :: world where
  "sample_running = sample_world\<lparr>w_campaigns := [sample_row\<lparr>r_status := CampaignStatusInProgress\<rparr>]\<rparr>"

definition sample_scheduler :: scheduler where
  "sample_scheduler = \<lparr>sc_retryTopics = [''retry-1''], sc_workerCount = 4, sc_maxBatchSize = 10,
     sc_callTopic = ''calls'', sc_defaultConcurrency = 5\<rparr>"

definition quiet :: "string \<Rightarrow> go_error option" where
  "quiet topic = Some (New ''context deadline exceeded'')"

definition sample_campaign :: Campaign where
  "sample_campaign = toDomain (sample_row\<lparr>r_status := CampaignStatusInProgress\<rparr>)"

lemma sample_running_wf: "pg_wf sample_running"
  by (simp add: pg_wf_def sample_running_def sample_defs campaign_checks_def int32_def zero_stats_def
      stats_in_range_def int64_def CampaignStatusInProgress_def)

lemma sample_campaign_id [simp]: "c_ID sample_campaign = 1"
  by (simp add: sample_campaign_def toDomain_def sample_row_def)

lemma sample_running_targets:
  "targets_of 1 sample_running = {sample_target}"
  "select_targets sample_env 1 (Some ''pending'') 10 sample_running = [sample_target]"
  by (auto simp: targets_of_def select_targets_def limit_rows_def sample_running_def sample_defs)

lemma sample_open: "isWithinBusinessHours sample_zones t sample_campaign"
  by (simp add: isWithinBusinessHours_def sample_campaign_def toDomain_def)

lemma sample_can_call: "can_call 1 1 sample_running"
proof -
  have "campaign_at 1 sample_running \<noteq> None"
    by (simp add: campaign_at_def find_campaign_def sample_running_def sample_row_def)
  moreover have "room 1 1 sample_running"
    by (simp add: room_def sample_running_def sample_world_def zero_stats_def)
  ultimately show ?thesis
    using sample_running_wf by (simp add: can_call_def sample_running_targets)
qed

subsection \<open>Properties\<close>

text \<open>C10: Whatever fails during a tick, each record it appends to Kafka is a first-attempt dispatch on
  the call topic, for a campaign that is stored as in progress and whose stored business hours are
  open at the time of the tick, to a phone number registered for that campaign. A tick that finds a
  pending retry appends nothing, and no tick appends more than one batch per fetched campaign.\<close>

theorem tick_only_open_campaigns:
  assumes "tick e loc sc probe w = (err, w')" "env_scans e"
  shows "\<exists>rs. w_kafka w' = w_kafka w @ rs
     \<and> (hasPendingRetries probe (sc_retryTopics sc) \<longrightarrow> rs = [])
     \<and> (0 < sc_workerCount sc \<and> sc_workerCount sc < 2 ^ 58 \<and> 0 < sc_maxBatchSize sc \<longrightarrow>
          int (length rs) \<le> 20 * sc_workerCount sc * sc_maxBatchSize sc)
     \<and> (\<forall>x \<in> set rs. \<exists>r \<in> set (w_campaigns w). r_status r = CampaignStatusInProgress
          \<and> isWithinBusinessHours loc (utc (now_at e (now_n w))) (stored_campaign w r)
          \<and> dispatches_one (sc_callTopic sc) (r_id r) (phones_of (r_id r) w) x)"
proof (cases "hasPendingRetries probe (sc_retryTopics sc)")
  case True
  then show ?thesis using assms(1) by (simp add: tick_def)
next
  case False
  obtain now w1 where n: "Now e w = (now, w1)" by force
  then have now: "now = utc (now_at e (now_n w))" and s1: "same_store w w1"
    using Now_same by (auto simp: Now_def)
  obtain q w2 where q: "campaign_ListByStatus e CampaignStatusInProgress (campaignFetchLimit (sc_workerCount sc)) w1 = (q, w2)" by force
  have s2: "same_store w w2"
    using service_reads_same(3) [of w1 e CampaignStatusInProgress "campaignFetchLimit (sc_workerCount sc)"] q same_store_trans [OF s1] by simp
  show ?thesis
  proof (cases q)
    case (Inl err1)
    then show ?thesis using assms(1) False n q s2 by (simp add: tick_def same_store_fields)
  next
    case (Inr cs)
    then have w': "w' = fold (schedule_campaign e loc sc now) cs w2"
      using assms(1) False n q by (simp add: tick_def)
    obtain rs where rs: "w_kafka w' = w_kafka w2 @ rs"
        "0 < sc_maxBatchSize sc \<longrightarrow> length rs \<le> length cs * nat (sc_maxBatchSize sc)"
        "\<forall>r \<in> set rs. \<exists>c \<in> set cs. isWithinBusinessHours loc now c
              \<and> dispatches_one (sc_callTopic sc) (c_ID c) (phones_of (c_ID c) w2) r"
      unfolding w' using fold_schedule_effect [OF assms(2)] by blast
    have "int (length rs) \<le> 20 * sc_workerCount sc * sc_maxBatchSize sc"
      if b: "0 < sc_workerCount sc" "sc_workerCount sc < 2 ^ 58" "0 < sc_maxBatchSize sc"
      by (rule batch_bound [OF q [unfolded Inr] assms(2) b]) (use rs(2) b(3) in simp)
    moreover have "\<exists>r \<in> set (w_campaigns w). r_status r = CampaignStatusInProgress
          \<and> isWithinBusinessHours loc now (stored_campaign w r)
          \<and> dispatches_one (sc_callTopic sc) (r_id r) (phones_of (r_id r) w) x" if x: "x \<in> set rs" for x
    proof -
      obtain c where c: "c \<in> set cs" "isWithinBusinessHours loc now c"
          "dispatches_one (sc_callTopic sc) (c_ID c) (phones_of (c_ID c) w) x"
        using rs(3) x phones_of_same [OF s2] by auto
      have "stored_campaign w1 r = stored_campaign w r" for r
        using s1 by (simp add: stored_campaign_def stored_hours_def same_store_fields)
      then show ?thesis
        using ListByStatus_members [OF q [unfolded Inr] assms(2) c(1)] c(2,3) s1
        by (auto simp: same_store_fields)
    qed
    ultimately show ?thesis
      using rs(1) False s2 now by (intro exI [of _ rs]) (simp add: same_store_fields)
  qed
qed

theorem tick_only_open_campaigns_witness:
  "\<exists>rs. w_kafka (snd (tick sample_env sample_zones sample_scheduler quiet sample_running)) = rs
     \<and> list_all (dispatches_one ''calls'' 1 {''+15550100''}) rs"
proof -
  obtain err w' where t: "tick sample_env sample_zones sample_scheduler quiet sample_running = (err, w')" by force
  have "w_kafka sample_running = []" "phones_of 1 sample_running = {''+15550100''}" "set (w_campaigns sample_running) = {sample_row\<lparr>r_status := CampaignStatusInProgress\<rparr>}"
    by (simp_all add: phones_of_def sample_running_targets) (simp_all add: sample_running_def sample_defs)
  then show ?thesis
    using tick_only_open_campaigns [OF t sample_scans] t
    by (auto simp: sample_scheduler_def sample_row_def list_all_iff)
qed

text \<open>C12: Without faults, scheduling a campaign leaves each of its targets in an orderly state: it is
  untouched, or pending, or marked as queued with its dispatch message on the call topic. No target
  is marked as queued and then forgotten.\<close>

theorem scheduled_targets_settled:
  assumes "no_faults e" "env_scans e" "pg_wf w" "r \<in> set (w_targets (schedule_campaign e loc sc now c w))"
  shows "settled (c_ID c) (sc_callTopic sc) w (schedule_campaign e loc sc now c w) r"
proof -
  define ts where "ts = map (toModel (c_ID c)) (select_targets e (c_ID c) (Some ''pending'')
        (if sc_maxBatchSize sc \<le> 0 then 100 else sc_maxBatchSize sc) w)"
  show ?thesis
  proof (cases "isWithinBusinessHours loc now c \<and> ts \<noteq> []")
    case False
    obtain w1 where "CampaignTargetRepository_NextBatchForScheduling e (c_ID c) (sc_maxBatchSize sc) w = (Inr ts, w1)" "same_store w w1"
      unfolding ts_def using NextBatch_ok [OF assms(1)] by blast
    then have "w_targets (schedule_campaign e loc sc now c w) = w_targets w"
      using False by (auto simp: schedule_campaign_def same_store_fields)
    then show ?thesis using assms(4) by (simp add: settled_def)
  next
    case True
    obtain tm t1 t2 w3 w4 failed where
      st: "same_store (w\<lparr>w_targets := retargeted t1 (c_ID c) (map ct_ID ts) (queue_target tm) (w_targets w)\<rparr>) w3"
      "trigger_loop e sc (c_ID c) ts w3 = (failed, w4)"
      "w_targets (schedule_campaign e loc sc now c w) = retargeted t2 (c_ID c) failed (set_target ''pending'') (w_targets w4)"
      "w_kafka (schedule_campaign e loc sc now c w) = w_kafka w4"
      using True by (elim conjE schedule_campaign_open [OF assms(1) _ ts_def])
    have "w_targets w4 = w_targets w3"
      using trigger_loop_tables [OF st(2)] by simp
    then show ?thesis
      using same_store_fields(3,8) [OF st(1)]
      by (intro batch_settled [OF assms(3,2) ts_def _ _ st(2-4) assms(4)]) simp_all
  qed
qed

theorem scheduled_targets_settled_witness:
  "\<exists>w' r rs. w' = schedule_campaign sample_env sample_zones sample_scheduler (utc 0) sample_campaign sample_running
     \<and> w_targets w' = r # rs \<and> settled 1 ''calls'' sample_running w' r"
proof -
  let ?w' = "schedule_campaign sample_env sample_zones sample_scheduler (utc 0) sample_campaign sample_running"
  have "phones_of 1 ?w' = {''+15550100''}"
    using schedule_campaign_effect [OF sample_scans, of sample_running sample_zones sample_scheduler "utc 0" sample_campaign]
    by (simp add: keeps_lists_def phones_of_def [of _ sample_running] sample_running_targets) (simp add: sample_target_def)
  then obtain r rs where r: "w_targets ?w' = r # rs"
    by (cases "w_targets ?w'") (auto simp: phones_of_def targets_of_def)
  moreover have "settled 1 ''calls'' sample_running ?w' r"
    using scheduled_targets_settled [OF sample_no_faults sample_scans sample_running_wf, of r sample_zones sample_scheduler "utc 0" sample_campaign] r
    by (simp add: sample_scheduler_def)
  ultimately show ?thesis by blast
qed



end
