(* ===== verification/Status_Worker.thy ===== *)
theory Status_Worker
  imports Call_Service
begin

text \<open>
  The status worker (\<open>internal/worker/status/worker.go\<close>): the body of its loop for one message
  of the status topic, and the loop over the messages it is delivered. Every error is only logged,
  so the body returns the new world.
\<close>

record status_worker =
  sw_group :: string
  sw_retryTopics :: "string list"

definition status_group :: "string \<Rightarrow> string" where
  "status_group consumerGroupID = consumerGroupID @ ''-status''"

definition optionalString :: "string \<Rightarrow> string option" where
  "optionalString v = (if v = [] then None else Some v)"

definition status_delta :: "StatusMessage \<Rightarrow> StatsDelta" where
  "status_delta status =
     (let d0 = (if 1 < sm_Attempt status then zero_delta\<lparr>RetriesDelta := RetriesDelta zero_delta + 1\<rparr> else zero_delta)
      in if sm_Status status = CallStatusCompleted then
           d0\<lparr>CompletedCallsDelta := CompletedCallsDelta d0 + 1, PendingCallsDelta := PendingCallsDelta d0 - 1\<rparr>
         else if sm_Status status = CallStatusFailed then
           (if \<not> sm_Retryable status
            then d0\<lparr>FailedCallsDelta := FailedCallsDelta d0 + 1, PendingCallsDelta := PendingCallsDelta d0 - 1\<rparr>
            else d0)
         else d0)"

definition attempt_of :: "uuid \<Rightarrow> StatusMessage \<Rightarrow> CallAttempt" where
  "attempt_of u status =
     \<lparr>att_ID = u, att_CallID = sm_CallID status, att_AttemptNum = sm_Attempt status,
      att_Status = sm_Status status, att_Error = sm_Error status, att_CreatedAt = sm_OccurredAt status,
      att_Duration = wrap64 (sm_DurationMs status * Millisecond)\<rparr>"

definition retry_message :: "StatusMessage \<Rightarrow> go_time \<Rightarrow> RetryMessage" where
  "retry_message status next =
     \<lparr>rm_DispatchMessage =
        \<lparr>dm_CallID = sm_CallID status, dm_CampaignID = sm_CampaignID status,
         dm_PhoneNumber = sm_PhoneNumber status, dm_Attempt = wrap64 (sm_Attempt status + 1),
         dm_MaxAttempts = sm_MaxAttempts status, dm_RetryBaseMs = sm_RetryBaseMs status,
         dm_RetryMaxMs = sm_RetryMaxMs status, dm_RetryJitter = sm_RetryJitter status,
         dm_ConcurrencyLimit = sm_ConcurrencyLimit status, dm_Metadata = sm_Metadata status,
         dm_EnqueuedAt = next\<rparr>,
      rm_MaxAttempts = sm_MaxAttempts status, rm_NextAttempt = next\<rparr>"

definition status_step :: "env \<Rightarrow> status_worker \<Rightarrow> kafka_record \<Rightarrow> world \<Rightarrow> world" where
  "status_step e sw m w =
     (case Unmarshal dec_status (k_value m) of
        Inl err \<Rightarrow> snd (CommitMessages e (sw_group sw) m w)
      | Inr status \<Rightarrow>
          (let (updErr, w1) = UpdateCallStatus e (sm_CallID status) (sm_Status status) (sm_Attempt status)
                                (optionalString (sm_Error status)) w;
               (u, w2) = uuid_New e w1;
               (attErr, w3) = AppendAttempt e (attempt_of u status) w2;
               w4 = (if sm_CampaignID status \<noteq> uuid_Nil
                     then snd (CampaignStatisticsRepository_ApplyDelta e (sm_CampaignID status) (status_delta status) w3)
                     else w3);
               w5 = (case sm_NextAttempt status of
                       Some next \<Rightarrow> if sm_Retryable status
                         then snd (ScheduleRetry e (sw_retryTopics sw) (sm_Attempt status) (retry_message status next) w4)
                         else w4
                     | None \<Rightarrow> w4)
           in snd (CommitMessages e (sw_group sw) m w5)))"

definition status_run :: "env \<Rightarrow> status_worker \<Rightarrow> kafka_record list \<Rightarrow> world \<Rightarrow> world" where
  "status_run e sw ms w = fold (status_step e sw) ms w"

subsection \<open>The steps of the body\<close>

lemma commit_tables:
  "w_campaigns (snd (CommitMessages e g m w)) = w_campaigns w" "w_targets (snd (CommitMessages e g m w)) = w_targets w"
  "w_stats (snd (CommitMessages e g m w)) = w_stats w" "w_kafka (snd (CommitMessages e g m w)) = w_kafka w"
  "w_calls (snd (CommitMessages e g m w)) = w_calls w" "w_hours (snd (CommitMessages e g m w)) = w_hours w"
proof -
  obtain r w' where c: "CommitMessages e g m w = (r, w')" by force
  then have "w_campaigns w' = w_campaigns w \<and> w_targets w' = w_targets w \<and> w_stats w' = w_stats w
      \<and> w_kafka w' = w_kafka w \<and> w_calls w' = w_calls w \<and> w_hours w' = w_hours w"
    by (cases rule: CommitMessages_cases) (auto dest: same_store_fields)
  with c show "w_campaigns (snd (CommitMessages e g m w)) = w_campaigns w"
    "w_targets (snd (CommitMessages e g m w)) = w_targets w" "w_stats (snd (CommitMessages e g m w)) = w_stats w"
    "w_kafka (snd (CommitMessages e g m w)) = w_kafka w" "w_calls (snd (CommitMessages e g m w)) = w_calls w"
    "w_hours (snd (CommitMessages e g m w)) = w_hours w"
    by simp_all
qed

lemma retry_tables:
  "w_stats (snd (ScheduleRetry e ts n msg w)) = w_stats w"
  "w_campaigns (snd (ScheduleRetry e ts n msg w)) = w_campaigns w"
  "w_targets (snd (ScheduleRetry e ts n msg w)) = w_targets w"
proof -
  obtain r w' where r: "ScheduleRetry e ts n msg w = (r, w')" by force
  show "w_stats (snd (ScheduleRetry e ts n msg w)) = w_stats w"
    "w_campaigns (snd (ScheduleRetry e ts n msg w)) = w_campaigns w"
    "w_targets (snd (ScheduleRetry e ts n msg w)) = w_targets w"
    using ScheduleRetry_out_of_range [of n ts e msg w] ScheduleRetry_in_range [OF _ _ r] r
    by (cases "n \<le> 0 \<or> int (length ts) < n"; auto dest: same_store_fields published_fields)+
qed

text \<open>The counters and the retry of a status message, as the body handles them after the call's
  record.\<close>

definition count_status :: "env \<Rightarrow> StatusMessage \<Rightarrow> world \<Rightarrow> world" where
  "count_status e status w = (if sm_CampaignID status \<noteq> uuid_Nil
     then snd (CampaignStatisticsRepository_ApplyDelta e (sm_CampaignID status) (status_delta status) w) else w)"

definition schedule_status :: "env \<Rightarrow> status_worker \<Rightarrow> StatusMessage \<Rightarrow> world \<Rightarrow> world" where
  "schedule_status e sw status w = (case sm_NextAttempt status of
     Some next \<Rightarrow> if sm_Retryable status
       then snd (ScheduleRetry e (sw_retryTopics sw) (sm_Attempt status) (retry_message status next) w) else w
   | None \<Rightarrow> w)"

lemma count_status_tables:
  "w_campaigns (count_status e status w) = w_campaigns w" "w_targets (count_status e status w) = w_targets w"
  "w_kafka (count_status e status w) = w_kafka w"
  using ApplyDelta_stats(2-4) [OF surjective_pairing] by (simp_all add: count_status_def)

lemma schedule_status_tables:
  "w_stats (schedule_status e sw status w) = w_stats w" "w_campaigns (schedule_status e sw status w) = w_campaigns w"
  "w_targets (schedule_status e sw status w) = w_targets w"
  by (simp_all add: schedule_status_def retry_tables split: option.splits)

lemma status_step_parts:
  assumes "Unmarshal dec_status (k_value m) = Inr status"
  obtains w3 w4 where "rest_is w w3"
    "w4 = count_status e status w3" "status_step e sw m w = snd (CommitMessages e (sw_group sw) m (schedule_status e sw status w4))"
proof -
  obtain q w1 where u: "UpdateCallStatus e (sm_CallID status) (sm_Status status) (sm_Attempt status)
      (optionalString (sm_Error status)) w = (q, w1)" by force
  obtain i w2 where i: "uuid_New e w1 = (i, w2)" by force
  obtain q3 w3 where a: "AppendAttempt e (attempt_of i status) w2 = (q3, w3)" by force
  have "rest_is w w3"
    using UpdateCallStatus_rest [OF u rest_is_refl] uuid_New_same [OF i] AppendAttempt_rest [OF a] rest.I_same
    by blast
  then show thesis
    using that u i a assms by (simp add: status_step_def count_status_def schedule_status_def Let_def)
qed

subsection \<open>The counters stay balanced\<close>

text \<open>A counter row is balanced when every call counted is completed, failed or pending.\<close>

definition balanced :: "CampaignStats \<Rightarrow> bool" where
  "balanced s \<longleftrightarrow> TotalCalls s = CompletedCalls s + FailedCalls s + PendingCalls s"

definition all_balanced :: "world \<Rightarrow> bool" where
  "all_balanced w \<longleftrightarrow> (\<forall>i s. w_stats w i = Some s \<longrightarrow> balanced s)"

lemma status_delta_balanced: "balanced (add_delta (status_delta sm) s) \<longleftrightarrow> balanced s"
  by (auto simp: balanced_def add_delta_def status_delta_def zero_delta_def Let_def)

lemma stats_moved_balanced:
  "stats_moved f i w w' \<Longrightarrow> (\<And>s. balanced s \<Longrightarrow> balanced (f s)) \<Longrightarrow> all_balanced w \<Longrightarrow> all_balanced w'"
  by (auto simp: all_balanced_def stats_moved_def split: if_splits)

lemma all_balanced_stats: "w_stats w' = w_stats w \<Longrightarrow> all_balanced w \<Longrightarrow> all_balanced w'"
  by (simp add: all_balanced_def)

text \<open>What the body does to the counters, whatever fails.\<close>

lemma status_step_stats:
  assumes "Unmarshal dec_status (k_value m) = Inr status"
  shows "w_stats (status_step e sw m w) = w_stats w
    \<or> stats_moved (add_delta (status_delta status)) (sm_CampaignID status) w (status_step e sw m w)"
proof -
  obtain w3 w4 where p: "rest_is w w3"
    "w4 = count_status e status w3" "status_step e sw m w = snd (CommitMessages e (sw_group sw) m (schedule_status e sw status w4))"
    using status_step_parts [OF assms] by metis
  have eq: "w_stats (status_step e sw m w) = w_stats w4"
    by (simp add: p(3) commit_tables schedule_status_tables)
  have w3: "w_stats w3 = w_stats w" using p(1) by (simp add: rest_is_def)
  have "w_stats w4 = w_stats w3 \<or> stats_moved (add_delta (status_delta status)) (sm_CampaignID status) w3 w4"
    using ApplyDelta_stats(1) [OF surjective_pairing [of
        "CampaignStatisticsRepository_ApplyDelta e (sm_CampaignID status) (status_delta status) w3"]] p(2)
    by (auto simp: count_status_def)
  then show ?thesis
    using eq w3 by (auto simp: stats_moved_def)
qed

text \<open>What a status message is meant to do to the counters of its campaign.\<close>

definition counted :: "StatusMessage \<Rightarrow> CampaignStats \<Rightarrow> CampaignStats \<Rightarrow> bool" where
  "counted status s s' \<longleftrightarrow>
     CompletedCalls s' = CompletedCalls s + (if sm_Status status = CallStatusCompleted then 1 else 0)
     \<and> FailedCalls s' = FailedCalls s + (if sm_Status status = CallStatusFailed \<and> \<not> sm_Retryable status then 1 else 0)
     \<and> RetriesAttempted s' = RetriesAttempted s + (if 1 < sm_Attempt status then 1 else 0)
     \<and> TotalCalls s' = TotalCalls s \<and> InProgressCalls s' = InProgressCalls s
     \<and> PendingCalls s' = PendingCalls s - (if sm_Status status = CallStatusCompleted
          \<or> sm_Status status = CallStatusFailed \<and> \<not> sm_Retryable status then 1 else 0)"

lemma status_step_counts:
  assumes "no_faults e" "Unmarshal dec_status (k_value m) = Inr status" "w_stats w (sm_CampaignID status) = Some s"
    and "sm_CampaignID status \<noteq> uuid_Nil" "stats_in_range (add_delta (status_delta status) s)"
  shows "w_stats (status_step e sw m w) (sm_CampaignID status) = Some (add_delta (status_delta status) s)"
proof -
  obtain w3 w4 where p: "rest_is w w3"
    "w4 = count_status e status w3" "status_step e sw m w = snd (CommitMessages e (sw_group sw) m (schedule_status e sw status w4))"
    using status_step_parts [OF assms(2)] by metis
  have eq: "w_stats (status_step e sw m w) = w_stats w4"
    by (simp add: p(3) commit_tables schedule_status_tables)
  have "w_stats w3 = w_stats w" using p(1) by (simp add: rest_is_def)
  then obtain w5 where a: "CampaignStatisticsRepository_ApplyDelta e (sm_CampaignID status) (status_delta status) w3 = (None, w5)"
    using ApplyDelta_ok [OF assms(1), of w3 "sm_CampaignID status" "status_delta status"] assms(3,5) by auto
  then show ?thesis
    using ApplyDelta_none_moved [OF a] p(2) assms(3,4) eq \<open>w_stats w3 = w_stats w\<close>
    by (simp add: stats_moved_def count_status_def)
qed

lemma status_step_tables:
  "w_campaigns (status_step e sw m w) = w_campaigns w \<and> w_targets (status_step e sw m w) = w_targets w"
proof (cases "Unmarshal dec_status (k_value m)")
  case (Inl err)
  then show ?thesis by (simp add: status_step_def commit_tables)
next
  case (Inr status)
  obtain w3 w4 where p: "rest_is w w3"
    "w4 = count_status e status w3" "status_step e sw m w = snd (CommitMessages e (sw_group sw) m (schedule_status e sw status w4))"
    using status_step_parts [OF Inr] by metis
  have "w_campaigns w4 = w_campaigns w3 \<and> w_targets w4 = w_targets w3"
    using p(2) by (simp add: count_status_tables)
  then show ?thesis
    using p(1) by (simp add: p(3) commit_tables schedule_status_tables rest_is_def)
qed

lemma status_step_balanced: "all_balanced w \<Longrightarrow> all_balanced (status_step e sw m w)"
proof (cases "Unmarshal dec_status (k_value m)")
  case (Inl err)
  assume "all_balanced w"
  then show ?thesis
    using Inl by (simp add: status_step_def all_balanced_def commit_tables)
next
  case (Inr status)
  assume w: "all_balanced w"
  show ?thesis
    using status_step_stats [OF Inr, of e sw w] w status_delta_balanced
    by (meson all_balanced_stats stats_moved_balanced)
qed

lemma Trigger_balanced:
  assumes "TriggerCall e topic dc input w = (Inr call, w')" "all_balanced w"
  shows "all_balanced w'"
proof -
  have "stats_moved (add_delta trigger_delta) (tc_CampaignID input) w w'"
    using TriggerCall_stats [OF assms(1)] by auto
  then show ?thesis
    by (rule stats_moved_balanced [OF _ _ assms(2)])
      (simp add: balanced_def add_delta_def trigger_delta_def zero_delta_def)
qed

subsection \<open>Properties\<close>

text \<open>The status worker keeps the counters of every campaign balanced (total = completed + failed +
  pending) over any sequence of messages, whatever requests fail, and so does every call that is
  reported as triggered.\<close>

theorem counters_stay_balanced:
  assumes "all_balanced w"
  shows "all_balanced (status_run e sw ms w)
     \<and> (\<forall>topic dc input call w'. TriggerCall e topic dc input w = (Inr call, w') \<longrightarrow> all_balanced w')"
proof -
  have "all_balanced (fold (status_step e sw) ms w)"
    using assms by (induction ms arbitrary: w) (simp_all add: status_step_balanced)
  then show ?thesis
    using assms Trigger_balanced by (auto simp: status_run_def)
qed

theorem counters_stay_balanced_witness:
  "all_balanced (status_run sample_env \<lparr>sw_group = ''g'', sw_retryTopics = [''r1'']\<rparr>
     [\<lparr>k_topic = ''status'', k_key = 11, k_value = enc_status sample_status, k_time = utc 0\<rparr>] sample_world)"
proof -
  have "all_balanced sample_world"
    by (auto simp: all_balanced_def balanced_def sample_world_def zero_stats_def)
  then show ?thesis
    using counters_stay_balanced by blast
qed

text \<open>A completed call moves from pending to completed and a call that failed for good from pending to
  failed, in the counters of its campaign and in no others; an attempt that will be retried moves
  nothing but the count of retries. A failed request leaves the counters as they are; without
  faults they do move, as long as they stay within their range.\<close>

theorem status_moves_counters:
  assumes "Unmarshal dec_status (k_value m) = Inr status" "w_stats w (sm_CampaignID status) = Some s"
  shows "(\<forall>j. j \<noteq> sm_CampaignID status \<longrightarrow> w_stats (status_step e sw m w) j = w_stats w j)
     \<and> (\<exists>s'. w_stats (status_step e sw m w) (sm_CampaignID status) = Some s' \<and> (s' = s \<or> counted status s s')
          \<and> (no_faults e \<and> sm_CampaignID status \<noteq> uuid_Nil \<and> stats_in_range (add_delta (status_delta status) s)
               \<longrightarrow> counted status s s'))"
proof -
  have m: "counted status s (add_delta (status_delta status) s)" for s
    by (auto simp: counted_def add_delta_def status_delta_def zero_delta_def Let_def call_statuses)
  consider "w_stats (status_step e sw m w) = w_stats w"
    | "w_stats (status_step e sw m w) = (w_stats w)(sm_CampaignID status \<mapsto> add_delta (status_delta status) s)"
    using status_step_stats [OF assms(1), of e sw w] assms(2) by (auto simp: stats_moved_def)
  then show ?thesis
  proof cases
    case 1
    then show ?thesis
      using status_step_counts [OF _ assms(1,2), of e sw] assms(2) m [of s] by auto
  next
    case 2
    then show ?thesis using m [of s] by simp
  qed
qed

definition failed_status :: StatusMessage where
  "failed_status = sample_status\<lparr>sm_Retryable := False\<rparr>"

theorem status_moves_counters_witness:
  "\<exists>s'. w_stats (status_step sample_env \<lparr>sw_group = ''g'', sw_retryTopics = [''r1'']\<rparr>
     \<lparr>k_topic = ''status'', k_key = 11, k_value = enc_status failed_status, k_time = utc 0\<rparr>
     sample_world) 1 = Some s' \<and> FailedCalls s' = 1 \<and> PendingCalls s' = -1"
proof -
  let ?m = "\<lparr>k_topic = ''status'', k_key = 11, k_value = enc_status failed_status, k_time = utc 0\<rparr>"
  have d: "Unmarshal dec_status (k_value ?m) = Inr failed_status"
    using status_roundtrip_aux [of failed_status]
    by (simp add: wf_status_def failed_status_def sample_status_def int64_def)
  have s: "w_stats sample_world (sm_CampaignID failed_status) = Some zero_stats" "sm_CampaignID failed_status = 1"
    by (simp_all add: sample_world_def failed_status_def sample_status_def)
  have "stats_in_range (add_delta (status_delta failed_status) zero_stats)" "sm_CampaignID failed_status \<noteq> uuid_Nil"
    by (simp_all add: failed_status_def sample_status_def status_delta_def stats_in_range_def add_delta_def zero_stats_def
        zero_delta_def int64_def uuid_Nil_def call_statuses)
  then obtain s' where "w_stats (status_step sample_env \<lparr>sw_group = ''g'', sw_retryTopics = [''r1'']\<rparr> ?m sample_world) 1 = Some s'"
      "counted failed_status zero_stats s'"
    using status_moves_counters [OF d s(1), of sample_env "\<lparr>sw_group = ''g'', sw_retryTopics = [''r1'']\<rparr>"] s(2) by auto
  then show ?thesis
    by (auto simp: counted_def failed_status_def sample_status_def zero_stats_def call_statuses)
qed

text \<open>A retryable attempt beyond the configured retry topics is lost: no message is scheduled and the
  call stays counted as pending.\<close>

theorem retry_beyond_topics_lost:
  assumes "Unmarshal dec_status (k_value m) = Inr status" "sm_Status status = CallStatusFailed" "sm_Retryable status"
    and "int (length (sw_retryTopics sw)) < sm_Attempt status" "w_stats w (sm_CampaignID status) = Some s"
  shows "w_kafka (status_step e sw m w) = w_kafka w
     \<and> (\<exists>s'. w_stats (status_step e sw m w) (sm_CampaignID status) = Some s' \<and> PendingCalls s' = PendingCalls s)"
proof -
  obtain w3 w4 where p: "rest_is w w3"
    "w4 = count_status e status w3" "status_step e sw m w = snd (CommitMessages e (sw_group sw) m (schedule_status e sw status w4))"
    using status_step_parts [OF assms(1)] by metis
  have "w_kafka w4 = w_kafka w3"
    using p(2) by (simp add: count_status_tables)
  then have "w_kafka (status_step e sw m w) = w_kafka w"
    using p(1) assms(4) ScheduleRetry_out_of_range
    by (simp add: p(3) commit_tables rest_is_def schedule_status_def split: option.splits)
  moreover have "\<exists>s'. w_stats (status_step e sw m w) (sm_CampaignID status) = Some s' \<and> PendingCalls s' = PendingCalls s"
    using status_step_stats [OF assms(1), of e sw w] assms(2,3,5)
    by (auto simp: stats_moved_def add_delta_def status_delta_def zero_delta_def Let_def call_statuses)
  ultimately show ?thesis by blast
qed

theorem retry_beyond_topics_lost_witness:
  "w_kafka (status_step sample_env \<lparr>sw_group = ''g'', sw_retryTopics = []\<rparr>
     \<lparr>k_topic = ''status'', k_key = 11, k_value = enc_status sample_status, k_time = utc 0\<rparr> sample_world) = []"
proof -
  let ?m = "\<lparr>k_topic = ''status'', k_key = 11, k_value = enc_status sample_status, k_time = utc 0\<rparr>"
  have d: "Unmarshal dec_status (k_value ?m) = Inr sample_status"
    using status_roundtrip_aux [of sample_status] by (simp add: wf_status_def sample_status_def int64_def)
  show ?thesis
    using retry_beyond_topics_lost [OF d, of "\<lparr>sw_group = ''g'', sw_retryTopics = []\<rparr>" sample_world zero_stats sample_env]
    by (simp add: sample_status_def sample_world_def empty_world_def)
qed

end
