(* ===== verification/Retry_Worker.thy ===== *)
theory Retry_Worker
  imports Status_Worker
begin

text \<open>
  The retry worker (\<open>internal/worker/retry/worker.go\<close>): the consumer group of a retry topic,
  the wait until the next attempt, and the body of the consumer's loop for one message. Whether
  the context is done before the timer fires is a parameter.
\<close>

record retry_worker =
  rw_group :: string
  rw_callTopic :: string

definition retry_group :: "string \<Rightarrow> string \<Rightarrow> int \<Rightarrow> string" where
  "retry_group consumerGroupID retryConsumerGroupID attemptIndex =
     (if retryConsumerGroupID = [] then consumerGroupID @ ''-retry-'' @ show_int attemptIndex
      else retryConsumerGroupID @ ''-'' @ show_int attemptIndex)"

definition sleepUntil :: "env \<Rightarrow> go_error option \<Rightarrow> go_time \<Rightarrow> world \<Rightarrow> go_error option \<times> world" where
  "sleepUntil e ctxDone t w =
     (case Now e w of (now, w') \<Rightarrow> (if t_ns t - t_ns now \<le> 0 then None else ctxDone, w'))"

definition retry_step :: "env \<Rightarrow> retry_worker \<Rightarrow> go_error option \<Rightarrow> kafka_record \<Rightarrow> world \<Rightarrow> world" where
  "retry_step e rw ctxDone m w =
     (case Unmarshal dec_retry (k_value m) of
        Inl err \<Rightarrow> snd (CommitMessages e (rw_group rw) m w)
      | Inr retryMsg \<Rightarrow>
          (case sleepUntil e ctxDone (rm_NextAttempt retryMsg) w of
             (Some err, w1) \<Rightarrow> snd (CommitMessages e (rw_group rw) m w1)
           | (None, w1) \<Rightarrow>
               (case Now e w1 of (now, w2) \<Rightarrow>
                  (case DispatchCall e (rw_callTopic rw) ((rm_DispatchMessage retryMsg)\<lparr>dm_EnqueuedAt := now\<rparr>) w2 of
                     (Some err, w3) \<Rightarrow> w3
                   | (None, w3) \<Rightarrow> snd (CommitMessages e (rw_group rw) m w3)))))"

subsection \<open>The steps of the body\<close>

lemma sleepUntil_same: "sleepUntil e c t w = (r, w') \<Longrightarrow> same_store w w'"
  by (auto simp: sleepUntil_def split: prod.splits dest: Now_same)

lemma retry_step_cases:
  assumes "Unmarshal dec_retry (k_value m) = Inr rm"
  obtains (cancelled) w1 where "same_store w w1" "retry_step e rw ctxDone m w = snd (CommitMessages e (rw_group rw) m w1)"
  | (unsent) now w2 w3 err where "same_store w w2"
      "DispatchCall e (rw_callTopic rw) ((rm_DispatchMessage rm)\<lparr>dm_EnqueuedAt := now\<rparr>) w2 = (Some err, w3)"
      "retry_step e rw ctxDone m w = w3"
  | (sent) now w2 w3 where "same_store w w2"
      "DispatchCall e (rw_callTopic rw) ((rm_DispatchMessage rm)\<lparr>dm_EnqueuedAt := now\<rparr>) w2 = (None, w3)"
      "retry_step e rw ctxDone m w = snd (CommitMessages e (rw_group rw) m w3)"
proof -
  obtain q w1 where q: "sleepUntil e ctxDone (rm_NextAttempt rm) w = (q, w1)" by force
  obtain now w2 where n: "Now e w1 = (now, w2)" by force
  obtain r w3 where r: "DispatchCall e (rw_callTopic rw) ((rm_DispatchMessage rm)\<lparr>dm_EnqueuedAt := now\<rparr>) w2 = (r, w3)" by force
  have s: "same_store w w1" "same_store w w2"
    using sleepUntil_same [OF q] Now_same [OF n] same_store_trans by blast+
  show thesis
  proof (cases q)
    case (Some err)
    then show thesis using cancelled s(1) q assms by (simp add: retry_step_def)
  next
    case q': None
    show thesis
    proof (cases r)
      case (Some err)
      then show thesis using unsent s(2) q q' n r assms by (simp add: retry_step_def)
    next
      case None
      then show thesis using sent s(2) q q' n r assms by (simp add: retry_step_def)
    qed
  qed
qed

lemma retry_step_kafka:
  assumes "Unmarshal dec_retry (k_value m) = Inr rm"
  shows "w_kafka (retry_step e rw ctxDone m w) = w_kafka w \<or>
    (\<exists>now t. w_kafka (retry_step e rw ctxDone m w) = w_kafka w @
       [\<lparr>k_topic = rw_callTopic rw, k_key = dm_CallID (rm_DispatchMessage rm),
         k_value = enc_dispatch ((rm_DispatchMessage rm)\<lparr>dm_EnqueuedAt := now\<rparr>), k_time = t\<rparr>])"
proof (cases rule: retry_step_cases [OF assms, of w e rw ctxDone, case_names cancelled unsent sent])
  case (unsent now w2 w3 err)
  then show ?thesis
    using dispatcher.publish_kafka [OF unsent(2)] same_store_fields(8) [OF unsent(1)] by auto
next
  case (sent now w2 w3)
  then show ?thesis
    using dispatcher.publish_kafka [OF sent(2)] same_store_fields(8) [OF sent(1)] by (auto simp: commit_tables)
qed (simp add: commit_tables same_store_fields)

lemma retry_step_tables:
  "w_campaigns (retry_step e rw c m w) = w_campaigns w \<and> w_targets (retry_step e rw c m w) = w_targets w
   \<and> w_stats (retry_step e rw c m w) = w_stats w"
proof (cases "Unmarshal dec_retry (k_value m)")
  case (Inl err)
  then show ?thesis by (simp add: retry_step_def commit_tables)
next
  case (Inr rm)
  show ?thesis
  proof (cases rule: retry_step_cases [OF Inr, of w e rw c, case_names cancelled unsent sent])
    case (unsent now w2 w3 err)
    then show ?thesis
      using dispatcher.publish_tables [OF unsent(2)] by (simp add: same_store_fields)
  next
    case (sent now w2 w3)
    then show ?thesis
      using dispatcher.publish_tables [OF sent(2)] by (simp add: same_store_fields commit_tables)
  qed (simp add: commit_tables same_store_fields)
qed

subsection \<open>Properties\<close>



end
