(* ===== verification/Limiter.thy ===== *)
theory Limiter
  imports Store
begin

text \<open>
  The concurrency limiter (\<open>internal/service/concurrency/limiter.go\<close>): the two Lua scripts,
  \<open>Acquire\<close> and \<open>Release\<close>.

  Redis is a parameter: the record \<open>redis\<close> has the commands the scripts call, on a server state
  of any type, and locale \<open>redis_server\<close> has what Redis documents of them (a script runs
  without interleaving, \<open>INCR\<close> counts a missing key from zero, a key disappears when its time
  to live has passed). So is the text of a uuid. The theorems follow any number of workers that
  take and give back slots of one campaign while the other campaigns do the same, requests fail or
  lose their replies, and time passes.
\<close>

record 's redis =
  GET :: "string \<Rightarrow> 's \<Rightarrow> int option"
  INCR :: "string \<Rightarrow> 's \<Rightarrow> int \<times> 's"
  DECR :: "string \<Rightarrow> 's \<Rightarrow> int \<times> 's"
  PEXPIRE :: "string \<Rightarrow> int \<Rightarrow> 's \<Rightarrow> 's"
  DEL :: "string \<Rightarrow> 's \<Rightarrow> 's"

record Limiter =
  lim_defaultLimit :: int
  lim_ttl :: duration

definition NewLimiter :: "int \<Rightarrow> duration \<Rightarrow> Limiter" where
  "NewLimiter defaultLimit ttl =
     \<lparr>lim_defaultLimit = defaultLimit, lim_ttl = (if ttl \<le> 0 then 5 * Minute_d else ttl)\<rparr>"

subsection \<open>The scripts\<close>

definition current :: "'s redis \<Rightarrow> string \<Rightarrow> 's \<Rightarrow> int" where
  "current R key s = (case GET R key s of None \<Rightarrow> 0 | Some v \<Rightarrow> v)"

definition acquire_script :: "'s redis \<Rightarrow> string \<Rightarrow> int \<Rightarrow> int \<Rightarrow> 's \<Rightarrow> int \<times> 's" where
  "acquire_script R key limit ttl s =
     (if current R key s < limit
      then (let s1 = snd (INCR R key s);
                s2 = (if 0 < ttl then PEXPIRE R key ttl s1 else s1)
            in (1, s2))
      else (0, s))"

definition release_script :: "'s redis \<Rightarrow> string \<Rightarrow> 's \<Rightarrow> int \<times> 's" where
  "release_script R key s =
     (if current R key s \<le> 0 then (0, DEL R key s) else DECR R key s)"

text \<open>\<open>script.Run\<close>: the reply may be an error, with or without the script having run.\<close>

definition run_script :: "io_outcome \<Rightarrow> ('s \<Rightarrow> int \<times> 's) \<Rightarrow> 's \<Rightarrow> (go_error + int) \<times> 's" where
  "run_script out script s =
     (case out of
        IoErr m \<Rightarrow> (Inl (New m), s)
      | IoLost m \<Rightarrow> (Inl (New m), snd (script s))
      | IoOk \<Rightarrow> (Inr (fst (script s)), snd (script s)))"

subsection \<open>Acquire and Release\<close>

definition limiter_key :: "(uuid \<Rightarrow> string) \<Rightarrow> uuid \<Rightarrow> string" where
  "limiter_key uuid_String i = ''outbound:campaign:'' @ uuid_String i @ '':active''"

definition Acquire ::
    "'s redis \<Rightarrow> (uuid \<Rightarrow> string) \<Rightarrow> Limiter \<Rightarrow> io_outcome \<Rightarrow> uuid \<Rightarrow> int \<Rightarrow> 's \<Rightarrow> (go_error + bool) \<times> 's" where
  "Acquire R uuid_String l out campaignID limit0 s =
     (if campaignID = uuid_Nil then (Inr True, s)
      else let limit = (if limit0 \<le> 0 then lim_defaultLimit l else limit0)
           in if limit \<le> 0 then (Inr True, s)
              else (case run_script out (acquire_script R (limiter_key uuid_String campaignID)
                           limit (Milliseconds (lim_ttl l))) s of
                      (Inl err, s') \<Rightarrow> (Inl (Errorf ''concurrency acquire: '' err []), s')
                    | (Inr res, s') \<Rightarrow> (Inr (res = 1), s')))"

definition Release ::
    "'s redis \<Rightarrow> (uuid \<Rightarrow> string) \<Rightarrow> io_outcome \<Rightarrow> uuid \<Rightarrow> 's \<Rightarrow> go_error option \<times> 's" where
  "Release R uuid_String out campaignID s =
     (if campaignID = uuid_Nil then (None, s)
      else (case run_script out (release_script R (limiter_key uuid_String campaignID)) s of
              (Inl err, s') \<Rightarrow> (Some (Errorf ''concurrency release: '' err []), s')
            | (Inr _, s') \<Rightarrow> (None, s')))"

definition effective_limit :: "Limiter \<Rightarrow> int \<Rightarrow> int" where
  "effective_limit l limit = (if limit \<le> 0 then lim_defaultLimit l else limit)"

subsection \<open>Workers sharing the limiter\<close>

text \<open>A state of the system for one campaign \<open>i\<close>: the server and the times at which the present
  holders of a slot acquired it. A step is a request for campaign \<open>i\<close> with any outcome and any
  limit up to \<open>L\<close>, a request for another campaign, or the passing of time, in which no holder
  keeps its slot for the time to live or longer.\<close>

inductive limiter_step ::
    "'s redis \<Rightarrow> ('s \<Rightarrow> int) \<Rightarrow> (int \<Rightarrow> 's \<Rightarrow> 's) \<Rightarrow> (uuid \<Rightarrow> string) \<Rightarrow> Limiter \<Rightarrow> uuid \<Rightarrow> int
      \<Rightarrow> 's \<times> int list \<Rightarrow> 's \<times> int list \<Rightarrow> bool"
  for R now advance us l i L where
  acquired: "Acquire R us l out i lm s = (Inr True, s') \<Longrightarrow> 0 < effective_limit l lm \<Longrightarrow>
     effective_limit l lm \<le> L \<Longrightarrow> limiter_step R now advance us l i L (s, hs) (s', now s # hs)"
| not_acquired: "Acquire R us l out i lm s = (r, s') \<Longrightarrow> r \<noteq> Inr True \<Longrightarrow> 0 < effective_limit l lm \<Longrightarrow>
     effective_limit l lm \<le> L \<Longrightarrow> limiter_step R now advance us l i L (s, hs) (s', hs)"
| released: "h \<in> set hs \<Longrightarrow> Release R us out i s = (r, s') \<Longrightarrow>
     limiter_step R now advance us l i L (s, hs) (s', remove1 h hs)"
| other_acquire: "j \<noteq> i \<Longrightarrow> Acquire R us l out j lm s = (r, s') \<Longrightarrow>
     limiter_step R now advance us l i L (s, hs) (s', hs)"
| other_release: "j \<noteq> i \<Longrightarrow> Release R us out j s = (r, s') \<Longrightarrow>
     limiter_step R now advance us l i L (s, hs) (s', hs)"
| elapsed: "0 \<le> d \<Longrightarrow> (\<forall>h \<in> set hs. now s + d < h + Milliseconds (lim_ttl l)) \<Longrightarrow>
     limiter_step R now advance us l i L (s, hs) (advance d s, hs)"

text \<open>The invariant: the counter is at least the number of holders, and the key outlives each of
  them.\<close>

definition limiter_inv ::
    "'s redis \<Rightarrow> ('s \<Rightarrow> int) \<Rightarrow> (string \<Rightarrow> 's \<Rightarrow> int option) \<Rightarrow> string \<Rightarrow> int \<Rightarrow> int \<Rightarrow> 's \<times> int list \<Rightarrow> bool" where
  "limiter_inv R now expires key ttl L = (\<lambda>(s, hs).
     int (length hs) \<le> current R key s \<and> int (length hs) \<le> L
     \<and> (\<forall>h \<in> set hs. h \<le> now s \<and> now s < h + ttl)
     \<and> (\<forall>h \<in> set hs. \<forall>t. expires key s = Some t \<longrightarrow> h + ttl \<le> t))"

lemma Acquire_cases:
  assumes "Acquire R us l out j lm s = (r, s')"
  obtains (unlimited) "s' = s" "j = uuid_Nil \<or> effective_limit l lm \<le> 0"
  | (failed) err where "s' = s" "r = Inl err"
  | (lost) err where "r = Inl err" "0 < effective_limit l lm"
      "s' = snd (acquire_script R (limiter_key us j) (effective_limit l lm) (Milliseconds (lim_ttl l)) s)"
  | (ran) "s' = snd (acquire_script R (limiter_key us j) (effective_limit l lm) (Milliseconds (lim_ttl l)) s)"
      "r = Inr (fst (acquire_script R (limiter_key us j) (effective_limit l lm) (Milliseconds (lim_ttl l)) s) = 1)"
      "0 < effective_limit l lm"
  using assms
  by (auto simp: Acquire_def effective_limit_def [symmetric] run_script_def Let_def
      split: if_splits io_outcome.splits prod.splits)

lemma Release_cases:
  assumes "Release R us out j s = (r, s')"
  obtains (same) "s' = s" | (ran) "s' = snd (release_script R (limiter_key us j) s)"
  using assms
  by (auto simp: Release_def run_script_def split: if_splits io_outcome.splits)

lemma limiter_key_inj: "inj us \<Longrightarrow> limiter_key us i = limiter_key us j \<longleftrightarrow> i = j"
  by (auto simp: limiter_key_def dest: injD)

subsection \<open>What Redis promises\<close>

text \<open>Times are in milliseconds, as for \<open>PEXPIRE\<close>; \<open>expires s key\<close> is the time at which the
  key disappears, if one is set.\<close>

locale redis_server =
  fixes R :: "'s redis"
    and now :: "'s \<Rightarrow> int"
    and expires :: "string \<Rightarrow> 's \<Rightarrow> int option"
    and advance :: "int \<Rightarrow> 's \<Rightarrow> 's"
  assumes GET_INCR: "GET R k' (snd (INCR R k s)) = (if k' = k then Some (current R k s + 1) else GET R k' s)"
    and GET_DECR: "GET R k' (snd (DECR R k s)) = (if k' = k then Some (current R k s - 1) else GET R k' s)"
    and GET_PEXPIRE: "0 < t \<Longrightarrow> GET R k' (PEXPIRE R k t s) = GET R k' s"
    and GET_DEL: "GET R k' (DEL R k s) = (if k' = k then None else GET R k' s)"
    and GET_advance: "0 \<le> d \<Longrightarrow> GET R k (advance d s) =
          (case expires k s of Some t \<Rightarrow> if t \<le> now s + d then None else GET R k s | None \<Rightarrow> GET R k s)"
    and expires_INCR: "expires k' (snd (INCR R k s)) =
          (if k' = k \<and> GET R k s = None then None else expires k' s)"
    and expires_DECR: "expires k' (snd (DECR R k s)) =
          (if k' = k \<and> GET R k s = None then None else expires k' s)"
    and expires_PEXPIRE: "0 < t \<Longrightarrow> GET R k s \<noteq> None \<Longrightarrow>
          expires k' (PEXPIRE R k t s) = (if k' = k then Some (now s + t) else expires k' s)"
    and expires_DEL: "expires k' (DEL R k s) = (if k' = k then None else expires k' s)"
    and expires_advance: "0 \<le> d \<Longrightarrow> expires k (advance d s) =
          (case expires k s of Some t \<Rightarrow> if t \<le> now s + d then None else Some t | None \<Rightarrow> None)"
    and now_commands: "now (snd (INCR R k s)) = now s" "now (snd (DECR R k s)) = now s"
          "now (PEXPIRE R k t s) = now s" "now (DEL R k s) = now s"
    and now_advance: "now (advance d s) = now s + d"
begin

lemma current_cong: "GET R k s' = GET R k s \<Longrightarrow> current R k s' = current R k s"
  by (simp add: current_def)

text \<open>The scripts do not touch other keys.\<close>

lemma acquire_other:
  "k' \<noteq> k \<Longrightarrow> GET R k' (snd (acquire_script R k l t s)) = GET R k' s
     \<and> expires k' (snd (acquire_script R k l t s)) = expires k' s
     \<and> now (snd (acquire_script R k l t s)) = now s"
  by (auto simp: acquire_script_def Let_def GET_INCR GET_PEXPIRE expires_INCR expires_PEXPIRE now_commands)

lemma release_other:
  "k' \<noteq> k \<Longrightarrow> GET R k' (snd (release_script R k s)) = GET R k' s
     \<and> expires k' (snd (release_script R k s)) = expires k' s
     \<and> now (snd (release_script R k s)) = now s"
  by (auto simp: release_script_def GET_DECR GET_DEL expires_DECR expires_DEL now_commands)

text \<open>A successful acquisition counts one more and renews the time to live.\<close>

lemma acquire_effect:
  assumes "current R k s < l"
  shows "fst (acquire_script R k l t s) = 1"
    "current R k (snd (acquire_script R k l t s)) = current R k s + 1"
    "0 < t \<Longrightarrow> expires k (snd (acquire_script R k l t s)) = Some (now s + t)"
    "t \<le> 0 \<Longrightarrow> expires k (snd (acquire_script R k l t s)) = (if GET R k s = None then None else expires k s)"
    "now (snd (acquire_script R k l t s)) = now s"
  using assms
  by (simp_all add: acquire_script_def Let_def current_def [of R k "snd _"] current_def [of R k "PEXPIRE _ _ _ _"]
      GET_INCR GET_PEXPIRE expires_INCR expires_PEXPIRE now_commands)

lemma acquire_refused: "\<not> current R k s < l \<Longrightarrow> acquire_script R k l t s = (0, s)"
  by (simp add: acquire_script_def)

lemma release_effect:
  assumes "0 < current R k s"
  shows "current R k (snd (release_script R k s)) = current R k s - 1"
    "expires k (snd (release_script R k s)) = expires k s"
    "now (snd (release_script R k s)) = now s"
  using assms by (auto simp: release_script_def current_def GET_DECR expires_DECR now_commands split: option.splits)

lemma inv_same:
  assumes "limiter_inv R now expires k ttl L (s, hs)" "GET R k s' = GET R k s" "expires k s' = expires k s"
    "now s' = now s"
  shows "limiter_inv R now expires k ttl L (s', hs)"
  using assms current_cong [OF assms(2)] by (auto simp: limiter_inv_def)

lemma inv_acquire:
  assumes inv: "limiter_inv R now expires k ttl L (s, hs)" and "current R k s < lm" "lm \<le> L" "0 < ttl"
  shows "limiter_inv R now expires k ttl L (snd (acquire_script R k lm ttl s), now s # hs)"
proof -
  note eff = acquire_effect [OF assms(2), of ttl]
  have "int (length hs) \<le> current R k s" and old: "\<forall>h \<in> set hs. h \<le> now s \<and> now s < h + ttl"
    using inv by (auto simp: limiter_inv_def)
  then have "int (length (now s # hs)) \<le> current R k (snd (acquire_script R k lm ttl s))"
    "int (length (now s # hs)) \<le> L"
    using eff(2) assms(2,3) by simp_all
  then show ?thesis
    using old eff(3) [OF assms(4)] eff(5) assms(4) by (auto simp: limiter_inv_def)
qed

lemma inv_weaken:
  assumes "limiter_inv R now expires k ttl L (s, h # hs)"
  shows "limiter_inv R now expires k ttl L (s, hs)"
  using assms by (auto simp: limiter_inv_def)

lemma inv_remove:
  assumes "limiter_inv R now expires k ttl L (s, hs)"
  shows "limiter_inv R now expires k ttl L (s, remove1 h hs)"
  using assms set_remove1_subset [of h hs] by (auto simp: limiter_inv_def length_remove1)

lemma inv_release:
  assumes inv: "limiter_inv R now expires k ttl L (s, hs)" and h: "h \<in> set hs"
  shows "limiter_inv R now expires k ttl L (snd (release_script R k s), remove1 h hs)"
proof -
  have len: "length (remove1 h hs) = length hs - 1" "1 \<le> int (length hs)"
    using h length_pos_if_in_set [OF h] by (simp_all add: length_remove1 Suc_le_eq)
  then have "0 < current R k s"
    using inv by (simp add: limiter_inv_def)
  from release_effect [OF this] show ?thesis
    using inv len set_remove1_subset [of h hs] by (auto simp: limiter_inv_def)
qed

lemma inv_elapsed:
  assumes inv: "limiter_inv R now expires k ttl L (s, hs)" and d: "0 \<le> d" "\<forall>h \<in> set hs. now s + d < h + ttl"
  shows "limiter_inv R now expires k ttl L (advance d s, hs)"
proof (cases "\<exists>t. expires k s = Some t \<and> t \<le> now s + d")
  case True
  then obtain t where t: "expires k s = Some t" "t \<le> now s + d" by blast
  have "hs = []"
  proof (rule ccontr)
    assume "hs \<noteq> []"
    then obtain h where "h \<in> set hs" by (cases hs) auto
    then have "h + ttl \<le> t" "now s + d < h + ttl"
      using inv d t(1) by (auto simp: limiter_inv_def)
    then show False using t(2) by simp
  qed
  then show ?thesis
    using inv d t by (simp add: limiter_inv_def current_def GET_advance)
next
  case False
  then have "GET R k (advance d s) = GET R k s" "expires k (advance d s) = expires k s"
    using d by (auto simp: GET_advance expires_advance split: option.splits)
  then show ?thesis
    using inv d current_cong [of k "advance d s" s] by (force simp: limiter_inv_def now_advance)
qed

lemma inv_step:
  assumes "limiter_step R now advance us l i L st st'"
    and "limiter_inv R now expires (limiter_key us i) (Milliseconds (lim_ttl l)) L st"
    and inj: "inj us" and i: "i \<noteq> uuid_Nil" and ttl: "0 < Milliseconds (lim_ttl l)"
  shows "limiter_inv R now expires (limiter_key us i) (Milliseconds (lim_ttl l)) L st'"
  using assms(1,2)
proof (induction rule: limiter_step.induct)
  case (acquired out lm s s' hs)
  from acquired(1) show ?case
  proof (cases rule: Acquire_cases)
    case ran
    then have "current R (limiter_key us i) s < effective_limit l lm"
      by (auto simp: acquire_script_def split: if_splits)
    then show ?thesis
      using inv_acquire [OF acquired.prems _ acquired.hyps(3) ttl] ran by simp
  qed (use acquired i in auto)
next
  case (not_acquired out lm s r s' hs)
  from not_acquired(1) show ?case
  proof (cases rule: Acquire_cases)
    case (lost err)
    then show ?thesis
      using not_acquired ttl inv_acquire [of _ _ L s hs "effective_limit l lm"] inv_weaken acquire_refused
      by (metis (no_types, lifting) snd_conv)
  next
    case ran
    then show ?thesis
      using not_acquired by (auto simp: acquire_script_def Let_def split: if_splits)
  qed (use not_acquired i in auto)
next
  case (released h hs out s r s')
  from released(2) show ?case
    by (cases rule: Release_cases) (use released inv_remove inv_release in auto)
next
  case (other_acquire j out lm s r s' hs)
  then show ?case
    using acquire_other [of "limiter_key us i" "limiter_key us j"] limiter_key_inj [OF inj]
    by (elim Acquire_cases) (auto intro: inv_same)
next
  case (other_release j out s r s' hs)
  then show ?case
    using release_other [of "limiter_key us i" "limiter_key us j"] limiter_key_inj [OF inj]
    by (elim Release_cases) (auto intro: inv_same)
next
  case (elapsed d hs s)
  then show ?case by (intro inv_elapsed) auto
qed

lemma inv_reachable:
  assumes "rtranclp (limiter_step R now advance us l i L) (s0, []) st"
    and "0 \<le> current R (limiter_key us i) s0" "inj us" "i \<noteq> uuid_Nil" "0 < Milliseconds (lim_ttl l)" "0 \<le> L"
  shows "limiter_inv R now expires (limiter_key us i) (Milliseconds (lim_ttl l)) L st"
  using assms(1)
proof (induction rule: rtranclp_induct)
  case base
  then show ?case using assms by (simp add: limiter_inv_def)
next
  case (step st st')
  then show ?case using inv_step assms(3-5) by blast
qed

text \<open>A key whose time to live has passed counts nothing: the next acquisition succeeds.\<close>

lemma acquire_after_expiry:
  assumes "expires (limiter_key us i) s = Some t" "t \<le> now s + d" "0 \<le> d" "0 < effective_limit l lm"
  shows "fst (Acquire R us l IoOk i lm (advance d s)) = Inr True"
proof (cases "i = uuid_Nil")
  case True
  then show ?thesis by (simp add: Acquire_def)
next
  case False
  have "current R (limiter_key us i) (advance d s) = 0"
    using assms by (simp add: current_def GET_advance)
  then show ?thesis
    using False assms(4) acquire_effect(1) [of "limiter_key us i" "advance d s"]
    by (simp add: Acquire_def run_script_def effective_limit_def Let_def split: if_splits)
qed

end

subsection \<open>A server in memory\<close>

text \<open>A store of counters with expiry times, as Redis documents it: the instance of the laws.\<close>

record memory =
  mem_now :: int
  mem_data :: "string \<Rightarrow> (int \<times> int option) option"

definition mem_count :: "string \<Rightarrow> memory \<Rightarrow> int" where
  "mem_count k s = (case mem_data s k of None \<Rightarrow> 0 | Some (v, x) \<Rightarrow> v)"

definition mem_expires :: "string \<Rightarrow> memory \<Rightarrow> int option" where
  "mem_expires k s = (case mem_data s k of None \<Rightarrow> None | Some (v, x) \<Rightarrow> x)"

definition mem_set :: "string \<Rightarrow> int \<Rightarrow> memory \<Rightarrow> memory" where
  "mem_set k v s = s\<lparr>mem_data := (mem_data s)(k \<mapsto> (v, mem_expires k s))\<rparr>"

definition memory_redis :: "memory redis" where
  "memory_redis =
     \<lparr>GET = (\<lambda>k s. map_option fst (mem_data s k)),
      INCR = (\<lambda>k s. (mem_count k s + 1, mem_set k (mem_count k s + 1) s)),
      DECR = (\<lambda>k s. (mem_count k s - 1, mem_set k (mem_count k s - 1) s)),
      PEXPIRE = (\<lambda>k t s. case mem_data s k of None \<Rightarrow> s
                  | Some (v, x) \<Rightarrow> s\<lparr>mem_data := (mem_data s)(k \<mapsto> (v, Some (mem_now s + t)))\<rparr>),
      DEL = (\<lambda>k s. s\<lparr>mem_data := (mem_data s)(k := None)\<rparr>)\<rparr>"

definition mem_advance :: "int \<Rightarrow> memory \<Rightarrow> memory" where
  "mem_advance d s =
     s\<lparr>mem_now := mem_now s + d,
       mem_data := (\<lambda>k. case mem_data s k of
          Some (v, Some t) \<Rightarrow> if t \<le> mem_now s + d then None else Some (v, Some t)
        | other \<Rightarrow> other)\<rparr>"

interpretation memory: redis_server memory_redis mem_now mem_expires mem_advance
  by unfold_locales
    (auto simp: memory_redis_def current_def mem_count_def mem_expires_def mem_set_def mem_advance_def
      split: option.splits prod.splits if_splits)

lemma Milliseconds_pos: "Millisecond \<le> d \<Longrightarrow> 0 < Milliseconds d"
  using go_div_bounds(2) [of Millisecond d] by (simp add: Milliseconds_def Millisecond_def)

text \<open>An injective text for uuids, an empty server and a limiter of one slot.\<close>

definition sample_text :: "uuid \<Rightarrow> string" where
  "sample_text u = show_nat (unat u)"

lemma sample_text_inj: "inj sample_text"
  by (auto intro!: injI dest!: show_nat_inj simp: sample_text_def word_unat_eq_iff)

definition empty_memory :: memory where
  "empty_memory = \<lparr>mem_now = 0, mem_data = (\<lambda>_. None)\<rparr>"

definition one_slot :: Limiter where
  "one_slot = NewLimiter 1 0"

definition one_taken :: memory where
  "one_taken = snd (Acquire memory_redis sample_text one_slot IoOk 1 0 empty_memory)"

lemmas one_defs = empty_memory_def one_slot_def one_taken_def NewLimiter_def memory_redis_def current_def
  mem_count_def mem_set_def mem_expires_def Acquire_def run_script_def acquire_script_def effective_limit_def
  Let_def duration_units uuid_Nil_def

lemma one_acquired: "Acquire memory_redis sample_text one_slot IoOk 1 0 empty_memory = (Inr True, one_taken)"
  by (simp add: one_defs)

lemma one_taken_expires: "mem_expires (limiter_key sample_text 1) one_taken = Some 300000"
  by (simp add: one_defs Milliseconds_def go_div_def)

lemma one_reached:
  "rtranclp (limiter_step memory_redis mem_now mem_advance sample_text one_slot 1 1) (empty_memory, []) (one_taken, [0])"
proof -
  have "limiter_step memory_redis mem_now mem_advance sample_text one_slot 1 1
      (empty_memory, []) (one_taken, mem_now empty_memory # [])"
    by (rule limiter_step.acquired [OF one_acquired]) (simp_all add: one_defs)
  then show ?thesis by (simp add: empty_memory_def)
qed

subsection \<open>Properties\<close>





end
