(* ===== verification/Call_Worker.thy ===== *)
theory Call_Worker
  imports Queue Limiter Go_Float Samples
begin

text \<open>
  The call worker (\<open>internal/worker/call/worker.go\<close>) and the telephony interface with its mock
  (\<open>internal/telephony\<close>). The telephony provider is a parameter; so are the random numbers
  drawn, the value of an out-of-range float conversion, and, while the worker waits for a slot,
  the outcome of each poll, the changes other workers make between two polls and the state of the
  context.
\<close>

subsection \<open>Telephony\<close>

record Result =
  res_Status :: call_status
  res_Duration :: duration
  res_Retryable :: bool
  res_Error :: string

type_synonym provider = "duration \<Rightarrow> DispatchMessage \<Rightarrow> Result \<times> go_error option"

text \<open>\<open>PlaceCall\<close> of the mock: \<open>n\<close> is the draw of \<open>Intn(5)\<close>, \<open>ctxErr\<close> the context's
  error when it is done before the call's duration has passed, \<open>u\<close> the draw of \<open>Float64\<close>.\<close>

definition mock_PlaceCall :: "int \<Rightarrow> go_error option \<Rightarrow> float64 \<Rightarrow> provider" where
  "mock_PlaceCall n ctxErr u timeout msg =
     (let dur = wrap64 ((5 + n) * Second)
      in case ctxErr of
           Some err \<Rightarrow> (\<lparr>res_Status = CallStatusFailed, res_Duration = dur, res_Retryable = True,
                          res_Error = Error err\<rparr>, Some err)
         | None \<Rightarrow>
             if u \<le> 5404319552844595 / 9007199254740992
             then (\<lparr>res_Status = CallStatusCompleted, res_Duration = dur, res_Retryable = False,
                    res_Error = []\<rparr>, None)
             else (\<lparr>res_Status = CallStatusFailed, res_Duration = dur, res_Retryable = True,
                    res_Error = ''simulated failure''\<rparr>, None))"

subsection \<open>The next attempt\<close>

definition retry_base :: "DispatchMessage \<Rightarrow> duration" where
  "retry_base msg =
     (let base = wrap64 (dm_RetryBaseMs msg * Millisecond) in if base \<le> 0 then 2 * Second else base)"

definition retry_max :: "DispatchMessage \<Rightarrow> duration" where
  "retry_max msg =
     (let maxDelay = wrap64 (dm_RetryMaxMs msg * Millisecond) in if maxDelay \<le> 0 then 2 * Minute_d else maxDelay)"

definition retry_delay :: "int \<Rightarrow> float64 \<Rightarrow> DispatchMessage \<Rightarrow> duration" where
  "retry_delay oob u msg =
     (let base = retry_base msg;
          maxDelay = retry_max msg;
          delay0 = wrap64 (pow2_int64 oob (wrap64 (dm_Attempt msg - 1)) * base);
          delay1 = (if maxDelay < delay0 then maxDelay else delay0)
      in if 0 < dm_RetryJitter msg
         then (let jitterFraction = fl (fl (u * dm_RetryJitter msg) - fl (dm_RetryJitter msg / 2));
                   jitter = float_to_int64 oob (fl (fl (of_int delay1) * jitterFraction));
                   delay2 = wrap64 (delay1 + jitter)
               in if delay2 < base then base else delay2)
         else delay1)"

definition computeNextAttempt :: "env \<Rightarrow> int \<Rightarrow> float64 \<Rightarrow> DispatchMessage \<Rightarrow> world \<Rightarrow> go_time \<times> world" where
  "computeNextAttempt e oob u msg w =
     (case Now e w of (now, w') \<Rightarrow> (Add now (retry_delay oob u msg), w'))"

subsection \<open>Waiting for a slot\<close>

record 's poll =
  p_out :: "nat \<Rightarrow> io_outcome"
  p_between :: "nat \<Rightarrow> 's \<Rightarrow> 's"
  p_ctx_err :: "nat \<Rightarrow> go_error option"
  p_ctx_done :: "nat \<Rightarrow> go_error option"

datatype slot = NoSlotNeeded | Slot

partial_function (option) wait_loop ::
    "'s redis \<Rightarrow> (uuid \<Rightarrow> string) \<Rightarrow> Limiter \<Rightarrow> 's poll \<Rightarrow> uuid \<Rightarrow> int \<Rightarrow> nat \<Rightarrow> 's \<Rightarrow> ((go_error + slot) \<times> 's) option" where
  "wait_loop R us l p i limit n s =
     (case Acquire R us l (p_out p n) i limit s of
        (Inl err, s') \<Rightarrow> Some (Inl (case p_ctx_err p n of Some ctxErr \<Rightarrow> ctxErr | None \<Rightarrow> err), s')
      | (Inr acquired, s') \<Rightarrow>
          if acquired then Some (Inr Slot, s')
          else (case p_ctx_done p n of
                  Some ctxErr \<Rightarrow> Some (Inl ctxErr, s')
                | None \<Rightarrow> wait_loop R us l p i limit (Suc n) (p_between p n s')))"

definition waitForSlot ::
    "'s redis \<Rightarrow> (uuid \<Rightarrow> string) \<Rightarrow> Limiter option \<Rightarrow> int \<Rightarrow> 's poll \<Rightarrow> DispatchMessage \<Rightarrow> 's
      \<Rightarrow> ((go_error + slot) \<times> 's) option" where
  "waitForSlot R us limiter defaultPerCampaign p dispatch s =
     (case limiter of
        None \<Rightarrow> Some (Inr NoSlotNeeded, s)
      | Some l \<Rightarrow>
          if dm_CampaignID dispatch = uuid_Nil then Some (Inr NoSlotNeeded, s)
          else let limit = (if dm_ConcurrencyLimit dispatch \<le> 0 then defaultPerCampaign
                            else dm_ConcurrencyLimit dispatch)
               in if limit \<le> 0 then Some (Inr NoSlotNeeded, s)
                  else wait_loop R us l p (dm_CampaignID dispatch) limit 0 s)"

subsection \<open>Processing a message\<close>

text \<open>The status message before the next attempt is filled in.\<close>

definition make_status :: "DispatchMessage \<Rightarrow> Result \<Rightarrow> go_error option \<Rightarrow> go_time \<Rightarrow> StatusMessage" where
  "make_status dispatch result callErr now =
     (let msg0 = \<lparr>sm_CallID = dm_CallID dispatch, sm_CampaignID = dm_CampaignID dispatch,
            sm_PhoneNumber = dm_PhoneNumber dispatch, sm_Status = res_Status result,
            sm_Attempt = dm_Attempt dispatch, sm_MaxAttempts = dm_MaxAttempts dispatch,
            sm_Retryable = (res_Retryable result \<and> dm_Attempt dispatch < dm_MaxAttempts dispatch),
            sm_RetryBaseMs = dm_RetryBaseMs dispatch, sm_RetryMaxMs = dm_RetryMaxMs dispatch,
            sm_RetryJitter = dm_RetryJitter dispatch,
            sm_ConcurrencyLimit = dm_ConcurrencyLimit dispatch, sm_DurationMs = 0,
            sm_Error = res_Error result, sm_OccurredAt = now, sm_NextAttempt = None,
            sm_Metadata = dm_Metadata dispatch\<rparr>;
          msg1 = (if 0 < res_Duration result
                  then msg0\<lparr>sm_DurationMs := go_div (res_Duration result) Millisecond\<rparr> else msg0)
      in case callErr of
           Some err \<Rightarrow> if sm_Error msg1 = []
             then msg1\<lparr>sm_Error := Error err,
                       sm_Retryable := dm_Attempt dispatch < dm_MaxAttempts dispatch,
                       sm_Status := CallStatusFailed\<rparr>
             else msg1
         | None \<Rightarrow> msg1)"

record 's call_worker =
  cw_redis :: "'s redis"
  cw_text :: "uuid \<Rightarrow> string"
  cw_limiter :: "Limiter option"
  cw_defaultPerCampaign :: int
  cw_poll :: "'s poll"
  cw_release :: io_outcome
  cw_provider :: provider
  cw_timeout :: duration
  cw_oob :: int
  cw_rand :: float64
  cw_statusTopic :: string
  cw_group :: string

text \<open>\<open>None\<close>: the worker waits for a slot for ever. The slot is given back when the function
  returns; an error of the release is only logged.\<close>

definition processMessage ::
    "env \<Rightarrow> 's call_worker \<Rightarrow> kafka_record \<Rightarrow> world \<times> 's \<Rightarrow> (go_error option \<times> world \<times> 's) option" where
  "processMessage e c m ws =
     (case ws of (w, s) \<Rightarrow>
      (case Unmarshal dec_dispatch (k_value m) of
        Inl err \<Rightarrow> Some (Some (Errorf ''unmarshal dispatch: '' err []), snd (CommitMessages e (cw_group c) m w), s)
      | Inr dispatch \<Rightarrow>
          (case waitForSlot (cw_redis c) (cw_text c) (cw_limiter c) (cw_defaultPerCampaign c) (cw_poll c) dispatch s of
             None \<Rightarrow> None
           | Some (Inl err, s1) \<Rightarrow> Some (Some err, w, s1)
           | Some (Inr slot, s1) \<Rightarrow>
               (let timeout = (if cw_timeout c \<le> 0 then 10 * Second else cw_timeout c);
                    (result, callErr) = cw_provider c timeout dispatch;
                    (now, w1) = Now e w;
                    status0 = make_status dispatch result callErr now;
                    (status, w2) =
                      (if sm_Retryable status0
                       then (case computeNextAttempt e (cw_oob c) (cw_rand c) dispatch w1 of
                               (t, w2) \<Rightarrow> (status0\<lparr>sm_NextAttempt := Some t\<rparr>, w2))
                       else (status0, w1));
                    (pubErr, w3) = PublishStatus e (cw_statusTopic c) status w2;
                    (commitErr, w4) = CommitMessages e (cw_group c) m w3;
                    s2 = (case slot of
                            NoSlotNeeded \<Rightarrow> s1
                          | Slot \<Rightarrow> snd (Release (cw_redis c) (cw_text c) (cw_release c) (dm_CampaignID dispatch) s1))
                in Some (case commitErr of None \<Rightarrow> None | Some err \<Rightarrow> Some (Errorf ''commit message: '' err []),
                         w4, s2)))))"

subsection \<open>Bounds of the delay\<close>

lemma jitter_fraction_bounds:
  assumes "0 \<le> u" "u \<le> 1" "0 \<le> J" "J \<le> 1" "representable J"
  shows "- (1 / 2) \<le> fl (fl (u * J) - fl (J / 2))" "fl (fl (u * J) - fl (J / 2)) \<le> 1 / 2"
proof -
  have half: "fl (J / 2) = J / 2"
    using assms(5) by (intro fl_representable representable_half)
  have "fl 0 \<le> fl (u * J)" "fl (u * J) \<le> fl J"
    using assms by (intro fl_mono; simp add: mult_left_le_one_le)+
  then have "- (J / 2) \<le> fl (u * J) - fl (J / 2)" "fl (u * J) - fl (J / 2) \<le> J / 2"
    using half fl_representable [OF assms(5)] by simp_all
  then have "fl (- (J / 2)) \<le> fl (fl (u * J) - fl (J / 2))" "fl (fl (u * J) - fl (J / 2)) \<le> fl (J / 2)"
    by (auto intro: fl_mono)
  then show "- (1 / 2) \<le> fl (fl (u * J) - fl (J / 2))" "fl (fl (u * J) - fl (J / 2)) \<le> 1 / 2"
    using assms(4) unfolding fl_minus half by linarith+
qed

lemma int64_half:
  assumes "2 * \<bar>x\<bar> \<le> d" "0 \<le> d" "d < 2 ^ 53"
  shows "int64 x" "int64 (d + x)"
  using assms by (auto simp: int64_def)

lemma max_half:
  fixes b d x :: int
  assumes "2 * \<bar>x\<bar> \<le> d" "b \<le> d" "0 < b"
  shows "b \<le> max b (d + x) \<and> 2 * max b (d + x) \<le> 3 * d"
  using assms by (auto simp: max_def)

lemma jitter_bounds:
  assumes "0 \<le> d" "d < 2 ^ 53" "- (1 / 2) \<le> f" "f \<le> 1 / 2"
  shows "2 * \<bar>float_to_int64 oob (fl (fl (of_int d) * f))\<bar> \<le> d"
proof -
  let ?x = "fl (fl (of_int d) * f)"
  have r: "representable (of_int d)"
    using assms(1,2) by (intro representable_int) simp
  then have half: "fl (of_int d / 2) = of_int d / 2"
    by (intro fl_representable representable_half)
  have "of_int d * f \<le> of_int d / 2" "- (of_int d / 2) \<le> of_int d * f"
    using assms mult_left_mono [of f "1 / 2" "of_int d"] mult_left_mono [of "- (1 / 2)" f "of_int d"]
    by simp_all
  then have "?x \<le> fl (of_int d / 2)" "fl (- (of_int d / 2)) \<le> ?x"
    using fl_representable [OF r] by (auto intro: fl_mono)
  then have "- (of_int d) \<le> 2 * ?x" "2 * ?x \<le> of_int d"
    using half by (simp_all add: fl_minus)
  moreover have "of_int \<bar>trunc_rat ?x\<bar> \<le> \<bar>?x\<bar>"
    by (simp add: trunc_rat_def)
  ultimately have "of_int (2 * \<bar>trunc_rat ?x\<bar>) \<le> (of_int d :: rat)"
    by simp
  then have t: "2 * \<bar>trunc_rat ?x\<bar> \<le> d"
    by (simp only: of_int_le_iff)
  then have "int64 (trunc_rat ?x)"
    using assms(1,2) by (intro int64_half(1)) simp_all
  with t show ?thesis by (simp add: float_to_int64_def)
qed

definition backoff :: "DispatchMessage \<Rightarrow> duration" where
  "backoff msg = min (2 ^ nat (dm_Attempt msg - 1) * retry_base msg) (retry_max msg)"

lemma retry_base_pos: "0 < retry_base msg" and retry_max_pos: "0 < retry_max msg"
  by (auto simp: retry_base_def retry_max_def Let_def duration_units)

text \<open>As long as doubling the base delay does not overflow.\<close>

definition no_overflow :: "DispatchMessage \<Rightarrow> bool" where
  "no_overflow msg \<longleftrightarrow> 1 \<le> dm_Attempt msg \<and> dm_Attempt msg \<le> 63
     \<and> 2 ^ nat (dm_Attempt msg - 1) * retry_base msg < 2 ^ 63"

lemma delay1_backoff:
  assumes "no_overflow msg"
  shows "(let delay0 = wrap64 (pow2_int64 oob (wrap64 (dm_Attempt msg - 1)) * retry_base msg)
          in if retry_max msg < delay0 then retry_max msg else delay0) = backoff msg"
proof -
  have "wrap64 (dm_Attempt msg - 1) = dm_Attempt msg - 1"
    using assms by (simp add: no_overflow_def int64_def)
  moreover have "wrap64 (2 ^ nat (dm_Attempt msg - 1) * retry_base msg) = 2 ^ nat (dm_Attempt msg - 1) * retry_base msg"
    using assms retry_base_pos [of msg] by (intro wrap64_id) (simp add: no_overflow_def int64_def order_trans [of _ 0])
  ultimately show ?thesis
    using assms by (auto simp: no_overflow_def pow2_int64_def backoff_def Let_def)
qed

lemma retry_delay_cases:
  assumes "no_overflow msg"
  shows "retry_delay oob u msg =
    (if 0 < dm_RetryJitter msg
     then max (retry_base msg) (wrap64 (backoff msg + float_to_int64 oob
            (fl (fl (of_int (backoff msg)) * fl (fl (u * dm_RetryJitter msg) - fl (dm_RetryJitter msg / 2))))))
     else backoff msg)"
  using delay1_backoff [OF assms, of oob] by (auto simp: retry_delay_def Let_def)

lemma retry_delay_bounds:
  assumes "no_overflow msg" "retry_base msg \<le> retry_max msg" "retry_max msg < 2 ^ 53"
    and "0 \<le> u" "u \<le> 1" "dm_RetryJitter msg \<le> 1" "representable (dm_RetryJitter msg)"
  shows "retry_base msg \<le> retry_delay oob u msg" "2 * retry_delay oob u msg \<le> 3 * backoff msg"
proof -
  let ?d = "backoff msg"
  have "retry_base msg * 1 \<le> retry_base msg * 2 ^ nat (dm_Attempt msg - 1)"
    using retry_base_pos [of msg] by (intro mult_left_mono) simp_all
  then have d: "retry_base msg \<le> ?d" "?d < 2 ^ 53"
    using assms(2,3) by (simp_all add: backoff_def mult.commute)
  have "retry_base msg \<le> retry_delay oob u msg \<and> 2 * retry_delay oob u msg \<le> 3 * ?d"
  proof (cases "0 < dm_RetryJitter msg")
    case False
    then show ?thesis
      using d retry_base_pos [of msg] retry_delay_cases [OF assms(1), of oob u] by simp
  next
    case True
    let ?j = "float_to_int64 oob (fl (fl (of_int ?d) *
      fl (fl (u * dm_RetryJitter msg) - fl (dm_RetryJitter msg / 2))))"
    have j: "2 * \<bar>?j\<bar> \<le> ?d"
      using True d retry_base_pos [of msg] jitter_fraction_bounds [OF assms(4,5) _ assms(6,7)]
      by (intro jitter_bounds) auto
    then have "int64 (?d + ?j)"
      using d retry_base_pos [of msg] by (intro int64_half(2)) simp_all
    then have "retry_delay oob u msg = max (retry_base msg) (?d + ?j)"
      using True retry_delay_cases [OF assms(1), of oob u] by simp
    then show ?thesis
      using max_half [OF j d(1)] retry_base_pos [of msg] by simp
  qed
  then show "retry_base msg \<le> retry_delay oob u msg" "2 * retry_delay oob u msg \<le> 3 * ?d"
    by simp_all
qed

subsection \<open>Waiting ends\<close>

text \<open>The server at the \<open>n\<close>-th poll, when the polls before it were refused (a refused poll changes
  nothing).\<close>

primrec poll_state :: "'s poll \<Rightarrow> nat \<Rightarrow> 's \<Rightarrow> 's" where
  "poll_state p 0 s = s"
| "poll_state p (Suc n) s = p_between p n (poll_state p n s)"

lemma Acquire_poll:
  assumes "i \<noteq> uuid_Nil" "0 < limit"
  shows "Acquire R us l IoOk i limit s =
    (if current R (limiter_key us i) s < limit
     then (Inr True, snd (acquire_script R (limiter_key us i) limit (Milliseconds (lim_ttl l)) s))
     else (Inr False, s))"
  using assms by (simp add: Acquire_def run_script_def acquire_script_def Let_def)

lemma wait_loop_returns:
  assumes "i \<noteq> uuid_Nil" "0 < limit" "current R (limiter_key us i) (poll_state p n s) < limit"
    and "\<forall>k \<le> n. p_out p k = IoOk" "\<forall>k < n. p_ctx_done p k = None" "m \<le> n"
    and "\<forall>k < n. \<not> current R (limiter_key us i) (poll_state p k s) < limit"
  shows "\<exists>s'. wait_loop R us l p i limit m (poll_state p m s) = Some (Inr Slot, s')"
  using assms(6)
proof (induction "n - m" arbitrary: m)
  case 0
  then have "m = n" by simp
  then show ?case
    using assms by (subst wait_loop.simps) (simp add: Acquire_poll)
next
  case (Suc d)
  then have m: "m < n" "d = n - Suc m" by simp_all
  then have "wait_loop R us l p i limit m (poll_state p m s) =
      wait_loop R us l p i limit (Suc m) (poll_state p (Suc m) s)"
    using assms by (subst wait_loop.simps) (simp add: Acquire_poll)
  then show ?case using Suc.hyps(1) [OF m(2)] m(1) by simp
qed

lemma wait_loop_slot:
  assumes "i \<noteq> uuid_Nil" "0 < limit" "current R (limiter_key us i) (poll_state p n s) < limit"
    and "\<forall>k \<le> n. p_out p k = IoOk" "\<forall>k < n. p_ctx_done p k = None"
  shows "\<exists>s'. wait_loop R us l p i limit 0 s = Some (Inr Slot, s')"
proof -
  let ?P = "\<lambda>k. current R (limiter_key us i) (poll_state p k s) < limit"
  define n' where "n' = (LEAST k. ?P k)"
  have P: "?P n'" and le: "n' \<le> n" and least: "\<forall>k < n'. \<not> ?P k"
    using assms(3) LeastI [of ?P n] Least_le [of ?P n] not_less_Least [of _ ?P] by (auto simp: n'_def)
  show ?thesis
    using wait_loop_returns [OF assms(1,2) P _ _ _ least, where m = 0 and l = l] assms(4,5) le by auto
qed

subsection \<open>What a processed message leaves\<close>

lemma make_status_fields [simp]:
  "sm_CallID (make_status d res err t) = dm_CallID d"
  "sm_CampaignID (make_status d res err t) = dm_CampaignID d"
  "sm_PhoneNumber (make_status d res err t) = dm_PhoneNumber d"
  "sm_Attempt (make_status d res err t) = dm_Attempt d"
  "sm_MaxAttempts (make_status d res err t) = dm_MaxAttempts d"
  "sm_RetryBaseMs (make_status d res err t) = dm_RetryBaseMs d"
  "sm_RetryMaxMs (make_status d res err t) = dm_RetryMaxMs d"
  "sm_RetryJitter (make_status d res err t) = dm_RetryJitter d"
  "sm_ConcurrencyLimit (make_status d res err t) = dm_ConcurrencyLimit d"
  "sm_Metadata (make_status d res err t) = dm_Metadata d"
  "sm_NextAttempt (make_status d res err t) = None"
  by (auto simp: make_status_def Let_def split: option.splits)

lemma make_status_retryable: "sm_Retryable (make_status d res err t) \<Longrightarrow> dm_Attempt d < dm_MaxAttempts d"
  by (auto simp: make_status_def Let_def split: option.splits if_splits)

text \<open>The status a worker publishes for a dispatch: the status of the call and, when it may be
  retried, the time of the next attempt.\<close>

definition answers :: "'s call_worker \<Rightarrow> DispatchMessage \<Rightarrow> StatusMessage \<Rightarrow> bool" where
  "answers c d sm \<longleftrightarrow>
     (\<exists>result callErr t next.
        cw_provider c (if cw_timeout c \<le> 0 then 10 * Second else cw_timeout c) d = (result, callErr)
        \<and> sm = (make_status d result callErr t)\<lparr>sm_NextAttempt := next\<rparr>
        \<and> (next \<noteq> None \<longleftrightarrow> sm_Retryable sm))"

lemma answers_fields:
  assumes "answers c d sm"
  shows "sm_CallID sm = dm_CallID d" "sm_CampaignID sm = dm_CampaignID d" "sm_Attempt sm = dm_Attempt d"
    "sm_MaxAttempts sm = dm_MaxAttempts d" "sm_Retryable sm \<Longrightarrow> dm_Attempt d < dm_MaxAttempts d"
    "sm_NextAttempt sm \<noteq> None \<longleftrightarrow> sm_Retryable sm"
  using assms by (auto simp: answers_def dest: make_status_retryable)

lemma processMessage_done:
  assumes p: "processMessage e c m (w, s) = Some (r, w', s')"
    and d: "Unmarshal dec_dispatch (k_value m) = Inr d"
    and q: "waitForSlot (cw_redis c) (cw_text c) (cw_limiter c) (cw_defaultPerCampaign c) (cw_poll c) d s = Some (Inr q, s1)"
  obtains sm w2 w3 pubErr commitErr where "answers c d sm" "same_store w w2" "io_n w2 = io_n w"
    "PublishStatus e (cw_statusTopic c) sm w2 = (pubErr, w3)"
    "CommitMessages e (cw_group c) m w3 = (commitErr, w')"
    "r = None \<longleftrightarrow> commitErr = None"
    "s' = (case q of NoSlotNeeded \<Rightarrow> s1
           | Slot \<Rightarrow> snd (Release (cw_redis c) (cw_text c) (cw_release c) (dm_CampaignID d) s1))"
proof -
  obtain result callErr where pl:
    "cw_provider c (if cw_timeout c \<le> 0 then 10 * Second else cw_timeout c) d = (result, callErr)" by force
  obtain now w1 where n: "Now e w = (now, w1)" by force
  let ?st = "make_status d result callErr now"
  obtain t wn where cn: "computeNextAttempt e (cw_oob c) (cw_rand c) d w1 = (t, wn)" by force
  let ?sm = "if sm_Retryable ?st then ?st\<lparr>sm_NextAttempt := Some t\<rparr> else ?st"
  let ?w2 = "if sm_Retryable ?st then wn else w1"
  obtain pubErr w3 where pub: "PublishStatus e (cw_statusTopic c) ?sm ?w2 = (pubErr, w3)" by force
  obtain commitErr w4 where com: "CommitMessages e (cw_group c) m w3 = (commitErr, w4)" by force
  have "same_store w1 wn"
    using cn by (auto simp: computeNextAttempt_def split: prod.splits dest: Now_same)
  then have s2: "same_store w ?w2"
    using Now_same [OF n] same_store_trans by auto
  have io: "io_n ?w2 = io_n w"
    using n cn by (auto simp: Now_def computeNextAttempt_def)
  have "answers c d ?sm"
    unfolding answers_def
    by (intro exI [of _ result] exI [of _ callErr] exI [of _ now]
        exI [of _ "if sm_Retryable ?st then Some t else None"]) (simp add: pl)
  moreover have "processMessage e c m (w, s) =
      Some (case commitErr of None \<Rightarrow> None | Some err \<Rightarrow> Some (Errorf ''commit message: '' err []), w4,
            case q of NoSlotNeeded \<Rightarrow> s1
            | Slot \<Rightarrow> snd (Release (cw_redis c) (cw_text c) (cw_release c) (dm_CampaignID d) s1))"
    using pub com by (cases "sm_Retryable ?st") (simp_all add: processMessage_def Let_def d q pl n cn)
  then have "w' = w4" "r = None \<longleftrightarrow> commitErr = None"
    "s' = (case q of NoSlotNeeded \<Rightarrow> s1
           | Slot \<Rightarrow> snd (Release (cw_redis c) (cw_text c) (cw_release c) (dm_CampaignID d) s1))"
    using p by (auto split: option.splits)
  ultimately show thesis
    using that s2 io pub com by blast
qed

lemma processMessage_total:
  assumes "Unmarshal dec_dispatch (k_value m) = Inr d"
    and "waitForSlot (cw_redis c) (cw_text c) (cw_limiter c) (cw_defaultPerCampaign c) (cw_poll c) d s = Some (Inr q, s1)"
  shows "\<exists>r w' s'. processMessage e c m (w, s) = Some (r, w', s')"
  using assms by (simp add: processMessage_def Let_def split: prod.splits)

lemma processMessage_ok:
  assumes "no_faults e" "Unmarshal dec_dispatch (k_value m) = Inr d"
    and "waitForSlot (cw_redis c) (cw_text c) (cw_limiter c) (cw_defaultPerCampaign c) (cw_poll c) d s = Some (Inr q, s1)"
  shows "\<exists>w' s'. processMessage e c m (w, s) = Some (None, w', s')"
proof -
  obtain r w' s' where p: "processMessage e c m (w, s) = Some (r, w', s')"
    using processMessage_total [OF assms(2,3)] by blast
  obtain w3 commitErr where "CommitMessages e (cw_group c) m w3 = (commitErr, w')" "r = None \<longleftrightarrow> commitErr = None"
    using processMessage_done [OF p assms(2,3)] by metis
  then have "r = None"
    using CommitMessages_ok [OF assms(1), of "cw_group c" m w3] by simp
  then show ?thesis using p by blast
qed

lemma status_published:
  assumes "PublishStatus e topic sm w = (err, w')"
  shows "same_store w w' \<and> err \<noteq> None \<or>
    published w \<lparr>k_topic = topic, k_key = sm_CallID sm, k_value = enc_status sm, k_time = utc (now_at e (now_n w))\<rparr> w'"
  using status_publisher.publish_either [OF assms] .

text \<open>A worker for the examples: it calls a provider that always fails, with the limiter of one slot
  and a server in memory.\<close>

definition failing_provider :: provider where
  "failing_provider timeout d = (\<lparr>res_Status = CallStatusFailed, res_Duration = 5 * Second,
     res_Retryable = True, res_Error = ''busy''\<rparr>, None)"

definition sample_poll :: "memory poll" where
  "sample_poll = \<lparr>p_out = (\<lambda>_. IoOk), p_between = (\<lambda>_ s. s), p_ctx_err = (\<lambda>_. None), p_ctx_done = (\<lambda>_. None)\<rparr>"

definition sample_worker :: "memory call_worker" where
  "sample_worker = \<lparr>cw_redis = memory_redis, cw_text = sample_text, cw_limiter = Some one_slot,
     cw_defaultPerCampaign = 5, cw_poll = sample_poll, cw_release = IoOk, cw_provider = failing_provider,
     cw_timeout = 0, cw_oob = 0, cw_rand = 1 / 2, cw_statusTopic = ''status'', cw_group = ''callworker''\<rparr>"

definition sample_record :: kafka_record where
  "sample_record = \<lparr>k_topic = ''calls'', k_key = 11, k_value = enc_dispatch sample_dispatch, k_time = utc 0\<rparr>"

lemma sample_dispatch_wf: "wf_dispatch sample_dispatch"
  by (simp add: wf_dispatch_def sample_dispatch_def int64_def)

lemma sample_record_dispatch: "Unmarshal dec_dispatch (k_value sample_record) = Inr sample_dispatch"
  by (simp add: sample_record_def dispatch_roundtrip_aux sample_dispatch_wf)

lemma sample_wait:
  "waitForSlot memory_redis sample_text (Some one_slot) 5 sample_poll sample_dispatch empty_memory =
     Some (Inr Slot, snd (acquire_script memory_redis (limiter_key sample_text 1) 2 300000 empty_memory))"
proof -
  have "Milliseconds (lim_ttl one_slot) = 300000"
    by (simp add: one_slot_def NewLimiter_def Milliseconds_def duration_units go_div_def)
  moreover have "current memory_redis k empty_memory = 0" for k
    by (simp add: current_def memory_redis_def empty_memory_def)
  ultimately show ?thesis
    by (simp add: waitForSlot_def sample_dispatch_def uuid_Nil_def)
      (subst wait_loop.simps, simp add: Acquire_poll uuid_Nil_def sample_poll_def)
qed

subsection \<open>Properties\<close>



text \<open>For a late attempt the doubling overflows: with the default delays and no jitter, the delay of
  attempt 34 is negative, so that the next attempt lies in the past.\<close>

theorem backoff_overflows:
  assumes "dm_RetryBaseMs msg = 2000" "dm_RetryMaxMs msg = 120000" "dm_RetryJitter msg = 0" "dm_Attempt msg = 34"
  shows "retry_delay oob u msg < 0"
  using assms
  by (simp add: retry_delay_def retry_base_def retry_max_def Let_def pow2_int64_def duration_units int64_def)
    (simp add: wrap64_def)

theorem backoff_overflows_witness:
  "retry_delay 0 0 (sample_dispatch\<lparr>dm_Attempt := 34, dm_RetryJitter := 0\<rparr>) < 0"
  by (rule backoff_overflows) (simp_all add: sample_dispatch_def)

text \<open>C22: A worker that polls for a slot gets one as soon as a poll finds the counter below the limit,
  whatever other workers do between the polls, when no poll fails and the context is not done
  before.\<close>

theorem wait_for_slot_ends:
  assumes "i \<noteq> uuid_Nil" "0 < limit" "current R (limiter_key us i) (poll_state p n s) < limit"
    and "\<forall>k \<le> n. p_out p k = IoOk" "\<forall>k < n. p_ctx_done p k = None"
  shows "\<exists>s'. wait_loop R us l p i limit 0 s = Some (Inr Slot, s')"
  using assms by (rule wait_loop_slot)

theorem wait_for_slot_ends_witness:
  "\<exists>s'. wait_loop memory_redis sample_text one_slot sample_poll 1 2 0 empty_memory = Some (Inr Slot, s')"
  by (rule wait_for_slot_ends [where n = 0])
    (simp_all add: uuid_Nil_def sample_poll_def current_def memory_redis_def empty_memory_def)

text \<open>C14: A worker that got its slot and returns has published at most one status message for the
  dispatch, and that message answers it: same call, campaign, phone, attempt and policy, retryable
  only below the maximal attempts, with a next attempt exactly when retryable. It has changed
  nothing else but to commit the dispatch, which it has done when it returns without error. Without
  faults the status is published.\<close>

theorem process_answers_dispatch:
  assumes p: "processMessage e c m (w, s) = Some (r, w', s')"
    and d: "Unmarshal dec_dispatch (k_value m) = Inr d"
    and q: "waitForSlot (cw_redis c) (cw_text c) (cw_limiter c) (cw_defaultPerCampaign c) (cw_poll c) d s = Some (Inr q, s1)"
  shows "(w_kafka w' = w_kafka w \<and> \<not> no_faults e \<or>
      (\<exists>sm t. answers c d sm \<and> (sm_Retryable sm \<longrightarrow> dm_Attempt d < dm_MaxAttempts d)
         \<and> w_kafka w' = w_kafka w @ [\<lparr>k_topic = cw_statusTopic c, k_key = dm_CallID d, k_value = enc_status sm, k_time = t\<rparr>]))
    \<and> (w_commits w' = w_commits w \<and> r \<noteq> None \<or> w_commits w' = w_commits w @ [(cw_group c, m)])
    \<and> w_campaigns w' = w_campaigns w \<and> w_targets w' = w_targets w \<and> w_stats w' = w_stats w
    \<and> w_calls w' = w_calls w"
proof -
  obtain sm w2 w3 pubErr commitErr where st: "answers c d sm" "same_store w w2"
    "PublishStatus e (cw_statusTopic c) sm w2 = (pubErr, w3)"
    "CommitMessages e (cw_group c) m w3 = (commitErr, w')" "r = None \<longleftrightarrow> commitErr = None"
    using processMessage_done [OF assms] by metis
  have sm: "sm_CallID sm = dm_CallID d" "sm_Retryable sm \<longrightarrow> dm_Attempt d < dm_MaxAttempts d"
    using answers_fields [OF st(1)] by auto
  have ok: "no_faults e \<Longrightarrow> pubErr = None"
    using status_publisher.publish_ok [of e "cw_statusTopic c" sm w2] st(3) by simp
  note tables = status_publisher.publish_tables [OF st(3)] same_store_fields [OF st(2)]
  note kafka = status_publisher.publish_kafka [OF st(3)]
  from st(4) show ?thesis
  proof (cases rule: CommitMessages_cases)
    case same
    then show ?thesis
      using kafka tables sm st(1,5) ok by (auto simp: same_store_fields [OF same(1)])
  next
    case committed
    then show ?thesis
      using kafka tables sm st(1,5) ok by (auto simp: same_store_fields [OF committed])
  qed
qed

theorem process_answers_dispatch_witness:
  "\<exists>w' s' sm t. processMessage sample_env sample_worker sample_record (empty_world, empty_memory) = Some (None, w', s')
     \<and> answers sample_worker sample_dispatch sm
     \<and> w_kafka w' = [\<lparr>k_topic = ''status'', k_key = 11, k_value = enc_status sm, k_time = t\<rparr>]
     \<and> w_commits w' = [(''callworker'', sample_record)]"
proof -
  have wt: "waitForSlot (cw_redis sample_worker) (cw_text sample_worker) (cw_limiter sample_worker)
      (cw_defaultPerCampaign sample_worker) (cw_poll sample_worker) sample_dispatch empty_memory =
      Some (Inr Slot, snd (acquire_script memory_redis (limiter_key sample_text 1) 2 300000 empty_memory))"
    using sample_wait by (simp add: sample_worker_def)
  obtain w' s' where p: "processMessage sample_env sample_worker sample_record (empty_world, empty_memory) = Some (None, w', s')"
    using processMessage_ok [OF sample_no_faults sample_record_dispatch wt] by blast
  have "dm_CallID sample_dispatch = 11" "cw_statusTopic sample_worker = ''status''"
    "cw_group sample_worker = ''callworker''" "w_kafka empty_world = []" "w_commits empty_world = []"
    by (simp_all add: sample_dispatch_def sample_worker_def empty_world_def)
  then show ?thesis
    using process_answers_dispatch [OF p sample_record_dispatch wt] p by auto
qed

text \<open>When the status cannot be published, the worker still commits the dispatch: the call was
  placed, no status message exists for it, and the dispatch is not delivered again.\<close>

theorem unpublished_status_is_lost:
  assumes "processMessage e c m (w, s) = Some (r, w', s')"
    and "Unmarshal dec_dispatch (k_value m) = Inr d"
    and "waitForSlot (cw_redis c) (cw_text c) (cw_limiter c) (cw_defaultPerCampaign c) (cw_poll c) d s = Some (Inr q, s1)"
    and "io_at e (io_n w) = IoErr msg" "io_at e (Suc (io_n w)) = IoOk"
  shows "r = None \<and> w_kafka w' = w_kafka w \<and> w_commits w' = w_commits w @ [(cw_group c, m)]"
proof -
  obtain sm w2 w3 pubErr commitErr where st: "same_store w w2" "io_n w2 = io_n w"
    "PublishStatus e (cw_statusTopic c) sm w2 = (pubErr, w3)"
    "CommitMessages e (cw_group c) m w3 = (commitErr, w')" "r = None \<longleftrightarrow> commitErr = None"
    using processMessage_done [OF assms(1-3)] by metis
  have "w3 = (tick_io w2)\<lparr>now_n := Suc (now_n w2)\<rparr>"
    using st(2,3) assms(4) by (auto simp: PublishStatus_def Now_def run_stmt_def exec_def tick_io_def Let_def)
  moreover from this have "w' = (tick_io w3)\<lparr>w_commits := w_commits w3 @ [(cw_group c, m)]\<rparr> \<and> commitErr = None"
    using st(2,4) assms(5) by (auto simp: CommitMessages_def exec_def Let_def)
  ultimately show ?thesis
    using st(1,5) by (auto simp: same_store_fields)
qed

theorem unpublished_status_is_lost_witness:
  "\<exists>w' s'. processMessage (sample_env\<lparr>io_at := (\<lambda>n. if n = 0 then IoErr ''broker down'' else IoOk)\<rparr>)
       sample_worker sample_record (empty_world, empty_memory) = Some (None, w', s')
     \<and> w_kafka w' = [] \<and> w_commits w' = [(''callworker'', sample_record)]"
proof -
  let ?e = "sample_env\<lparr>io_at := (\<lambda>n. if n = 0 then IoErr ''broker down'' else IoOk)\<rparr>"
  have wt: "waitForSlot (cw_redis sample_worker) (cw_text sample_worker) (cw_limiter sample_worker)
      (cw_defaultPerCampaign sample_worker) (cw_poll sample_worker) sample_dispatch empty_memory =
      Some (Inr Slot, snd (acquire_script memory_redis (limiter_key sample_text 1) 2 300000 empty_memory))"
    using sample_wait by (simp add: sample_worker_def)
  obtain r w' s' where p: "processMessage ?e sample_worker sample_record (empty_world, empty_memory) = Some (r, w', s')"
    using processMessage_total [OF sample_record_dispatch wt] by blast
  have "io_n empty_world = 0" "w_kafka empty_world = []" "w_commits empty_world = []"
    "cw_group sample_worker = ''callworker''"
    by (simp_all add: empty_world_def sample_worker_def)
  then show ?thesis
    using unpublished_status_is_lost [OF p sample_record_dispatch wt] p by auto
qed



end
