(* ===== verification/Configuration.thy ===== *)
theory Configuration
  imports Domain Errors
begin

text \<open>
  The configuration (\<open>internal/config/config.go\<close>): the settings of every part, loading them with the
  errors of reading and decoding the file, and the replacer that names environment variables. The
  viper library is a parameter.
\<close>

subsection \<open>Configuration\<close>

record AppConfig =
  app_Name :: string
  app_Env :: string
  app_Version :: string

record HTTPConfig =
  http_Port :: int
  http_ReadTimeout :: duration
  http_WriteTimeout :: duration
  http_IdleTimeout :: duration

record PostgresConfig =
  pgc_Host :: string
  pgc_Port :: int
  pgc_User :: string
  pgc_Password :: string
  pgc_Database :: string
  pgc_SSLMode :: string
  pgc_MaxConns :: int
  pgc_MinConns :: int
  pgc_MaxConnLifetime :: duration
  pgc_MaxConnIdleTime :: duration
  pgc_HealthQuery :: string

record ScyllaConfig =
  scc_Hosts :: "string list"
  scc_Port :: int
  scc_Keyspace :: string
  scc_Consistency :: string
  scc_Timeout :: duration
  scc_DisableInitSchema :: bool

record KafkaConfig =
  kc_Brokers :: "string list"
  kc_ClientID :: string
  kc_CallTopic :: string
  kc_StatusTopic :: string
  kc_RetryTopics :: "string list"
  kc_DeadLetterTopic :: string
  kc_ConsumerGroupID :: string
  kc_RetryConsumerGroupID :: string
  kc_CommitInterval :: duration

record RedisConfig =
  rdc_Address :: string
  rdc_Password :: string
  rdc_DB :: int
  rdc_DialTimeout :: duration
  rdc_ReadTimeout :: duration
  rdc_WriteTimeout :: duration
  rdc_PoolSize :: int
  rdc_MinIdleConns :: int
  rdc_MaxRetries :: int

record TelemetryConfig =
  tlc_Endpoint :: string
  tlc_ServiceName :: string
  tlc_SampleRatio :: float64
  tlc_MetricsInterval :: duration
  tlc_MetricsEnabled :: bool
  tlc_TracingEnabled :: bool
  tlc_Propagators :: "string list"
  tlc_ShutdownTimeout :: duration
  tlc_CollectorProtocol :: string

record SchedulerConfig =
  sdc_TickInterval :: duration
  sdc_LookAhead :: duration
  sdc_MaxBatchSize :: int
  sdc_WorkerCount :: int
  sdc_LockTTL :: duration
  sdc_LockKeyPrefix :: string

record RetryConfig =
  rtc_MaxAttempts :: int
  rtc_BaseDelay :: duration
  rtc_MaxDelay :: duration
  rtc_Jitter :: float64

record ThrottleConfig =
  thc_GlobalConcurrency :: int
  thc_DefaultPerCampaign :: int

record CallBridgeConfig =
  cbc_ProviderName :: string
  cbc_RequestTimeout :: duration

record Config =
  cfg_App :: AppConfig
  cfg_HTTP :: HTTPConfig
  cfg_Postgres :: PostgresConfig
  cfg_Scylla :: ScyllaConfig
  cfg_Kafka :: KafkaConfig
  cfg_Redis :: RedisConfig
  cfg_Telemetry :: TelemetryConfig
  cfg_Scheduler :: SchedulerConfig
  cfg_Retry :: RetryConfig
  cfg_Throttle :: ThrottleConfig
  cfg_CallBridge :: CallBridgeConfig

text \<open>\<open>Load\<close>: reading the file and decoding it may fail. The replacer maps a configuration key to
  the name of its environment variable.\<close>

definition Load :: "(string \<Rightarrow> go_error + 'f) \<Rightarrow> ('f \<Rightarrow> go_error + Config) \<Rightarrow> string \<Rightarrow> go_error + Config" where
  "Load readInConfig unmarshal path =
     (case readInConfig path of
        Inl err \<Rightarrow> Inl (Errorf ''config: failed to read config file: '' err [])
      | Inr f \<Rightarrow>
          (case unmarshal f of
             Inl err \<Rightarrow> Inl (Errorf ''config: failed to unmarshal config: '' err [])
           | Inr cfg \<Rightarrow> Inr cfg))"

definition NewEnvReplacer :: "string \<Rightarrow> string" where
  "NewEnvReplacer s = map (\<lambda>c. if c = CHR ''.'' then CHR ''_'' else if c = CHR ''-'' then CHR ''_'' else c) s"

end
