(* ===== verification/Clients.thy ===== *)
theory Clients
  imports Configuration Queue
begin

text \<open>
  The clients of the servers: the logger (\<open>pkg/logger\<close>), the pool of PostgreSQL, the session of
  ScyllaDB and the client of Redis (\<open>internal/infra\<close>), the Kafka helper with its readers and writers
  (\<open>internal/queue/kafka.go\<close>), the publishers over it and the mock of the telephony bridge. A client is
  the settings it was opened with; what the libraries reply is a parameter.
\<close>

subsection \<open>The logger\<close>

record encoder_config =
  ec_TimeKey :: string
  ec_EncodeTime :: string

record zap_config =
  zc_EncoderConfig :: encoder_config
  zc_DisableStacktrace :: bool
  zc_Development :: bool

text \<open>The configurations of the zap library and its answer to \<open>Build\<close>.\<close>

record zap =
  zap_NewProductionConfig :: zap_config
  zap_NewProductionEncoderConfig :: encoder_config
  zap_NewDevelopmentConfig :: zap_config
  zap_Build :: "zap_config \<Rightarrow> go_error option"

record Logger =
  lg_config :: zap_config
  lg_fields :: "(string \<times> string) list"

definition logger_config :: "zap \<Rightarrow> string \<Rightarrow> zap_config" where
  "logger_config z env =
     (let cfg = zap_NewProductionConfig z;
          cfg = cfg\<lparr>zc_EncoderConfig := (zap_NewProductionEncoderConfig z)\<lparr>ec_TimeKey := ''ts'', ec_EncodeTime := ''ISO8601''\<rparr>,
            zc_DisableStacktrace := (env = ''production'')\<rparr>
      in if env \<noteq> ''production''
         then (let dev = zap_NewDevelopmentConfig z
               in dev\<lparr>zc_EncoderConfig := (zc_EncoderConfig dev)\<lparr>ec_EncodeTime := ''ISO8601''\<rparr>\<rparr>)
         else cfg)"

definition logger_New :: "zap \<Rightarrow> string \<Rightarrow> go_error + Logger" where
  "logger_New z env =
     (case zap_Build z (logger_config z env) of
        Some err \<Rightarrow> Inl (Errorf ''logger: build failed: '' err [])
      | None \<Rightarrow> Inr \<lparr>lg_config = logger_config z env, lg_fields = []\<rparr>)"

text \<open>A context is known by its address, \<open>None\<close> for nil.\<close>

definition WithContext :: "Logger \<Rightarrow> string option \<Rightarrow> Logger" where
  "WithContext l ctx =
     (case ctx of None \<Rightarrow> l | Some address \<Rightarrow> l\<lparr>lg_fields := lg_fields l @ [(''context'', address)]\<rparr>)"

subsection \<open>Connections\<close>

record pool_settings =
  ps_dsn :: string
  ps_MaxConns :: int
  ps_MinConns :: int
  ps_MaxConnLifetime :: duration
  ps_MaxConnIdleTime :: duration

definition dsn :: "PostgresConfig \<Rightarrow> string" where
  "dsn cfg = ''postgres://'' @ pgc_User cfg @ '':'' @ pgc_Password cfg @ ''@'' @ pgc_Host cfg @ '':'' @ show_int (pgc_Port cfg)
     @ ''/'' @ pgc_Database cfg @ ''?sslmode='' @ pgc_SSLMode cfg"

definition pool_of :: "PostgresConfig \<Rightarrow> pool_settings" where
  "pool_of cfg = \<lparr>ps_dsn = dsn cfg, ps_MaxConns = pgc_MaxConns cfg, ps_MinConns = pgc_MinConns cfg,
     ps_MaxConnLifetime = pgc_MaxConnLifetime cfg, ps_MaxConnIdleTime = pgc_MaxConnIdleTime cfg\<rparr>"

text \<open>The second component: whether a pool is left open.\<close>

definition NewPostgres ::
    "(string \<Rightarrow> go_error option) \<Rightarrow> (pool_settings \<Rightarrow> go_error option) \<Rightarrow> (pool_settings \<Rightarrow> go_error option) \<Rightarrow> PostgresConfig
      \<Rightarrow> (go_error + pool_settings) \<times> bool" where
  "NewPostgres parseConfig newPool ping cfg =
     (case parseConfig (dsn cfg) of
        Some err \<Rightarrow> (Inl (Errorf ''postgres: parse config: '' err []), False)
      | None \<Rightarrow>
          (case newPool (pool_of cfg) of
             Some err \<Rightarrow> (Inl (Errorf ''postgres: new pool: '' err []), False)
           | None \<Rightarrow>
               (case ping (pool_of cfg) of
                  Some err \<Rightarrow> (Inl (Errorf ''postgres: ping: '' err []), False)
                | None \<Rightarrow> (Inr (pool_of cfg), True))))"

datatype consistency = One | LocalQuorum | LocalOne | EachQuorum | Quorum

definition parseConsistency :: "string \<Rightarrow> consistency" where
  "parseConsistency level =
     (if level = ''one'' then One
      else if level = ''local_quorum'' then LocalQuorum
      else if level = ''local_one'' then LocalOne
      else if level = ''each_quorum'' then EachQuorum
      else Quorum)"

record cluster_settings =
  cs_Hosts :: "string list"
  cs_Port :: int
  cs_Keyspace :: string
  cs_Consistency :: consistency
  cs_Timeout :: duration
  cs_NumRetries :: int

definition cluster_of :: "ScyllaConfig \<Rightarrow> cluster_settings" where
  "cluster_of cfg = \<lparr>cs_Hosts = scc_Hosts cfg, cs_Port = scc_Port cfg, cs_Keyspace = scc_Keyspace cfg,
     cs_Consistency = parseConsistency (scc_Consistency cfg), cs_Timeout = scc_Timeout cfg, cs_NumRetries = 3\<rparr>"

definition NewScylla :: "(cluster_settings \<Rightarrow> go_error option) \<Rightarrow> ScyllaConfig \<Rightarrow> go_error + cluster_settings" where
  "NewScylla createSession cfg =
     (case createSession (cluster_of cfg) of
        Some err \<Rightarrow> Inl (Errorf ''scylla: create session: '' err [])
      | None \<Rightarrow> Inr (cluster_of cfg))"

definition NewClient :: "(RedisConfig \<Rightarrow> go_error option) \<Rightarrow> RedisConfig \<Rightarrow> go_error + RedisConfig" where
  "NewClient ping cfg =
     (case ping cfg of Some err \<Rightarrow> Inl (Errorf ''redis: ping: '' err []) | None \<Rightarrow> Inr cfg)"

subsection \<open>The Kafka helper\<close>

record Kafka =
  kf_cfg :: KafkaConfig

definition NewKafka :: "KafkaConfig \<Rightarrow> go_error + Kafka" where
  "NewKafka cfg = (if kc_Brokers cfg = [] then Inl (New ''kafka: no brokers configured'') else Inr \<lparr>kf_cfg = cfg\<rparr>)"

datatype acks = RequireNone | RequireOne | RequireAll

record Writer =
  wr_Addr :: "string list"
  wr_Topic :: string
  wr_RequiredAcks :: acks
  wr_Async :: bool

definition NewWriter :: "Kafka \<Rightarrow> string \<Rightarrow> Writer" where
  "NewWriter k topic = \<lparr>wr_Addr = kc_Brokers (kf_cfg k), wr_Topic = topic, wr_RequiredAcks = RequireAll, wr_Async = False\<rparr>"

datatype start_offset = FirstOffset | LastOffset

record ReaderConfig =
  rc_Brokers :: "string list"
  rc_Topic :: string
  rc_GroupID :: string
  rc_StartOffset :: start_offset
  rc_CommitInterval :: duration
  rc_MinBytes :: int
  rc_MaxBytes :: int

definition NewReader :: "Kafka \<Rightarrow> string \<Rightarrow> string \<Rightarrow> ReaderConfig" where
  "NewReader k topic groupID =
     \<lparr>rc_Brokers = kc_Brokers (kf_cfg k), rc_Topic = topic, rc_GroupID = groupID, rc_StartOffset = FirstOffset,
      rc_CommitInterval = kc_CommitInterval (kf_cfg k), rc_MinBytes = 1000, rc_MaxBytes = 10000000\<rparr>"

subsection \<open>Publishers\<close>

record CallDispatcher =
  cd_writer :: Writer

definition NewCallDispatcher :: "Kafka \<Rightarrow> string \<Rightarrow> CallDispatcher" where
  "NewCallDispatcher k topic = \<lparr>cd_writer = NewWriter k topic\<rparr>"

record StatusPublisher =
  sp_writer :: Writer

definition NewStatusPublisher :: "Kafka \<Rightarrow> string \<Rightarrow> StatusPublisher" where
  "NewStatusPublisher k topic = \<lparr>sp_writer = NewWriter k topic\<rparr>"

record RetryScheduler =
  rs_writers :: "Writer list"

fun retry_writers :: "Kafka \<Rightarrow> string list \<Rightarrow> Writer list" where
  "retry_writers k [] = []"
| "retry_writers k (topic # topics) = NewWriter k topic # retry_writers k topics"

definition NewRetryScheduler :: "Kafka \<Rightarrow> string list \<Rightarrow> RetryScheduler" where
  "NewRetryScheduler k topics = \<lparr>rs_writers = retry_writers k topics\<rparr>"

lemma retry_writers_topics [simp]: "map wr_Topic (retry_writers k topics) = topics"
  by (induction topics) (simp_all add: NewWriter_def)

text \<open>Closing a writer flushes it and may fail; the second component has the topics of the writers
  that were closed. The retry scheduler closes all its writers and reports the first error.\<close>

definition CallDispatcher_Close :: "(Writer \<Rightarrow> go_error option) \<Rightarrow> CallDispatcher \<Rightarrow> go_error option \<times> string list" where
  "CallDispatcher_Close close d = (close (cd_writer d), [wr_Topic (cd_writer d)])"

definition StatusPublisher_Close :: "(Writer \<Rightarrow> go_error option) \<Rightarrow> StatusPublisher \<Rightarrow> go_error option \<times> string list" where
  "StatusPublisher_Close close p = (close (sp_writer p), [wr_Topic (sp_writer p)])"

fun close_writers ::
    "(Writer \<Rightarrow> go_error option) \<Rightarrow> Writer list \<Rightarrow> go_error option \<Rightarrow> go_error option \<times> string list" where
  "close_writers close [] err = (err, [])"
| "close_writers close (w # ws) err =
     (let cerr = close w;
          err' = (if cerr \<noteq> None \<and> err = None then cerr else err)
      in case close_writers close ws err' of (r, shut) \<Rightarrow> (r, wr_Topic w # shut))"

definition RetryScheduler_Close :: "(Writer \<Rightarrow> go_error option) \<Rightarrow> RetryScheduler \<Rightarrow> go_error option \<times> string list" where
  "RetryScheduler_Close close r = close_writers close (rs_writers r) None"

lemma close_writers_all: "snd (close_writers close ws err) = map wr_Topic ws"
  by (induction ws arbitrary: err) (simp_all add: Let_def case_prod_beta)

lemma close_writers_None: "fst (close_writers close ws err) = None \<longleftrightarrow> err = None \<and> (\<forall>w \<in> set ws. close w = None)"
  by (induction ws arbitrary: err) (auto simp: Let_def case_prod_beta)

subsection \<open>The telephony bridge\<close>

text \<open>The mock with its settings; its draws are arguments of \<open>PlaceCall\<close>. The success rate is 0.8 as a
  \<open>float64\<close>.\<close>

record mock_Provider =
  mp_successRate :: float64
  mp_timeout :: duration

definition mock_NewProvider :: "CallBridgeConfig \<Rightarrow> mock_Provider" where
  "mock_NewProvider cfg = \<lparr>mp_successRate = 3602879701896397 / 4503599627370496, mp_timeout = cbc_RequestTimeout cfg\<rparr>"

end
