(* ===== verification/Container.thy ===== *)
theory Container
  imports Api Scheduler Retry_Worker Call_Worker Clients
begin

text \<open>
  The container that wires the components together (\<open>internal/app/container.go\<close>): the bootstrap
  sequence, the components that are made once on demand, what every service gets of them, the
  creation of the Kafka topics and the shutdown. What the client libraries reply is a parameter.
\<close>

subsection \<open>Components\<close>

text \<open>A repository is the connection it was made with; a service has its repositories, its dispatcher and
  its defaults.\<close>

record repositories =
  rp_Campaign :: pool_settings
  rp_BusinessHours :: pool_settings
  rp_Targets :: pool_settings
  rp_Stats :: pool_settings
  rp_CallStore :: cluster_settings

record campaign_service =
  csv_repo :: pool_settings
  csv_hoursRepo :: pool_settings
  csv_targetRepo :: pool_settings
  csv_statsRepo :: pool_settings
  csv_defaultConcurrency :: int

definition campaign_NewService ::
    "pool_settings \<Rightarrow> pool_settings \<Rightarrow> pool_settings \<Rightarrow> pool_settings \<Rightarrow> int \<Rightarrow> campaign_service" where
  "campaign_NewService repo hours targets stats defaultConcurrency =
     \<lparr>csv_repo = repo, csv_hoursRepo = hours, csv_targetRepo = targets, csv_statsRepo = stats,
      csv_defaultConcurrency = defaultConcurrency\<rparr>"

record call_service =
  lsv_calls :: cluster_settings
  lsv_campaigns :: pool_settings
  lsv_targets :: pool_settings
  lsv_stats :: pool_settings
  lsv_dispatcher :: CallDispatcher
  lsv_defaultRetry :: RetryPolicy
  lsv_defaultConcurrency :: int

definition call_NewService ::
    "cluster_settings \<Rightarrow> pool_settings \<Rightarrow> pool_settings \<Rightarrow> pool_settings \<Rightarrow> CallDispatcher \<Rightarrow> RetryPolicy \<Rightarrow> int \<Rightarrow> call_service" where
  "call_NewService store campaignRepo targetRepo statsRepo dispatcher defaultRetry defaultConcurrency =
     \<lparr>lsv_calls = store, lsv_campaigns = campaignRepo, lsv_targets = targetRepo, lsv_stats = statsRepo,
      lsv_dispatcher = dispatcher, lsv_defaultRetry = defaultRetry, lsv_defaultConcurrency = defaultConcurrency\<rparr>"

record services =
  sv_Campaign :: campaign_service
  sv_Call :: call_service

record dispatchers =
  ds_CallDispatcher :: CallDispatcher
  ds_StatusPublisher :: StatusPublisher
  ds_RetryScheduler :: RetryScheduler

record components =
  cm_repositories :: repositories
  cm_services :: services
  cm_dispatchers :: dispatchers
  cm_telephony :: mock_Provider
  cm_concurrency :: Limiter

text \<open>The components are made once, when one of them is first asked for; \<open>None\<close> before that. \<open>Build\<close> is the
  only place that makes a container, so its clients are never nil.\<close>

record Container =
  ctr_Config :: Config
  ctr_Logger :: Logger
  ctr_Postgres :: pool_settings
  ctr_Scylla :: cluster_settings
  ctr_Redis :: RedisConfig
  ctr_Kafka :: Kafka
  ctr_components :: "components option"

definition new_components :: "Config \<Rightarrow> pool_settings \<Rightarrow> cluster_settings \<Rightarrow> Kafka \<Rightarrow> components" where
  "new_components cfg pg scylla kafka =
     (let repos = \<lparr>rp_Campaign = pg, rp_BusinessHours = pg, rp_Targets = pg, rp_Stats = pg, rp_CallStore = scylla\<rparr>;
          disp = \<lparr>ds_CallDispatcher = NewCallDispatcher kafka (kc_CallTopic (cfg_Kafka cfg)),
            ds_StatusPublisher = NewStatusPublisher kafka (kc_StatusTopic (cfg_Kafka cfg)),
            ds_RetryScheduler = NewRetryScheduler kafka (kc_RetryTopics (cfg_Kafka cfg))\<rparr>;
          campaign = campaign_NewService (rp_Campaign repos) (rp_BusinessHours repos) (rp_Targets repos) (rp_Stats repos)
            (thc_DefaultPerCampaign (cfg_Throttle cfg));
          defaultRetry = \<lparr>MaxAttempts = rtc_MaxAttempts (cfg_Retry cfg), BaseDelay = rtc_BaseDelay (cfg_Retry cfg),
            MaxDelay = rtc_MaxDelay (cfg_Retry cfg), Jitter = rtc_Jitter (cfg_Retry cfg)\<rparr>;
          call = call_NewService (rp_CallStore repos) (rp_Campaign repos) (rp_Targets repos) (rp_Stats repos)
            (ds_CallDispatcher disp) defaultRetry (thc_DefaultPerCampaign (cfg_Throttle cfg))
      in \<lparr>cm_repositories = repos, cm_services = \<lparr>sv_Campaign = campaign, sv_Call = call\<rparr>, cm_dispatchers = disp,
          cm_telephony = mock_NewProvider (cfg_CallBridge cfg),
          cm_concurrency = NewLimiter (thc_DefaultPerCampaign (cfg_Throttle cfg)) (sdc_LockTTL (cfg_Scheduler cfg))\<rparr>)"

definition initComponents :: "Container \<Rightarrow> components \<times> Container" where
  "initComponents c =
     (case ctr_components c of
        Some cm \<Rightarrow> (cm, c)
      | None \<Rightarrow>
          (let cm = new_components (ctr_Config c) (ctr_Postgres c) (ctr_Scylla c) (ctr_Kafka c)
           in (cm, c\<lparr>ctr_components := Some cm\<rparr>)))"

definition Repositories :: "Container \<Rightarrow> repositories \<times> Container" where
  "Repositories c = (case initComponents c of (cm, c') \<Rightarrow> (cm_repositories cm, c'))"

definition Services :: "Container \<Rightarrow> services \<times> Container" where
  "Services c = (case initComponents c of (cm, c') \<Rightarrow> (cm_services cm, c'))"

definition Dispatchers :: "Container \<Rightarrow> dispatchers \<times> Container" where
  "Dispatchers c = (case initComponents c of (cm, c') \<Rightarrow> (cm_dispatchers cm, c'))"

definition Providers :: "Container \<Rightarrow> mock_Provider \<times> Container" where
  "Providers c = (case initComponents c of (cm, c') \<Rightarrow> (cm_telephony cm, c'))"

definition Limiters :: "Container \<Rightarrow> Limiter \<times> Container" where
  "Limiters c = (case initComponents c of (cm, c') \<Rightarrow> (cm_concurrency cm, c'))"

subsection \<open>Bootstrap\<close>

text \<open>The client libraries.\<close>

record drivers =
  dr_load :: "string \<Rightarrow> go_error + Config"
  dr_zap :: zap
  dr_parseConfig :: "string \<Rightarrow> go_error option"
  dr_newPool :: "pool_settings \<Rightarrow> go_error option"
  dr_pgPing :: "pool_settings \<Rightarrow> go_error option"
  dr_createSession :: "cluster_settings \<Rightarrow> go_error option"
  dr_redisPing :: "RedisConfig \<Rightarrow> go_error option"

text \<open>What a process holds until it is closed: a writer of a topic, a connection, the buffer of its
  log.\<close>

datatype resource = TopicWriter string | RedisConn | ScyllaConn | PostgresConn | LogBuffer

text \<open>\<open>Build\<close>, with what it has opened: nothing is closed when a later step fails.\<close>

definition Build :: "drivers \<Rightarrow> string \<Rightarrow> (go_error + Container) \<times> resource list" where
  "Build dr configPath =
     (case dr_load dr configPath of
        Inl err \<Rightarrow> (Inl err, [])
      | Inr cfg \<Rightarrow>
     (case logger_New (dr_zap dr) (app_Env (cfg_App cfg)) of
        Inl err \<Rightarrow> (Inl err, [])
      | Inr lg \<Rightarrow>
     (case NewPostgres (dr_parseConfig dr) (dr_newPool dr) (dr_pgPing dr) (cfg_Postgres cfg) of
        (Inl err, isOpen) \<Rightarrow> (Inl (Errorf ''bootstrap postgres: '' err []), if isOpen then [LogBuffer, PostgresConn] else [LogBuffer])
      | (Inr pg, _) \<Rightarrow>
     (case NewScylla (dr_createSession dr) (cfg_Scylla cfg) of
        Inl err \<Rightarrow> (Inl (Errorf ''bootstrap scylla: '' err []), [LogBuffer, PostgresConn])
      | Inr scylla \<Rightarrow>
     (case NewClient (dr_redisPing dr) (cfg_Redis cfg) of
        Inl err \<Rightarrow> (Inl (Errorf ''bootstrap redis: '' err []), [LogBuffer, PostgresConn, ScyllaConn])
      | Inr redisClient \<Rightarrow>
     (case NewKafka (cfg_Kafka cfg) of
        Inl err \<Rightarrow> (Inl (Errorf ''bootstrap kafka: '' err []), [LogBuffer, PostgresConn, ScyllaConn, RedisConn])
      | Inr kafka \<Rightarrow> (Inr \<lparr>ctr_Config = cfg, ctr_Logger = lg, ctr_Postgres = pg, ctr_Scylla = scylla, ctr_Redis = redisClient,
          ctr_Kafka = kafka, ctr_components = None\<rparr>, [LogBuffer, PostgresConn, ScyllaConn, RedisConn])))))))"

subsection \<open>What the services get\<close>

text \<open>The components of a container that was built from a configuration: their settings do not depend
  on the state of the connections.\<close>

definition components_of :: "Config \<Rightarrow> components" where
  "components_of cfg = new_components cfg (pool_of (cfg_Postgres cfg)) (cluster_of (cfg_Scylla cfg)) \<lparr>kf_cfg = cfg_Kafka cfg\<rparr>"

lemma initComponents_built:
  assumes "Build dr path = (Inr c, opened)"
  shows "fst (initComponents c) = components_of (ctr_Config c)"
  using assms
  by (auto simp: Build_def NewPostgres_def NewScylla_def NewClient_def NewKafka_def initComponents_def components_of_def Let_def
      split: sum.splits option.splits prod.splits if_splits)

text \<open>The workers and the API as they are built from the container.\<close>

definition api_of :: "(string \<Rightarrow> go_error + location) \<Rightarrow> (string \<Rightarrow> go_error + uuid) \<Rightarrow> Config \<Rightarrow> api" where
  "api_of loc parse cfg =
     (let services = cm_services (components_of cfg)
      in \<lparr>ap_loc = loc, ap_parse_uuid = parse, ap_defaultConcurrency = csv_defaultConcurrency (sv_Campaign services),
          ap_callTopic = wr_Topic (cd_writer (lsv_dispatcher (sv_Call services)))\<rparr>)"

definition scheduler_of :: "Config \<Rightarrow> scheduler" where
  "scheduler_of cfg =
     (let call = sv_Call (cm_services (components_of cfg))
      in \<lparr>sc_retryTopics = kc_RetryTopics (cfg_Kafka cfg), sc_workerCount = sdc_WorkerCount (cfg_Scheduler cfg),
          sc_maxBatchSize = sdc_MaxBatchSize (cfg_Scheduler cfg), sc_callTopic = wr_Topic (cd_writer (lsv_dispatcher call)),
          sc_defaultConcurrency = lsv_defaultConcurrency call\<rparr>)"

text \<open>A worker commits with the group of its reader.\<close>

definition status_worker_of :: "Config \<Rightarrow> status_worker" where
  "status_worker_of cfg =
     (let reader = NewReader \<lparr>kf_cfg = cfg_Kafka cfg\<rparr> (kc_StatusTopic (cfg_Kafka cfg)) (status_group (kc_ConsumerGroupID (cfg_Kafka cfg)))
      in \<lparr>sw_group = rc_GroupID reader, sw_retryTopics = map wr_Topic (rs_writers (ds_RetryScheduler (cm_dispatchers (components_of cfg))))\<rparr>)"

definition retry_worker_of :: "Config \<Rightarrow> nat \<Rightarrow> retry_worker" where
  "retry_worker_of cfg idx =
     (let groupID = retry_group (kc_ConsumerGroupID (cfg_Kafka cfg)) (kc_RetryConsumerGroupID (cfg_Kafka cfg)) (int idx + 1);
          reader = NewReader \<lparr>kf_cfg = cfg_Kafka cfg\<rparr> (kc_RetryTopics (cfg_Kafka cfg) ! idx) groupID
      in \<lparr>rw_group = rc_GroupID reader, rw_callTopic = wr_Topic (cd_writer (ds_CallDispatcher (cm_dispatchers (components_of cfg))))\<rparr>)"

text \<open>What a call worker meets while it handles one message.\<close>

record 's call_outcome =
  oc_poll :: "'s poll"
  oc_release :: io_outcome
  oc_provider :: provider
  oc_oob :: int
  oc_rand :: float64

definition call_worker_of :: "'s redis \<Rightarrow> (uuid \<Rightarrow> string) \<Rightarrow> Config \<Rightarrow> 's call_outcome \<Rightarrow> 's call_worker" where
  "call_worker_of R us cfg oc =
     (let reader = NewReader \<lparr>kf_cfg = cfg_Kafka cfg\<rparr> (kc_CallTopic (cfg_Kafka cfg)) (kc_ConsumerGroupID (cfg_Kafka cfg))
      in \<lparr>cw_redis = R, cw_text = us, cw_limiter = Some (cm_concurrency (components_of cfg)),
          cw_defaultPerCampaign = thc_DefaultPerCampaign (cfg_Throttle cfg), cw_poll = oc_poll oc,
          cw_release = oc_release oc, cw_provider = oc_provider oc, cw_timeout = cbc_RequestTimeout (cfg_CallBridge cfg),
          cw_oob = oc_oob oc, cw_rand = oc_rand oc,
          cw_statusTopic = wr_Topic (sp_writer (ds_StatusPublisher (cm_dispatchers (components_of cfg)))),
          cw_group = rc_GroupID reader\<rparr>)"

lemmas wiring_defs = components_of_def new_components_def campaign_NewService_def call_NewService_def NewCallDispatcher_def
  NewStatusPublisher_def NewRetryScheduler_def NewWriter_def NewReader_def Let_def

lemma component_topics [simp]:
  "wr_Topic (cd_writer (lsv_dispatcher (sv_Call (cm_services (components_of cfg))))) = kc_CallTopic (cfg_Kafka cfg)"
  "wr_Topic (cd_writer (ds_CallDispatcher (cm_dispatchers (components_of cfg)))) = kc_CallTopic (cfg_Kafka cfg)"
  "wr_Topic (sp_writer (ds_StatusPublisher (cm_dispatchers (components_of cfg)))) = kc_StatusTopic (cfg_Kafka cfg)"
  "map wr_Topic (rs_writers (ds_RetryScheduler (cm_dispatchers (components_of cfg)))) = kc_RetryTopics (cfg_Kafka cfg)"
  by (simp_all add: wiring_defs)

lemma component_concurrency [simp]:
  "csv_defaultConcurrency (sv_Campaign (cm_services (components_of cfg))) = thc_DefaultPerCampaign (cfg_Throttle cfg)"
  "lsv_defaultConcurrency (sv_Call (cm_services (components_of cfg))) = thc_DefaultPerCampaign (cfg_Throttle cfg)"
  by (simp_all add: wiring_defs)

lemma worker_topics [simp]:
  "sc_callTopic (scheduler_of cfg) = kc_CallTopic (cfg_Kafka cfg)"
  "ap_callTopic (api_of loc parse cfg) = kc_CallTopic (cfg_Kafka cfg)"
  "cw_statusTopic (call_worker_of R us cfg oc) = kc_StatusTopic (cfg_Kafka cfg)"
  "sw_retryTopics (status_worker_of cfg) = kc_RetryTopics (cfg_Kafka cfg)"
  "rw_callTopic (retry_worker_of cfg idx) = kc_CallTopic (cfg_Kafka cfg)"
  by (simp_all add: scheduler_of_def api_of_def call_worker_of_def status_worker_of_def retry_worker_of_def Let_def)

lemma worker_concurrency [simp]:
  "sc_defaultConcurrency (scheduler_of cfg) = thc_DefaultPerCampaign (cfg_Throttle cfg)"
  "ap_defaultConcurrency (api_of loc parse cfg) = thc_DefaultPerCampaign (cfg_Throttle cfg)" "ap_loc (api_of loc parse cfg) = loc"
  by (simp_all add: scheduler_of_def api_of_def Let_def)

subsection \<open>Topics and shutdown\<close>

text \<open>\<open>EnsureTopics\<close> of the container: the broker is asked once per group of topics; \<open>broker\<close>
  has its replies to each of the (at most three) connections.\<close>

record broker =
  bk_dial :: "go_error option"
  bk_partitions :: "go_error + string list"
  bk_create :: "string \<Rightarrow> go_error option"

definition ensure_on :: "broker \<Rightarrow> string list \<Rightarrow> go_error option \<times> string list" where
  "ensure_on b topics = EnsureTopics (bk_dial b) (bk_partitions b) (bk_create b) topics"

definition container_EnsureTopics :: "broker \<Rightarrow> broker \<Rightarrow> broker \<Rightarrow> KafkaConfig \<Rightarrow> go_error option \<times> string list" where
  "container_EnsureTopics b1 b2 b3 k =
     (case ensure_on b1 [kc_CallTopic k, kc_StatusTopic k] of
        (Some err, ts1) \<Rightarrow> (Some err, ts1)
      | (None, ts1) \<Rightarrow>
     (case (if kc_RetryTopics k \<noteq> [] then ensure_on b2 (kc_RetryTopics k) else (None, [])) of
        (Some err, ts2) \<Rightarrow> (Some err, ts1 @ ts2)
      | (None, ts2) \<Rightarrow>
     (case (if kc_DeadLetterTopic k \<noteq> [] then ensure_on b3 [kc_DeadLetterTopic k] else (None, [])) of
        (r, ts3) \<Rightarrow> (r, ts1 @ ts2 @ ts3))))"

text \<open>\<open>Close\<close>: every part is closed, whatever error the others report; the dispatchers only when the
  components were made. \<open>closers\<close> has the errors of the libraries. The helper of Kafka and the session
  of ScyllaDB report none, and that of the log is dropped.\<close>

record closers =
  cl_writer :: "Writer \<Rightarrow> go_error option"
  cl_redis :: "go_error option"
  cl_postgres :: "go_error option"

definition wrapped :: "string \<Rightarrow> go_error option \<Rightarrow> go_error list" where
  "wrapped msg err = (case err of None \<Rightarrow> [] | Some x \<Rightarrow> [Errorf msg x []])"

definition close_dispatchers :: "closers \<Rightarrow> dispatchers \<Rightarrow> go_error list \<times> resource list" where
  "close_dispatchers cl d =
     (case CallDispatcher_Close (cl_writer cl) (ds_CallDispatcher d) of (err1, ts1) \<Rightarrow>
     (case StatusPublisher_Close (cl_writer cl) (ds_StatusPublisher d) of (err2, ts2) \<Rightarrow>
     (case RetryScheduler_Close (cl_writer cl) (ds_RetryScheduler d) of (err3, ts3) \<Rightarrow>
        (wrapped ''dispatcher close: '' err1 @ wrapped ''status publisher close: '' err2 @ wrapped ''retry scheduler close: '' err3,
         map TopicWriter (ts1 @ ts2 @ ts3)))))"

fun join_errors :: "go_error list \<Rightarrow> string" where
  "join_errors [] = []"
| "join_errors [err] = Error err"
| "join_errors (err # errs) = Error err @ '' '' @ join_errors errs"

definition Close :: "closers \<Rightarrow> Container \<Rightarrow> go_error option \<times> resource list" where
  "Close cl c =
     (case (case ctr_components c of None \<Rightarrow> ([], []) | Some cm \<Rightarrow> close_dispatchers cl (cm_dispatchers cm)) of (errs1, shut) \<Rightarrow>
        (let errs = errs1 @ wrapped ''redis close: '' (cl_redis cl) @ wrapped ''postgres close: '' (cl_postgres cl)
         in (if errs \<noteq> [] then Some (New (''close errors: ['' @ join_errors errs @ '']'')) else None,
             shut @ [RedisConn, ScyllaConn, PostgresConn, LogBuffer])))"

subsection \<open>Which topics exist after the start\<close>

definition topic_known :: "broker set \<Rightarrow> string list \<Rightarrow> string \<Rightarrow> bool" where
  "topic_known bs created t \<longleftrightarrow> t \<in> set created \<or> (\<exists>b \<in> bs. \<exists>existing. bk_partitions b = Inr existing \<and> t \<in> set existing)"

lemma ensure_on_known:
  assumes "ensure_on b topics = (None, ts)" "b \<in> bs" "set ts \<subseteq> set created" "t \<in> set topics"
  shows "topic_known bs created t"
proof -
  obtain existing where "bk_partitions b = Inr existing" "ts = filter (\<lambda>t. t \<notin> set existing) topics"
    using assms(1) unfolding ensure_on_def EnsureTopics_def
    by (auto split: option.splits sum.splits dest: create_topics_complete)
  then show ?thesis
    using assms(2-4) by (cases "t \<in> set existing") (auto simp: topic_known_def)
qed


definition sample_config :: Config where
  "sample_config = \<lparr>cfg_App = \<lparr>app_Name = ''outbound-call-campaign'', app_Env = ''development'', app_Version = ''0.1.0''\<rparr>,
     cfg_HTTP = \<lparr>http_Port = 8081, http_ReadTimeout = 30 * Second, http_WriteTimeout = 30 * Second, http_IdleTimeout = 120 * Second\<rparr>,
     cfg_Postgres = \<lparr>pgc_Host = ''localhost'', pgc_Port = 5432, pgc_User = ''campaign'', pgc_Password = ''campaign'',
       pgc_Database = ''campaign'', pgc_SSLMode = ''disable'', pgc_MaxConns = 2, pgc_MinConns = 1,
       pgc_MaxConnLifetime = 30 * Minute_d, pgc_MaxConnIdleTime = 10 * Minute_d, pgc_HealthQuery = ''SELECT 1''\<rparr>,
     cfg_Scylla = \<lparr>scc_Hosts = [''127.0.0.1''], scc_Port = 9042, scc_Keyspace = ''campaign'', scc_Consistency = ''quorum'',
       scc_Timeout = 5 * Second, scc_DisableInitSchema = False\<rparr>,
     cfg_Kafka = \<lparr>kc_Brokers = [''localhost:9092''], kc_ClientID = ''outbound-call-service'', kc_CallTopic = ''dispatch'',
       kc_StatusTopic = ''status'', kc_RetryTopics = [''retry.1'', ''retry.2''], kc_DeadLetterTopic = ''deadletter'',
       kc_ConsumerGroupID = ''consumer'', kc_RetryConsumerGroupID = ''retry'', kc_CommitInterval = Second\<rparr>,
     cfg_Redis = \<lparr>rdc_Address = ''localhost:6379'', rdc_Password = [], rdc_DB = 0, rdc_DialTimeout = 2 * Second,
       rdc_ReadTimeout = Second, rdc_WriteTimeout = Second, rdc_PoolSize = 64, rdc_MinIdleConns = 16, rdc_MaxRetries = 3\<rparr>,
     cfg_Telemetry = \<lparr>tlc_Endpoint = ''localhost:4318'', tlc_ServiceName = ''outbound-call-service'', tlc_SampleRatio = 1 / 8,
       tlc_MetricsInterval = 15 * Second, tlc_MetricsEnabled = True, tlc_TracingEnabled = True, tlc_Propagators = [],
       tlc_ShutdownTimeout = 10 * Second, tlc_CollectorProtocol = ''http''\<rparr>,
     cfg_Scheduler = \<lparr>sdc_TickInterval = 3 * Second, sdc_LookAhead = 5 * Minute_d, sdc_MaxBatchSize = 50, sdc_WorkerCount = 4,
       sdc_LockTTL = Minute_d, sdc_LockKeyPrefix = ''scheduler''\<rparr>,
     cfg_Retry = \<lparr>rtc_MaxAttempts = 5, rtc_BaseDelay = 2 * Second, rtc_MaxDelay = 2 * Minute_d, rtc_Jitter = 1 / 4\<rparr>,
     cfg_Throttle = \<lparr>thc_GlobalConcurrency = 100, thc_DefaultPerCampaign = 10\<rparr>,
     cfg_CallBridge = \<lparr>cbc_ProviderName = ''mock'', cbc_RequestTimeout = 15 * Second\<rparr>\<rparr>"


subsection \<open>Life of a container\<close>

text \<open>The ways to ask a container for its components.\<close>

datatype accessor = AskRepositories | AskServices | AskDispatchers | AskProviders | AskLimiters

fun access :: "accessor \<Rightarrow> Container \<Rightarrow> Container" where
  "access AskRepositories c = snd (Repositories c)"
| "access AskServices c = snd (Services c)"
| "access AskDispatchers c = snd (Dispatchers c)"
| "access AskProviders c = snd (Providers c)"
| "access AskLimiters c = snd (Limiters c)"

lemmas accessor_defs = Repositories_def Services_def Dispatchers_def Providers_def Limiters_def

lemma access_init: "access a c = snd (initComponents c)"
  by (cases a) (simp_all add: accessor_defs case_prod_beta)

lemma initComponents_once [simp]: "initComponents (snd (initComponents c)) = initComponents c"
  by (simp add: initComponents_def Let_def split: option.split)

lemma access_all: "fold access as c = (if as = [] then c else snd (initComponents c))"
  by (induction as arbitrary: c) (simp_all add: access_init)

lemma initComponents_settings: "ctr_Config (snd (initComponents c)) = ctr_Config c"
  by (simp add: initComponents_def Let_def split: option.split)

lemma initComponents_made: "ctr_components (snd (initComponents c)) = Some (fst (initComponents c))"
  by (simp add: initComponents_def Let_def split: option.split)

lemma Build_opened:
  assumes "Build dr path = (Inr c, opened)"
  shows "set opened = {LogBuffer, PostgresConn, ScyllaConn, RedisConn}" "ctr_components c = None"
  using assms by (auto simp: Build_def split: sum.splits prod.splits)

text \<open>The writers of the topics a process publishes to.\<close>

definition publisher_writers :: "Config \<Rightarrow> Writer list" where
  "publisher_writers cfg =
     (let k = cfg_Kafka cfg in map (NewWriter \<lparr>kf_cfg = k\<rparr>) (kc_CallTopic k # kc_StatusTopic k # kc_RetryTopics k))"

lemma retry_writers_map: "retry_writers k topics = map (NewWriter k) topics"
  by (induction topics) simp_all

lemma component_writers:
  "cd_writer (ds_CallDispatcher (cm_dispatchers (components_of cfg))) # sp_writer (ds_StatusPublisher (cm_dispatchers (components_of cfg)))
     # rs_writers (ds_RetryScheduler (cm_dispatchers (components_of cfg))) = publisher_writers cfg"
  by (simp add: publisher_writers_def components_of_def new_components_def NewCallDispatcher_def NewStatusPublisher_def
      NewRetryScheduler_def retry_writers_map Let_def)

lemma wrapped_Nil [simp]: "wrapped msg err = [] \<longleftrightarrow> err = None"
  by (simp add: wrapped_def split: option.split)

lemma close_dispatchers_all:
  "snd (close_dispatchers cl d) =
     map (TopicWriter \<circ> wr_Topic) (cd_writer (ds_CallDispatcher d) # sp_writer (ds_StatusPublisher d) # rs_writers (ds_RetryScheduler d))"
  by (simp add: close_dispatchers_def CallDispatcher_Close_def StatusPublisher_Close_def RetryScheduler_Close_def close_writers_all
      case_prod_beta)

lemma close_dispatchers_Nil:
  "fst (close_dispatchers cl d) = [] \<longleftrightarrow>
     (\<forall>w \<in> set (cd_writer (ds_CallDispatcher d) # sp_writer (ds_StatusPublisher d) # rs_writers (ds_RetryScheduler d)). cl_writer cl w = None)"
  by (simp add: close_dispatchers_def CallDispatcher_Close_def StatusPublisher_Close_def RetryScheduler_Close_def close_writers_None
      case_prod_beta)


definition sample_zap :: zap where
  "sample_zap = (let encoder = \<lparr>ec_TimeKey = ''T'', ec_EncodeTime = ''epoch''\<rparr>
     in \<lparr>zap_NewProductionConfig = \<lparr>zc_EncoderConfig = encoder, zc_DisableStacktrace = False, zc_Development = False\<rparr>,
         zap_NewProductionEncoderConfig = encoder,
         zap_NewDevelopmentConfig = \<lparr>zc_EncoderConfig = encoder, zc_DisableStacktrace = False, zc_Development = True\<rparr>,
         zap_Build = (\<lambda>_. None)\<rparr>)"

definition sample_drivers :: drivers where
  "sample_drivers =
     \<lparr>dr_load = (\<lambda>path. if path = ''configs/config.yaml'' then Inr sample_config else Inl (New ''no such file'')), dr_zap = sample_zap,
      dr_parseConfig = (\<lambda>_. None), dr_newPool = (\<lambda>_. None), dr_pgPing = (\<lambda>_. None), dr_createSession = (\<lambda>_. None),
      dr_redisPing = (\<lambda>_. None)\<rparr>"

lemma sample_Build:
  obtains c where "Build sample_drivers ''configs/config.yaml'' = (Inr c, [LogBuffer, PostgresConn, ScyllaConn, RedisConn])"
    "ctr_Config c = sample_config"
  by (simp add: Build_def sample_drivers_def sample_zap_def logger_New_def NewPostgres_def NewScylla_def NewClient_def NewKafka_def
      sample_config_def Let_def)


text \<open>A bootstrap that fails after the first connection leaves connections open.\<close>

lemma Build_leaks: "Build dr path = (Inl err, opened) \<Longrightarrow> ScyllaConn \<in> set opened \<Longrightarrow> PostgresConn \<in> set opened"
  by (auto simp: Build_def split: sum.splits prod.splits if_splits)

end
