(* ===== verification/Jobs.thy ===== *)
theory Jobs
  imports Api_Laws Container
begin

text \<open>
  The operations of the processes, request by request. The processes share the databases, Kafka and
  Redis, so between two requests of one operation the others make theirs. A job is what is left of an
  operation: nothing, or its next request to the shared state and, for every reply, the rest. The jobs
  of this theory are the operations of the services, of the scheduler and of the workers cut at the
  calls of their repositories, of the clock and of Kafka; run alone, each job is the operation.
\<close>

subsection \<open>Jobs\<close>

text \<open>A request that never returns, the wait for a slot, is \<open>None\<close>.\<close>

datatype 's job = Finished | Request "'s \<Rightarrow> ('s job \<times> 's) option"

inductive job_step :: "'s job \<times> 's \<Rightarrow> 's job \<times> 's \<Rightarrow> bool" where
  "f s = Some (j, s') \<Longrightarrow> job_step (Request f, s) (j, s')"

inductive_cases job_stepE: "job_step (j, s) (j', s')"

inductive_simps job_step_simps [simp]: "job_step (Finished, s) x" "job_step (Request f, s) x"

text \<open>A job that runs alone.\<close>

primrec run_job :: "'s job \<Rightarrow> 's \<Rightarrow> 's option" where
  "run_job Finished = Some"
| "run_job (Request f) = (\<lambda>s. case map_option (map_prod run_job id) (f s) of
     None \<Rightarrow> None | Some (g, s') \<Rightarrow> g s')"

lemma run_Request: "run_job (Request f) s = (case f s of None \<Rightarrow> None | Some (j, s') \<Rightarrow> run_job j s')"
  by (simp split: option.splits prod.splits)

declare run_job.simps(2) [simp del]

lemma job_induct [case_names Finished Request, induct type: job]:
  assumes "P Finished" "\<And>f. (\<And>s j s'. f s = Some (j, s') \<Longrightarrow> P j) \<Longrightarrow> P (Request f)"
  shows "P j"
proof (induction j rule: job.induct)
  case (Request f)
  then show ?case
    by (intro assms(2)) (metis fsts.intros fst_conv option.set_intros rangeI)
qed (rule assms(1))

lemma run_job_steps: "run_job j s = Some s' \<Longrightarrow> job_step\<^sup>*\<^sup>* (j, s) (Finished, s')"
proof (induction j arbitrary: s)
  case Finished
  then show ?case by simp
next
  case (Request f)
  then obtain j t where f: "f s = Some (j, t)" "run_job j t = Some s'"
    by (auto simp: run_Request split: option.splits)
  show ?case
    by (rule converse_rtranclp_into_rtranclp [of _ _ "(j, t)"]) (simp_all add: f Request.IH [OF f])
qed

text \<open>A job cannot go on for ever, whatever the other processes do between its requests.\<close>

lemma job_step_wf: "wfP (\<lambda>j' j. \<exists>s s'. job_step (j, s) (j', s'))"
proof (rule wfpUNIVI)
  fix P :: "'s job \<Rightarrow> bool" and j
  assume IH: "\<forall>j. (\<forall>j'. (\<exists>s s'. job_step (j, s) (j', s')) \<longrightarrow> P j') \<longrightarrow> P j"
  show "P j"
  proof (induction j)
    case Finished
    show ?case using IH by simp
  next
    case (Request f)
    then show ?case by (intro IH [rule_format, of "Request f"]) auto
  qed
qed

subsection \<open>Requests\<close>

text \<open>A request to the databases, to Kafka or to the clock, and one to Redis.\<close>

definition ask :: "(world \<Rightarrow> 'a \<times> world) \<Rightarrow> ('a \<Rightarrow> (world \<times> 's) job) \<Rightarrow> (world \<times> 's) job" where
  "ask op k = Request (\<lambda>(w, s). case op w of (a, w') \<Rightarrow> Some (k a, w', s))"

definition ask_redis :: "('s \<Rightarrow> ('a \<times> 's) option) \<Rightarrow> ('a \<Rightarrow> (world \<times> 's) job) \<Rightarrow> (world \<times> 's) job" where
  "ask_redis op k = Request (\<lambda>(w, s). case op s of None \<Rightarrow> None | Some (a, s') \<Rightarrow> Some (k a, w, s'))"

lemma run_ask [simp]: "run_job (ask op k) (w, s) = (case op w of (a, w') \<Rightarrow> run_job (k a) (w', s))"
  by (simp add: ask_def run_Request split: prod.splits)

lemma run_ask_redis [simp]:
  "run_job (ask_redis op k) (w, s) = (case op s of None \<Rightarrow> None | Some (a, s') \<Rightarrow> run_job (k a) (w, s'))"
  by (simp add: ask_redis_def run_Request split: prod.splits option.splits)

subsection \<open>The campaign service\<close>

definition Create_job ::
    "env \<Rightarrow> (string \<Rightarrow> go_error + location) \<Rightarrow> int \<Rightarrow> CreateCampaignInput
      \<Rightarrow> (go_error + Campaign \<Rightarrow> (world \<times> 's) job) \<Rightarrow> (world \<times> 's) job" where
  "Create_job e load_location defaultConcurrency input k =
     (case validateCreateInput load_location input of
        Some err \<Rightarrow> k (Inl err)
      | None \<Rightarrow>
          ask (Now e) (\<lambda>now. ask (uuid_New e) (\<lambda>u.
            let campaign = new_campaign defaultConcurrency input u now
            in ask (CampaignRepository_Create e campaign) (\<lambda>r1. case r1 of
                 Some err \<Rightarrow> k (Inl (Errorf ''campaign service: create campaign: '' err []))
               | None \<Rightarrow>
            ask (BusinessHourRepository_Replace e u (toDomainBusinessHours (ci_BusinessHours input))) (\<lambda>r2. case r2 of
                 Some err \<Rightarrow> k (Inl (Errorf ''campaign service: store business hours: '' err []))
               | None \<Rightarrow>
            ask (CampaignStatisticsRepository_Ensure e u) (\<lambda>r3. case r3 of
                 Some err \<Rightarrow> k (Inl (Errorf ''campaign service: ensure stats: '' err []))
               | None \<Rightarrow>
            if ci_Targets input \<noteq> [] then
              ask (make_records e u now (ci_Targets input)) (\<lambda>records.
              ask (CampaignTargetRepository_BulkInsert e u records) (\<lambda>r4. case r4 of
                 Some err \<Rightarrow> k (Inl (Errorf ''campaign service: store targets: '' err []))
               | None \<Rightarrow> k (Inr campaign)))
            else k (Inr campaign)))))))"

definition Update_job ::
    "env \<Rightarrow> int \<Rightarrow> UpdateCampaignInput \<Rightarrow> (go_error + Campaign \<Rightarrow> (world \<times> 's) job) \<Rightarrow> (world \<times> 's) job" where
  "Update_job e defaultConcurrency input k =
     ask (CampaignRepository_Get e (ui_ID input)) (\<lambda>r. case r of
        Inl err \<Rightarrow> k (Inl err)
      | Inr campaign0 \<Rightarrow>
          ask (Now e) (\<lambda>now.
            let campaign = (apply_update defaultConcurrency input campaign0)\<lparr>c_UpdatedAt := now\<rparr>
            in ask (CampaignRepository_Update e campaign) (\<lambda>r1. case r1 of
                 Some err \<Rightarrow> k (Inl err)
               | None \<Rightarrow>
                   (case ui_BusinessHours input of
                      None \<Rightarrow> k (Inr campaign)
                    | Some hours \<Rightarrow>
                        ask (BusinessHourRepository_Replace e (c_ID campaign) (toDomainBusinessHours hours)) (\<lambda>r2. case r2 of
                           Some err \<Rightarrow> k (Inl (Errorf ''campaign service: update business hours: '' err []))
                         | None \<Rightarrow> k (Inr campaign))))))"

definition Start_job :: "env \<Rightarrow> uuid \<Rightarrow> (go_error option \<Rightarrow> (world \<times> 's) job) \<Rightarrow> (world \<times> 's) job" where
  "Start_job e i k =
     ask (CampaignRepository_Get e i) (\<lambda>r. case r of
        Inl err \<Rightarrow> k (Some err)
      | Inr campaign \<Rightarrow>
          if c_Status campaign = CampaignStatusInProgress then k None
          else if c_Status campaign = CampaignStatusCompleted then
            k (Some (New ''campaign service: cannot start completed campaign''))
          else ask (Now e) (\<lambda>now.
                 ask (CampaignRepository_Update e
                        (campaign\<lparr>c_Status := CampaignStatusInProgress, c_StartedAt := Some now\<rparr>)) k))"

definition Pause_job :: "env \<Rightarrow> uuid \<Rightarrow> (go_error option \<Rightarrow> (world \<times> 's) job) \<Rightarrow> (world \<times> 's) job" where
  "Pause_job e i k =
     ask (CampaignRepository_Get e i) (\<lambda>r. case r of
        Inl err \<Rightarrow> k (Some err)
      | Inr campaign \<Rightarrow> ask (CampaignRepository_Update e (campaign\<lparr>c_Status := CampaignStatusPaused\<rparr>)) k)"

definition Complete_job :: "env \<Rightarrow> uuid \<Rightarrow> (go_error option \<Rightarrow> (world \<times> 's) job) \<Rightarrow> (world \<times> 's) job" where
  "Complete_job e i k =
     ask (CampaignRepository_Get e i) (\<lambda>r. case r of
        Inl err \<Rightarrow> k (Some err)
      | Inr campaign \<Rightarrow>
          ask (Now e) (\<lambda>now.
            ask (CampaignRepository_Update e
                   (campaign\<lparr>c_Status := CampaignStatusCompleted, c_CompletedAt := Some now\<rparr>)) k))"

definition AddTargets_job ::
    "env \<Rightarrow> uuid \<Rightarrow> TargetInput list \<Rightarrow> (go_error option \<Rightarrow> (world \<times> 's) job) \<Rightarrow> (world \<times> 's) job" where
  "AddTargets_job e i targets k =
     (if targets = [] then k None
      else ask (CampaignTargetRepository_ListByCampaign e i 10000 []) (\<lambda>r. case r of
             Inl err \<Rightarrow> k (Some (Errorf ''campaign service: get existing targets: '' err []))
           | Inr existingTargets \<Rightarrow>
               if existingTargets = [] then
                 k (Some (Errorf [] (Sentinel ErrValidation)
                     '': cannot add targets to a campaign that has no registered target list''))
               else
                 (case check_phones (\<lambda>p. p \<in> ct_PhoneNumber ` set existingTargets) targets of
                    Some err \<Rightarrow> k (Some err)
                  | None \<Rightarrow>
                      ask (Now e) (\<lambda>now. ask (make_records e i now targets) (\<lambda>records.
                        ask (CampaignTargetRepository_BulkInsert e i records) (\<lambda>r2. case r2 of
                           Some err \<Rightarrow> k (Some (Errorf ''campaign service: add targets: '' err []))
                         | None \<Rightarrow> k None))))))"

fun populate_job ::
    "env \<Rightarrow> Campaign list \<Rightarrow> (go_error + Campaign list \<Rightarrow> (world \<times> 's) job) \<Rightarrow> (world \<times> 's) job" where
  "populate_job e [] k = k (Inr [])"
| "populate_job e (c # cs) k =
     ask (BusinessHourRepository_List e (c_ID c)) (\<lambda>r. case r of
        Inl err \<Rightarrow> k (Inl (Errorf ''campaign service: list business hours: '' err []))
      | Inr windows \<Rightarrow>
          populate_job e cs (\<lambda>r'. case r' of
             Inl err \<Rightarrow> k (Inl err)
           | Inr cs' \<Rightarrow> k (Inr (c\<lparr>c_BusinessHours := windows\<rparr> # cs'))))"

definition ListByStatus_job ::
    "env \<Rightarrow> campaign_status \<Rightarrow> int \<Rightarrow> (go_error + Campaign list \<Rightarrow> (world \<times> 's) job) \<Rightarrow> (world \<times> 's) job" where
  "ListByStatus_job e status limit k =
     ask (CampaignRepository_ListByStatus e status limit) (\<lambda>r. case r of
        Inl err \<Rightarrow> k (Inl err)
      | Inr campaigns \<Rightarrow> populate_job e campaigns k)"

lemma run_Create_job [simp]:
  "run_job (Create_job e loc d input k) (w, s) = (case campaign_Create e loc d input w of (r, w') \<Rightarrow> run_job (k r) (w', s))"
  by (simp add: Create_job_def campaign_Create_def Let_def split: option.splits prod.splits)

lemma run_Update_job [simp]:
  "run_job (Update_job e d input k) (w, s) = (case campaign_Update e d input w of (r, w') \<Rightarrow> run_job (k r) (w', s))"
  by (simp add: Update_job_def campaign_Update_def Let_def split: option.splits sum.splits prod.splits)

lemma run_moves_job [simp]:
  "run_job (Start_job e i k) (w, s) = (case campaign_Start e i w of (r, w') \<Rightarrow> run_job (k r) (w', s))"
  "run_job (Pause_job e i k) (w, s) = (case campaign_Pause e i w of (r, w') \<Rightarrow> run_job (k r) (w', s))"
  "run_job (Complete_job e i k) (w, s) = (case campaign_Complete e i w of (r, w') \<Rightarrow> run_job (k r) (w', s))"
  by (simp_all add: Start_job_def Pause_job_def Complete_job_def campaign_Start_def campaign_Pause_def campaign_Complete_def
      split: sum.splits prod.splits)

lemma run_AddTargets_job [simp]:
  "run_job (AddTargets_job e i ts k) (w, s) = (case campaign_AddTargets e i ts w of (r, w') \<Rightarrow> run_job (k r) (w', s))"
  by (simp add: AddTargets_job_def campaign_AddTargets_def split: option.splits sum.splits prod.splits)

lemma run_populate_job [simp]:
  "run_job (populate_job e cs k) (w, s) = (case populate_hours e cs w of (r, w') \<Rightarrow> run_job (k r) (w', s))"
  by (induction cs arbitrary: k w) (simp_all split: sum.splits prod.splits)

lemma run_ListByStatus_job [simp]:
  "run_job (ListByStatus_job e st n k) (w, s) = (case campaign_ListByStatus e st n w of (r, w') \<Rightarrow> run_job (k r) (w', s))"
  by (simp add: ListByStatus_job_def campaign_ListByStatus_def split: sum.splits prod.splits)

subsection \<open>The call service\<close>

definition TriggerCall_job ::
    "env \<Rightarrow> string \<Rightarrow> int \<Rightarrow> TriggerCallInput \<Rightarrow> (go_error + Call \<Rightarrow> (world \<times> 's) job) \<Rightarrow> (world \<times> 's) job" where
  "TriggerCall_job e topic defaultConcurrency input k =
     (if tc_PhoneNumber input = [] then
        k (Inl (Errorf [] (Sentinel ErrValidation) '': phone number is required''))
      else
      ask (CampaignRepository_Get e (tc_CampaignID input)) (\<lambda>r1. case r1 of
         Inl err \<Rightarrow> k (Inl (Errorf ''call service: lookup campaign: '' err []))
       | Inr campaign \<Rightarrow>
      ask (validatePhoneInCampaignTargets e (tc_CampaignID input) (tc_PhoneNumber input)) (\<lambda>r2. case r2 of
         Some err \<Rightarrow> k (Inl err)
       | None \<Rightarrow>
      ask (Now e) (\<lambda>now. ask (uuid_New e) (\<lambda>u.
      ask (CreateCall e (new_call input u now)) (\<lambda>r3. case r3 of
         Some err \<Rightarrow> k (Inl (Errorf ''call service: persist call: '' err []))
       | None \<Rightarrow>
      ask (CampaignStatisticsRepository_ApplyDelta e (tc_CampaignID input)
             (zero_delta\<lparr>TotalCallsDelta := 1, PendingCallsDelta := 1\<rparr>)) (\<lambda>r4. case r4 of
         Some err \<Rightarrow> k (Inl (Errorf ''call service: update stats: '' err []))
       | None \<Rightarrow>
      ask (DispatchCall e topic (new_dispatch input campaign defaultConcurrency u now)) (\<lambda>r5. case r5 of
         Some err \<Rightarrow>
           if tc_CampaignID input \<noteq> uuid_Nil
           then ask (CampaignStatisticsRepository_ApplyDelta e (tc_CampaignID input)
                       (zero_delta\<lparr>PendingCallsDelta := -1\<rparr>))
                  (\<lambda>_. k (Inl (Errorf ''call service: dispatch call: '' err [])))
           else k (Inl (Errorf ''call service: dispatch call: '' err []))
       | None \<Rightarrow> k (Inr (new_call input u now))))))))))"

lemma run_TriggerCall_job [simp]:
  "run_job (TriggerCall_job e topic dc input k) (w, s) =
     (case TriggerCall e topic dc input w of (r, w') \<Rightarrow> run_job (k r) (w', s))"
  by (simp add: TriggerCall_job_def TriggerCall_def split: option.splits sum.splits prod.splits)

subsection \<open>The scheduler\<close>

fun trigger_loop_job ::
    "env \<Rightarrow> scheduler \<Rightarrow> uuid \<Rightarrow> CampaignTargetRecord list \<Rightarrow> (uuid list \<Rightarrow> (world \<times> 's) job) \<Rightarrow> (world \<times> 's) job" where
  "trigger_loop_job e sc i [] k = k []"
| "trigger_loop_job e sc i (t # ts) k =
     TriggerCall_job e (sc_callTopic sc) (sc_defaultConcurrency sc)
       \<lparr>tc_CampaignID = i, tc_PhoneNumber = ct_PhoneNumber t, tc_Metadata = ct_Payload t\<rparr> (\<lambda>r.
         trigger_loop_job e sc i ts (\<lambda>failed. k (case r of Inl err \<Rightarrow> ct_ID t # failed | Inr call \<Rightarrow> failed)))"

definition schedule_job ::
    "env \<Rightarrow> (string \<Rightarrow> go_error + location) \<Rightarrow> scheduler \<Rightarrow> go_time \<Rightarrow> Campaign \<Rightarrow> (world \<times> 's) job \<Rightarrow> (world \<times> 's) job" where
  "schedule_job e loc sc nowUTC campaign k =
     (if \<not> isWithinBusinessHours loc nowUTC campaign then k
      else ask (CampaignTargetRepository_NextBatchForScheduling e (c_ID campaign) (sc_maxBatchSize sc)) (\<lambda>r. case r of
             Inl err \<Rightarrow> k
           | Inr targets \<Rightarrow>
               if targets = [] then k
               else ask (Now e) (\<lambda>scheduledAt.
                      ask (CampaignTargetRepository_MarkScheduled e (c_ID campaign) (map ct_ID targets) scheduledAt) (\<lambda>r2. case r2 of
                         Some err \<Rightarrow> k
                       | None \<Rightarrow>
                           trigger_loop_job e sc (c_ID campaign) targets (\<lambda>failed.
                             if failed \<noteq> []
                             then ask (CampaignTargetRepository_SetState e (c_ID campaign) failed ''pending'') (\<lambda>_. k)
                             else k)))))"

fun schedule_all_job ::
    "env \<Rightarrow> (string \<Rightarrow> go_error + location) \<Rightarrow> scheduler \<Rightarrow> go_time \<Rightarrow> Campaign list \<Rightarrow> (world \<times> 's) job \<Rightarrow> (world \<times> 's) job" where
  "schedule_all_job e loc sc nowUTC [] k = k"
| "schedule_all_job e loc sc nowUTC (c # cs) k = schedule_job e loc sc nowUTC c (schedule_all_job e loc sc nowUTC cs k)"

definition tick_job ::
    "env \<Rightarrow> (string \<Rightarrow> go_error + location) \<Rightarrow> scheduler \<Rightarrow> (string \<Rightarrow> go_error option)
      \<Rightarrow> (go_error option \<Rightarrow> (world \<times> 's) job) \<Rightarrow> (world \<times> 's) job" where
  "tick_job e loc sc probe k =
     (if hasPendingRetries probe (sc_retryTopics sc) then k None
      else ask (Now e) (\<lambda>nowUTC.
             ListByStatus_job e CampaignStatusInProgress (campaignFetchLimit (sc_workerCount sc)) (\<lambda>r. case r of
                Inl err \<Rightarrow> k (Some err)
              | Inr campaigns \<Rightarrow> schedule_all_job e loc sc nowUTC campaigns (k None))))"

lemma run_trigger_loop_job [simp]:
  "run_job (trigger_loop_job e sc i ts k) (w, s) =
     (case trigger_loop e sc i ts w of (failed, w') \<Rightarrow> run_job (k failed) (w', s))"
  by (induction ts arbitrary: k w) (simp_all split: prod.splits)

lemma run_schedule_job [simp]:
  "run_job (schedule_job e loc sc now c k) (w, s) = run_job k (schedule_campaign e loc sc now c w, s)"
  by (simp add: schedule_job_def schedule_campaign_def claim_batch_def split: option.splits sum.splits prod.splits)

lemma run_schedule_all_job [simp]:
  "run_job (schedule_all_job e loc sc now cs k) (w, s) = run_job k (fold (schedule_campaign e loc sc now) cs w, s)"
  by (induction cs arbitrary: w) simp_all

lemma run_tick_job [simp]:
  "run_job (tick_job e loc sc probe k) (w, s) = (case tick e loc sc probe w of (r, w') \<Rightarrow> run_job (k r) (w', s))"
  by (simp add: tick_job_def tick_def split: sum.splits prod.splits)

subsection \<open>The workers\<close>

definition status_job :: "env \<Rightarrow> status_worker \<Rightarrow> kafka_record \<Rightarrow> (world \<times> 's) job" where
  "status_job e sw m =
     (let commit = ask (CommitMessages e (sw_group sw) m) (\<lambda>_. Finished)
      in case Unmarshal dec_status (k_value m) of
        Inl err \<Rightarrow> commit
      | Inr status \<Rightarrow>
          ask (UpdateCallStatus e (sm_CallID status) (sm_Status status) (sm_Attempt status)
                 (optionalString (sm_Error status))) (\<lambda>_.
          ask (uuid_New e) (\<lambda>u. ask (AppendAttempt e (attempt_of u status)) (\<lambda>_.
            let schedule = (case sm_NextAttempt status of
                  Some next \<Rightarrow> if sm_Retryable status
                    then ask (ScheduleRetry e (sw_retryTopics sw) (sm_Attempt status) (retry_message status next)) (\<lambda>_. commit)
                    else commit
                | None \<Rightarrow> commit)
            in if sm_CampaignID status \<noteq> uuid_Nil
               then ask (CampaignStatisticsRepository_ApplyDelta e (sm_CampaignID status) (status_delta status)) (\<lambda>_. schedule)
               else schedule))))"

definition retry_job :: "env \<Rightarrow> retry_worker \<Rightarrow> go_error option \<Rightarrow> kafka_record \<Rightarrow> (world \<times> 's) job" where
  "retry_job e rw ctxDone m =
     (let commit = ask (CommitMessages e (rw_group rw) m) (\<lambda>_. Finished)
      in case Unmarshal dec_retry (k_value m) of
        Inl err \<Rightarrow> commit
      | Inr retryMsg \<Rightarrow>
          ask (sleepUntil e ctxDone (rm_NextAttempt retryMsg)) (\<lambda>r. case r of
             Some err \<Rightarrow> commit
           | None \<Rightarrow>
               ask (Now e) (\<lambda>now.
                 ask (DispatchCall e (rw_callTopic rw) ((rm_DispatchMessage retryMsg)\<lparr>dm_EnqueuedAt := now\<rparr>)) (\<lambda>r2. case r2 of
                    Some err \<Rightarrow> Finished
                  | None \<Rightarrow> commit))))"

definition call_job :: "env \<Rightarrow> 's call_worker \<Rightarrow> kafka_record \<Rightarrow> (go_error option \<Rightarrow> (world \<times> 's) job) \<Rightarrow> (world \<times> 's) job" where
  "call_job e c m k =
     (case Unmarshal dec_dispatch (k_value m) of
        Inl err \<Rightarrow> ask (CommitMessages e (cw_group c) m) (\<lambda>_. k (Some (Errorf ''unmarshal dispatch: '' err [])))
      | Inr dispatch \<Rightarrow>
          ask_redis (waitForSlot (cw_redis c) (cw_text c) (cw_limiter c) (cw_defaultPerCampaign c) (cw_poll c) dispatch) (\<lambda>r. case r of
             Inl err \<Rightarrow> k (Some err)
           | Inr slot \<Rightarrow>
               (let timeout = (if cw_timeout c \<le> 0 then 10 * Second else cw_timeout c);
                    (result, callErr) = cw_provider c timeout dispatch;
                    publish = (\<lambda>status. ask (PublishStatus e (cw_statusTopic c) status) (\<lambda>_.
                      ask (CommitMessages e (cw_group c) m) (\<lambda>commitErr.
                        let done' = k (case commitErr of None \<Rightarrow> None | Some err \<Rightarrow> Some (Errorf ''commit message: '' err []))
                        in case slot of
                             NoSlotNeeded \<Rightarrow> done'
                           | Slot \<Rightarrow> ask_redis (\<lambda>s. Some (Release (cw_redis c) (cw_text c) (cw_release c) (dm_CampaignID dispatch) s))
                                       (\<lambda>_. done'))))
                in ask (Now e) (\<lambda>now.
                     let status0 = make_status dispatch result callErr now
                     in if sm_Retryable status0
                        then ask (computeNextAttempt e (cw_oob c) (cw_rand c) dispatch) (\<lambda>t. publish (status0\<lparr>sm_NextAttempt := Some t\<rparr>))
                        else publish status0))))"

lemma run_status_job [simp]: "run_job (status_job e sw m) (w, s) = Some (status_step e sw m w, s)"
  by (simp add: status_job_def status_step_def Let_def split: option.splits sum.splits prod.splits)

lemma run_retry_job [simp]: "run_job (retry_job e rw ctxDone m) (w, s) = Some (retry_step e rw ctxDone m w, s)"
  by (simp add: retry_job_def retry_step_def Let_def split: option.splits sum.splits prod.splits)

lemma run_call_job [simp]:
  "run_job (call_job e c m k) (w, s) =
     (case processMessage e c m (w, s) of None \<Rightarrow> None | Some (r, w', s') \<Rightarrow> run_job (k r) (w', s'))"
  by (simp add: call_job_def processMessage_def Let_def split: option.splits sum.splits prod.splits slot.splits)

end
