(* ===== verification/Pipeline.thy ===== *)
theory Pipeline
  imports Jobs
begin

text \<open>
  The whole system: the processes that \<open>cmd/\<close> starts (the API server, the scheduler, the call
  workers, the status worker and the retry workers), each with the settings the container gives
  it, over one store, one Kafka cluster and one Redis server. A step of the system is one request,
  one tick or the handling of one delivered message. Kafka may deliver every record of a topic to
  its consumers any number of times and in any order, and every request to a server may fail with
  or without effect, so the theorems hold for redelivered messages. The system is given twice: with
  whole operations as steps, and with the single requests of the operations as steps, in which the
  processes interleave and may die in the middle of an operation; every run of the first is one of
  the second.
\<close>

subsection \<open>The system\<close>

record 's deployment =
  dp_env :: "env \<Rightarrow> bool"
  dp_loc :: "string \<Rightarrow> go_error + location"
  dp_parse :: "string \<Rightarrow> go_error + uuid"
  dp_cfg :: Config
  dp_redis :: "'s redis"
  dp_text :: "uuid \<Rightarrow> string"

abbreviation call_topic :: "'s deployment \<Rightarrow> string" where
  "call_topic D \<equiv> kc_CallTopic (cfg_Kafka (dp_cfg D))"

abbreviation status_topic :: "'s deployment \<Rightarrow> string" where
  "status_topic D \<equiv> kc_StatusTopic (cfg_Kafka (dp_cfg D))"

abbreviation retry_topics :: "'s deployment \<Rightarrow> string list" where
  "retry_topics D \<equiv> kc_RetryTopics (cfg_Kafka (dp_cfg D))"

text \<open>Between two steps anything may happen on the Redis server: keys expire, other clients write.\<close>

text \<open>A provider reports a duration of 64 bits.\<close>

definition typed_provider :: "provider \<Rightarrow> bool" where
  "typed_provider p \<longleftrightarrow> (\<forall>timeout d. int64 (res_Duration (fst (p timeout d))))"

inductive system_step :: "'s deployment \<Rightarrow> world \<times> 's \<Rightarrow> world \<times> 's \<Rightarrow> bool" for D where
  request: "dp_env D e \<Longrightarrow> serve e (api_of (dp_loc D) (dp_parse D) (dp_cfg D)) traceID req w = (resp, w') \<Longrightarrow>
     system_step D (w, s) (w', s)"
| tick: "dp_env D e \<Longrightarrow> tick e (dp_loc D) (scheduler_of (dp_cfg D)) probe w = (err, w') \<Longrightarrow>
     system_step D (w, s) (w', s)"
| call: "dp_env D e \<Longrightarrow> m \<in> set (w_kafka w) \<Longrightarrow> k_topic m = call_topic D \<Longrightarrow> typed_provider (oc_provider oc) \<Longrightarrow>
     processMessage e (call_worker_of (dp_redis D) (dp_text D) (dp_cfg D) oc) m (w, s) = Some (r, w', s') \<Longrightarrow>
     system_step D (w, s) (w', s')"
| status: "dp_env D e \<Longrightarrow> m \<in> set (w_kafka w) \<Longrightarrow> k_topic m = status_topic D \<Longrightarrow>
     system_step D (w, s) (status_step e (status_worker_of (dp_cfg D)) m w, s)"
| retry: "dp_env D e \<Longrightarrow> m \<in> set (w_kafka w) \<Longrightarrow> idx < length (retry_topics D) \<Longrightarrow>
     k_topic m = retry_topics D ! idx \<Longrightarrow>
     system_step D (w, s) (retry_step e (retry_worker_of (dp_cfg D) idx) ctxDone m w, s)"
| redis: "system_step D (w, s) (w, s')"

abbreviation system_run :: "'s deployment \<Rightarrow> world \<times> 's \<Rightarrow> world \<times> 's \<Rightarrow> bool" where
  "system_run D \<equiv> (system_step D)\<^sup>*\<^sup>*"

subsection \<open>The interleaved system\<close>

text \<open>The operations of the campaign service as jobs; those that only read are one request.\<close>

fun campaign_job ::
    "env \<Rightarrow> (string \<Rightarrow> go_error + location) \<Rightarrow> int \<Rightarrow> campaign_op \<Rightarrow> (world \<times> 's) job" where
  "campaign_job e loc d (OpCreate input) = Create_job e loc d input (\<lambda>_. Finished)"
| "campaign_job e loc d (OpGet i) = ask (campaign_Get e i) (\<lambda>_. Finished)"
| "campaign_job e loc d (OpList a n) = ask (campaign_List e a n) (\<lambda>_. Finished)"
| "campaign_job e loc d (OpListByStatus st n) = ListByStatus_job e st n (\<lambda>_. Finished)"
| "campaign_job e loc d (OpUpdate input) = Update_job e d input (\<lambda>_. Finished)"
| "campaign_job e loc d (OpStart i) = Start_job e i (\<lambda>_. Finished)"
| "campaign_job e loc d (OpPause i) = Pause_job e i (\<lambda>_. Finished)"
| "campaign_job e loc d (OpComplete i) = Complete_job e i (\<lambda>_. Finished)"
| "campaign_job e loc d (OpStats i) = ask (campaign_Stats e i) (\<lambda>_. Finished)"
| "campaign_job e loc d (OpAddTargets i ts) = AddTargets_job e i ts (\<lambda>_. Finished)"

lemma run_campaign_job: "run_job (campaign_job e loc d op) (w, s) = Some (campaign_run e loc d op w, s)"
  by (cases op) (simp_all split: prod.splits)

text \<open>The jobs that the processes may begin.\<close>

inductive begins :: "'s deployment \<Rightarrow> world \<Rightarrow> (world \<times> 's) job \<Rightarrow> bool" for D w where
  campaign: "dp_env D e \<Longrightarrow> begins D w (campaign_job e (dp_loc D) (thc_DefaultPerCampaign (cfg_Throttle (dp_cfg D))) op)"
| trigger: "dp_env D e \<Longrightarrow>
     begins D w (TriggerCall_job e (call_topic D) (thc_DefaultPerCampaign (cfg_Throttle (dp_cfg D))) input (\<lambda>_. Finished))"
| tick: "dp_env D e \<Longrightarrow> begins D w (tick_job e (dp_loc D) (scheduler_of (dp_cfg D)) probe (\<lambda>_. Finished))"
| call: "dp_env D e \<Longrightarrow> m \<in> set (w_kafka w) \<Longrightarrow> k_topic m = call_topic D \<Longrightarrow> typed_provider (oc_provider oc) \<Longrightarrow>
     begins D w (call_job e (call_worker_of (dp_redis D) (dp_text D) (dp_cfg D) oc) m (\<lambda>_. Finished))"
| status: "dp_env D e \<Longrightarrow> m \<in> set (w_kafka w) \<Longrightarrow> k_topic m = status_topic D \<Longrightarrow>
     begins D w (status_job e (status_worker_of (dp_cfg D)) m)"
| retry: "dp_env D e \<Longrightarrow> m \<in> set (w_kafka w) \<Longrightarrow> idx < length (retry_topics D) \<Longrightarrow> k_topic m = retry_topics D ! idx \<Longrightarrow>
     begins D w (retry_job e (retry_worker_of (dp_cfg D) idx) ctxDone m)"

text \<open>A step of the interleaved system: a process begins an operation, one of the pending operations
  makes its next request, a process dies and leaves an operation where it is, something is read that
  no operation depends on, or Redis moves on its own.\<close>

inductive interleaved_step ::
    "'s deployment \<Rightarrow> world \<times> 's \<times> (world \<times> 's) job list \<Rightarrow> world \<times> 's \<times> (world \<times> 's) job list \<Rightarrow> bool" for D where
  start: "begins D w j \<Longrightarrow> interleaved_step D (w, s, js) (w, s, js @ [j])"
| advance: "i < length js \<Longrightarrow> job_step (js ! i, w, s) (j, w', s') \<Longrightarrow> interleaved_step D (w, s, js) (w', s', js[i := j])"
| crash: "i < length js \<Longrightarrow> interleaved_step D (w, s, js) (w, s, js[i := Finished])"
| read: "same_store w w' \<Longrightarrow> interleaved_step D (w, s, js) (w', s, js)"
| redis: "interleaved_step D (w, s, js) (w, s', js)"

abbreviation interleaved_run ::
    "'s deployment \<Rightarrow> world \<times> 's \<times> (world \<times> 's) job list \<Rightarrow> world \<times> 's \<times> (world \<times> 's) job list \<Rightarrow> bool" where
  "interleaved_run D \<equiv> (interleaved_step D)\<^sup>*\<^sup>*"

text \<open>A job of the pool can be run to its end without interruption.\<close>

lemma advances:
  assumes "job_step\<^sup>*\<^sup>* (j, w, s) (j', w', s')" "i < length js" "js ! i = j"
  shows "interleaved_run D (w, s, js) (w', s', js[i := j'])"
  using assms(1)
proof (induction "(j', w', s')" arbitrary: j' w' s' rule: rtranclp_induct)
  case base
  then show ?case by (simp add: assms(3) [symmetric])
next
  case (step y)
  obtain j1 w1 s1 where y: "y = (j1, w1, s1)" by (cases y) auto
  have "interleaved_step D (w1, s1, js[i := j1]) (w', s', js[i := j1, i := j'])"
    using step(2) assms(2) by (intro advance) (simp_all add: y)
  then show ?case
    using step(3) [OF y] by simp
qed

lemma last_advances:
  "job_step\<^sup>*\<^sup>* (j, w, s) (j', w', s') \<Longrightarrow> interleaved_run D (w, s, js @ [j]) (w', s', js @ [j'])"
  using advances [of j w s j' w' s' "length js" "js @ [j]" D] by simp

lemma begun_job_runs:
  assumes "begins D w j" "run_job j (w, s) = Some (w', s')"
  shows "interleaved_run D (w, s, js) (w', s', js @ [Finished])"
  using converse_rtranclp_into_rtranclp [OF start [OF assms(1)] last_advances [OF run_job_steps [OF assms(2)]]] .

text \<open>What a request changes, an operation of a service changes.\<close>

lemma api_reads:
  "campaign_Get e i w = (r1, w') \<Longrightarrow> same_store w w'" "campaign_List e a n w = (r2, w') \<Longrightarrow> same_store w w'"
  "campaign_Stats e i w = (r3, w') \<Longrightarrow> same_store w w'"
  "call_ListCallsByCampaign e i n p w = (r4, w') \<Longrightarrow> same_store w w'" "call_GetCall e i w = (r5, w') \<Longrightarrow> same_store w w'"
  using service_reads_same(1,2,4) [of w e]
  by (metis snd_conv)+
    (auto simp: call_ListCallsByCampaign_def call_GetCall_def ListCallsByCampaign_def GetCall_def Let_def
      split: prod.splits sum.splits option.splits if_splits dest: query_same fetch_rows_same)

definition api_effect :: "env \<Rightarrow> api \<Rightarrow> world \<Rightarrow> world \<Rightarrow> bool" where
  "api_effect e a w w' \<longleftrightarrow> same_store w w'
     \<or> (\<exists>op. same_store (campaign_run e (ap_loc a) (ap_defaultConcurrency a) op w) w')
     \<or> (\<exists>input. w' = snd (TriggerCall e (ap_callTopic a) (ap_defaultConcurrency a) input w))"

lemma effect_refl [simp]: "api_effect e a w w"
  by (simp add: api_effect_def)

lemma effect_read: "same_store w w' \<Longrightarrow> api_effect e a w w'"
  by (simp add: api_effect_def)

lemma effect_op: "campaign_run e (ap_loc a) (ap_defaultConcurrency a) op w = w1 \<Longrightarrow> same_store w1 w' \<Longrightarrow> api_effect e a w w'"
  by (auto simp: api_effect_def)

lemma effect_ops:
  "campaign_Create e (ap_loc a) (ap_defaultConcurrency a) ci w = (r1, w1) \<Longrightarrow> same_store w1 w' \<Longrightarrow> api_effect e a w w'"
  "campaign_Update e (ap_defaultConcurrency a) ui w = (r2, w') \<Longrightarrow> api_effect e a w w'"
  "campaign_Start e i w = (r3, w') \<Longrightarrow> api_effect e a w w'" "campaign_Pause e i w = (r3, w') \<Longrightarrow> api_effect e a w w'"
  "campaign_Complete e i w = (r3, w') \<Longrightarrow> api_effect e a w w'" "campaign_AddTargets e i ts w = (r3, w') \<Longrightarrow> api_effect e a w w'"
  using effect_op [of e a "OpCreate ci" w w1 w'] effect_op [of e a "OpUpdate ui" w w' w']
    effect_op [of e a "OpStart i" w w' w'] effect_op [of e a "OpPause i" w w' w'] effect_op [of e a "OpComplete i" w w' w']
    effect_op [of e a "OpAddTargets i ts" w w' w'] by auto

lemma effect_trigger: "TriggerCall e (ap_callTopic a) (ap_defaultConcurrency a) input w = (r, w') \<Longrightarrow> api_effect e a w w'"
  unfolding api_effect_def by (metis snd_conv)

lemma effect_with_id: "with_id a msg param f w = (r, w') \<Longrightarrow> (\<And>i. f i w = (r, w') \<Longrightarrow> api_effect e a w w') \<Longrightarrow> api_effect e a w w'"
  by (auto simp: with_id_def split: sum.splits)

lemma effect_status: "send_status n x = (r, w') \<Longrightarrow> \<exists>err. x = (err, w')"
  by (auto simp: send_status_def split: prod.splits option.splits)

lemma Register_effect: "Register e a req w = (r, w') \<Longrightarrow> api_effect e a w w'"
proof (cases req)
  case (PostCampaigns b)
  then show "Register e a req w = (r, w') \<Longrightarrow> ?thesis"
    by (auto simp: createCampaign_def split: sum.splits prod.splits dest!: api_reads(1) intro: effect_ops(1))
next
  case (GetCampaigns q)
  then show "Register e a req w = (r, w') \<Longrightarrow> ?thesis"
    by (auto simp: listCampaigns_def Let_def split: sum.splits prod.splits
        dest!: api_reads(2) get_each_reads intro!: effect_read intro: same_store_trans)
next
  case (PutCampaign i b)
  then show "Register e a req w = (r, w') \<Longrightarrow> ?thesis"
    by (auto simp: updateCampaign_def split: sum.splits prod.splits elim!: effect_with_id intro: effect_ops(2))
next
  case (PostCalls b)
  then show "Register e a req w = (r, w') \<Longrightarrow> ?thesis"
    by (auto simp: triggerCall_def split: sum.splits prod.splits elim!: effect_with_id intro: effect_trigger)
qed (auto simp: getCampaign_def startCampaign_def pauseCampaign_def completeCampaign_def campaignStats_def addTargets_def
    listCampaignCalls_def api_getCall_def Let_def split: sum.splits prod.splits elim!: effect_with_id
    dest!: effect_status api_reads intro: effect_ops(3-) effect_read)

text \<open>Every step of the system is an interleaving: the operations one after another.\<close>

lemma effect_runs:
  assumes "dp_env D e" "api_effect e (api_of (dp_loc D) (dp_parse D) (dp_cfg D)) w w'"
  shows "\<exists>js'. interleaved_run D (w, s, js) (w', s, js')"
proof -
  let ?dc = "thc_DefaultPerCampaign (cfg_Throttle (dp_cfg D))"
  have "interleaved_run D (w, s, js) (campaign_run e (dp_loc D) ?dc op w, s, js @ [Finished])" for op
    by (rule begun_job_runs [OF begins.campaign [OF assms(1)] run_campaign_job])
  moreover have "interleaved_run D (w, s, js) (snd (TriggerCall e (call_topic D) ?dc input w), s, js @ [Finished])" for input
    by (rule begun_job_runs [OF begins.trigger [OF assms(1), of w input]]) (simp split: prod.splits)
  moreover have "interleaved_run D (w1, s, js1) (w2, s, js1)" if "same_store w1 w2" for w1 w2 js1
    using that by (intro r_into_rtranclp read)
  ultimately show ?thesis
    using assms(2) unfolding api_effect_def worker_topics worker_concurrency by (meson rtranclp_trans)
qed

lemma step_interleaved:
  assumes "system_step D (w, s) (w', s')"
  shows "\<exists>js'. interleaved_run D (w, s, js) (w', s', js')"
  using assms
proof (cases rule: system_step.cases)
  case (request e traceID req resp)
  then have "api_effect e (api_of (dp_loc D) (dp_parse D) (dp_cfg D)) w w'"
    by (auto simp: serve_def split: prod.splits sum.splits dest: Register_effect)
  then show ?thesis using effect_runs [OF request(2)] request(1) by simp
next
  case (tick e probe err)
  then show ?thesis using begun_job_runs [OF begins.tick [OF tick(2), of w probe], of s w' s' js] by auto
next
  case (call e m oc r)
  then show ?thesis
    using begun_job_runs [OF begins.call [OF call(1-4)], of s w' s' js] by auto
next
  case (status e m)
  then show ?thesis using begun_job_runs [OF begins.status [OF status(3-)], of s w' s' js] by auto
next
  case (retry e m idx ctxDone)
  then show ?thesis using begun_job_runs [OF begins.retry [OF retry(3-), of ctxDone], of s w' s' js] by auto
next
  case redis
  then show ?thesis by (blast intro: interleaved_step.redis)
qed

lemma run_interleaved: "system_run D a b \<Longrightarrow> \<exists>js'. interleaved_run D (fst a, snd a, js) (fst b, snd b, js')"
proof (induction rule: rtranclp_induct)
  case (step y z)
  obtain js1 where 1: "interleaved_run D (fst a, snd a, js) (fst y, snd y, js1)" using step.IH by blast
  obtain js2 where "interleaved_run D (fst y, snd y, js1) (fst z, snd z, js2)"
    using step_interleaved [of D "fst y" "snd y" "fst z" "snd z" js1] step.hyps(2) by auto
  with 1 show ?case by (meson rtranclp_trans)
qed auto

end
