(* ===== verification/Contracts.thy ===== *)
theory Contracts
  imports Pipeline
begin

text \<open>
  Rely and guarantee for the interleaved system. The one thing an operation relies on between two of its
  requests is that a registered phone number stays registered (\<open>grown\<close>), and every request
  guarantees it. An invariant is stated as a contract of the single requests: what each write keeps, and
  what a message must be known to be before it is sent and is known to be when it is read. The jobs of
  all processes are safe under every such contract, so the invariant holds in every interleaving, and
  with it in every run of the system.
\<close>

subsection \<open>What all requests guarantee\<close>

definition grown :: "world \<Rightarrow> world \<Rightarrow> bool" where
  "grown w w' \<longleftrightarrow> (\<forall>i. phones_of i w \<subseteq> phones_of i w')"

lemma grown_refl [simp]: "grown w w"
  by (simp add: grown_def)

lemma grown_trans [trans]: "grown a b \<Longrightarrow> grown b c \<Longrightarrow> grown a c"
  by (auto simp: grown_def)

lemma grown_targets: "w_targets w' = w_targets w \<Longrightarrow> grown w w'"
  by (simp add: grown_def phones_of_def targets_of_def)

lemma grown_same: "same_store w w' \<Longrightarrow> grown w w'"
  by (rule grown_targets) (rule same_store_fields)

text \<open>\<open>same_core w w'\<close>: PostgreSQL and Kafka's log hold the same.\<close>

definition same_core :: "world \<Rightarrow> world \<Rightarrow> bool" where
  "same_core w w' \<longleftrightarrow> same_pg w w' \<and> w_kafka w' = w_kafka w"

lemma core_same: "same_store w w' \<Longrightarrow> same_core w w'"
  by (simp add: same_core_def same_store_pg same_store_fields)

lemma core_writes:
  "CreateCall e c w = (r, w') \<Longrightarrow> same_core w w'"
  "UpdateCallStatus e i st n le w = (r, w') \<Longrightarrow> same_core w w'"
  "AppendAttempt e a w = (r, w') \<Longrightarrow> same_core w w'"
  "CommitMessages e g m w = (r, w') \<Longrightarrow> same_core w w'"
  by (auto simp: same_core_def same_pg_def rest_is_def dest!: CreateCall_rest [OF _ rest_is_refl]
      UpdateCallStatus_rest [OF _ rest_is_refl] AppendAttempt_rest [OF _ rest_is_refl])
    (metis commit_tables snd_conv)+

lemma computeNextAttempt_same: "computeNextAttempt e oob x d w = (t, w') \<Longrightarrow> same_store w w'"
  by (auto simp: computeNextAttempt_def split: prod.splits dest: Now_same)

lemma core_reads:
  "CampaignRepository_Get e i w = (r1, w') \<Longrightarrow> same_core w w'"
  "validatePhoneInCampaignTargets e i p w = (r2, w') \<Longrightarrow> same_core w w'"
  "Now e w = (t, w') \<Longrightarrow> same_core w w'" "uuid_New e w = (u, w') \<Longrightarrow> same_core w w'"
  "make_records e i t ts w = (r3, w') \<Longrightarrow> same_core w w'"
  "CampaignTargetRepository_ListByCampaign e i n st w = (r4, w') \<Longrightarrow> same_core w w'"
  "BusinessHourRepository_List e i w = (r5, w') \<Longrightarrow> same_core w w'"
  "CampaignRepository_ListByStatus e cs n w = (r6, w') \<Longrightarrow> same_core w w'"
  "CampaignTargetRepository_NextBatchForScheduling e i n w = (r7, w') \<Longrightarrow> same_core w w'"
  "sleepUntil e c t w = (r8, w') \<Longrightarrow> same_core w w'" "computeNextAttempt e oob x d w = (t, w') \<Longrightarrow> same_core w w'"
  "campaign_Get e i w = (r9, w') \<Longrightarrow> same_core w w'" "campaign_List e af n w = (r10, w') \<Longrightarrow> same_core w w'"
  "campaign_Stats e i w = (r11, w') \<Longrightarrow> same_core w w'"
  by (auto intro!: core_same dest: Get_same validatePhone_same Now_same uuid_New_same make_records_same ListByCampaign_same
      List_hours_same ListByStatus_same NextBatch_same sleepUntil_same api_reads computeNextAttempt_same)

lemma grown_core: "same_core w w' \<Longrightarrow> grown w w'"
  by (rule grown_targets) (simp add: same_core_def same_pg_def)

text \<open>The writes that leave the targets and the log alone.\<close>

definition log_is :: "world \<Rightarrow> world \<Rightarrow> bool" where
  "log_is w w' \<longleftrightarrow> w_targets w' = w_targets w \<and> w_kafka w' = w_kafka w"

lemma log_is_same: "same_store w w' \<Longrightarrow> log_is w w'"
  by (simp add: log_is_def same_store_fields)

lemma log_is_writes:
  "CampaignRepository_Create e c w = (err, w') \<Longrightarrow> log_is w w'"
  "CampaignStatisticsRepository_Ensure e i w = (err, w') \<Longrightarrow> log_is w w'"
  by (auto elim!: Create_cases Ensure_cases simp: log_is_def dest: same_store_fields(3,8))

lemma log_is_Update: "CampaignRepository_Update e c w = (err, w') \<Longrightarrow> log_is w w'"
  by (erule Update_cases) (auto simp: log_is_def rewritten_def dest: same_store_fields(3,8))

lemma log_is_Replace: "BusinessHourRepository_Replace e i ws w = (err, w') \<Longrightarrow> log_is w w'"
proof (erule Replace_cases)
  show "only_hours i w w' \<Longrightarrow> log_is w w'"
    using same_store_fields(3,8) [of "w\<lparr>w_hours := w_hours w'\<rparr>" w'] by (simp add: only_hours_def log_is_def)
qed (simp_all add: log_is_same)

lemma log_is_ApplyDelta: "CampaignStatisticsRepository_ApplyDelta e i d w = (err, w') \<Longrightarrow> log_is w w'"
  by (simp add: log_is_def ApplyDelta_stats)

lemma grown_log: "log_is w w' \<Longrightarrow> grown w w'"
  by (rule grown_targets) (simp add: log_is_def)

lemma BulkInsert_grown:
  assumes "CampaignTargetRepository_BulkInsert e i ts w = (err, w')"
  shows "grown w w'" "w_kafka w' = w_kafka w"
proof -
  have "grown w w' \<and> w_kafka w' = w_kafka w"
    using assms
  proof (cases rule: BulkInsert_cases)
    case same
    then show ?thesis by (auto simp: grown_same same_store_fields(8))
  next
    case inserted
    then show ?thesis
      using insert_rows_mono [of "w_targets w" "map (target_to_row i) ts"] same_store_fields(3,8) [OF inserted(1)]
      by (auto simp: grown_def phones_of_def targets_of_def)
  qed
  then show "grown w w'" "w_kafka w' = w_kafka w" by simp_all
qed

lemma grown_marks:
  "CampaignTargetRepository_MarkScheduled e i ids t w = (err, w') \<Longrightarrow> grown w w' \<and> w_kafka w' = w_kafka w"
  "CampaignTargetRepository_SetState e i ids st w = (err, w') \<Longrightarrow> grown w w' \<and> w_kafka w' = w_kafka w"
  by (auto dest!: MarkScheduled_keeps SetState_keeps simp: grown_def keeps_lists_def)

lemma grown_messages:
  "DispatchCall e topic dm w = (err, w') \<Longrightarrow> grown w w'"
  "PublishStatus e topic sm w = (err, w') \<Longrightarrow> grown w w'"
  "ScheduleRetry e ts n rm w = (err, w') \<Longrightarrow> grown w w'"
  using dispatcher.publish_tables(3) status_publisher.publish_tables(3) retry_tables(3) [of e ts n rm w]
  by (auto intro!: grown_targets)

lemmas grown_writes = grown_log [OF log_is_writes(1)] grown_log [OF log_is_Update] grown_log [OF log_is_Replace]
  grown_log [OF log_is_writes(2)] grown_log [OF log_is_ApplyDelta] BulkInsert_grown(1) grown_marks [THEN conjunct1]
  grown_messages

subsection \<open>Safe jobs\<close>

text \<open>A job is safe when each of its requests keeps the invariant, whatever the others did to a world of
  the invariant before it that only let the lists of numbers grow.\<close>

inductive safe :: "(world \<Rightarrow> bool) \<Rightarrow> (world \<times> 's) job \<Rightarrow> world \<Rightarrow> bool" for I where
  Finished: "safe I Finished w"
| Request: "(\<And>w1 s j w2 s'. grown w w1 \<Longrightarrow> I w1 \<Longrightarrow> f (w1, s) = Some (j, w2, s') \<Longrightarrow> grown w1 w2 \<and> I w2 \<and> safe I j w2)
     \<Longrightarrow> safe I (Request f) w"

inductive_simps safe_simps: "safe I Finished w" "safe I (Request f) w"

lemma safe_RequestD:
  "safe I (Request f) w \<Longrightarrow> grown w w1 \<Longrightarrow> I w1 \<Longrightarrow> f (w1, s) = Some (j, w2, s') \<Longrightarrow> grown w1 w2 \<and> I w2 \<and> safe I j w2"
  unfolding safe_simps by blast

lemma safe_grown:
  assumes "safe I j w" "grown w w'"
  shows "safe I j w'"
proof (cases j)
  case (Request f)
  show ?thesis
    unfolding Request by (rule safe.Request) (rule safe_RequestD [OF assms(1) [unfolded Request] grown_trans [OF assms(2)]])
qed (simp add: safe.Finished)

lemma safe_step: "safe I j w \<Longrightarrow> I w \<Longrightarrow> job_step (j, w, s) (j', w', s') \<Longrightarrow> grown w w' \<and> I w' \<and> safe I j' w'"
  by (cases j) (auto dest: safe_RequestD [OF _ grown_refl])

text \<open>One request: it keeps the invariant and lets the numbers grow, and the rest is safe.\<close>

lemma safe_ask:
  assumes "\<And>w1 a w2. op w1 = (a, w2) \<Longrightarrow> grown w1 w2"
    and "\<And>w1 a w2. grown w w1 \<Longrightarrow> op w1 = (a, w2) \<Longrightarrow> I w1 \<Longrightarrow> I w2"
    and "\<And>w1 a w2. grown w w1 \<Longrightarrow> grown w1 w2 \<Longrightarrow> I w1 \<Longrightarrow> op w1 = (a, w2) \<Longrightarrow> safe I (k a) w2"
  shows "safe I (ask op k) w"
  unfolding ask_def
proof (rule safe.Request)
  fix w1 w2 :: world and s s' :: 'b and j
  assume a: "grown w w1" "I w1" "(case (w1, s) of (w, s) \<Rightarrow> case op w of (a, w') \<Rightarrow> Some (k a, w', s)) = Some (j, w2, s')"
  then obtain x where "op w1 = (x, w2)" "j = k x" by (auto split: prod.splits)
  then show "grown w1 w2 \<and> I w2 \<and> safe I j w2"
    using assms a by blast
qed

text \<open>Requests that keep the invariant whatever the operation knows; some leave PostgreSQL and the log as
  they are.\<close>

definition keeping :: "(world \<Rightarrow> bool) \<Rightarrow> (world \<Rightarrow> 'a \<times> world) \<Rightarrow> bool" where
  "keeping I op \<longleftrightarrow> (\<forall>w. grown w (snd (op w)) \<and> (I w \<longrightarrow> I (snd (op w))))"

lemma keepingI: "(\<And>w a w'. op w = (a, w') \<Longrightarrow> grown w w') \<Longrightarrow> (\<And>w a w'. op w = (a, w') \<Longrightarrow> I w \<Longrightarrow> I w') \<Longrightarrow> keeping I op"
  unfolding keeping_def by (metis prod.collapse)

lemma keepingD: "keeping I op \<Longrightarrow> op w = (a, w') \<Longrightarrow> grown w w'" "keeping I op \<Longrightarrow> op w = (a, w') \<Longrightarrow> I w \<Longrightarrow> I w'"
  unfolding keeping_def by (metis snd_conv)+

lemma safe_ask_keeping:
  assumes "keeping I op" "\<And>a w'. grown w w' \<Longrightarrow> safe I (k a) w'"
  shows "safe I (ask op k) w"
  by (rule safe_ask) (auto dest: keepingD [OF assms(1)] intro: assms(2) grown_trans)

definition quiet_op :: "(world \<Rightarrow> 'a \<times> world) \<Rightarrow> bool" where
  "quiet_op op \<longleftrightarrow> (\<forall>w. same_core w (snd (op w)))"

lemma quiet_ops [simp]:
  "quiet_op (CampaignRepository_Get e i)" "quiet_op (validatePhoneInCampaignTargets e i p)"
  "quiet_op (Now e)" "quiet_op (uuid_New e)" "quiet_op (make_records e i t ts)"
  "quiet_op (CampaignTargetRepository_ListByCampaign e i n st)" "quiet_op (BusinessHourRepository_List e i)"
  "quiet_op (CampaignRepository_ListByStatus e cs n)" "quiet_op (CampaignTargetRepository_NextBatchForScheduling e i n)"
  "quiet_op (sleepUntil e ctx t)" "quiet_op (computeNextAttempt e oob x d)"
  "quiet_op (campaign_Get e i)" "quiet_op (campaign_List e af n)" "quiet_op (campaign_Stats e i)"
  "quiet_op (CreateCall e c)" "quiet_op (UpdateCallStatus e i cst n le)" "quiet_op (AppendAttempt e att)"
  "quiet_op (CommitMessages e g m)"
  unfolding quiet_op_def using core_reads core_writes by (metis prod.collapse)+

lemma safe_ask_redis:
  assumes "\<And>a w'. grown w w' \<Longrightarrow> safe I (k a) w'"
  shows "safe I (ask_redis op k) w"
  unfolding ask_redis_def by (rule safe.Request) (auto split: option.splits intro: assms)

subsection \<open>The contract of an invariant\<close>

definition faultless :: "'s deployment \<Rightarrow> bool" where
  "faultless D \<longleftrightarrow> (\<forall>e. dp_env D e \<longrightarrow> no_faults e)"

text \<open>The changes of the counters that the processes make; the compensation of a dispatch happens only
  when requests can fail.\<close>

definition counted :: "'s deployment \<Rightarrow> StatsDelta \<Rightarrow> bool" where
  "counted D d \<longleftrightarrow> d = trigger_delta \<or> (\<exists>st. d = status_delta st) \<or> \<not> faultless D \<and> d = undo_delta"

lemma counted_deltas [simp]: "counted D trigger_delta" "counted D (status_delta st)"
  by (auto simp: counted_def)

lemma answers_made:
  assumes "cw_provider c (if cw_timeout c \<le> 0 then 10 * Second else cw_timeout c) d = (res, err)"
  shows "\<not> sm_Retryable (make_status d res err t) \<Longrightarrow> answers c d (make_status d res err t)"
    "sm_Retryable (make_status d res err t) \<Longrightarrow> answers c d ((make_status d res err t)\<lparr>sm_NextAttempt := Some nx\<rparr>)"
  unfolding answers_def
  by (rule exI [of _ res], rule exI [of _ err], rule exI [of _ t], rule exI [of _ None], simp add: assms,
      rule exI [of _ res], rule exI [of _ err], rule exI [of _ t], rule exI [of _ "Some nx"], simp add: assms)

text \<open>What is known of a campaign that was read (\<open>KC\<close>), of a phone number that was validated
  (\<open>KP\<close>), and of the dispatch (\<open>KD\<close>), status (\<open>KS\<close>) and retry messages (\<open>KR\<close>)
  that are sent and read.\<close>

locale request_contract =
  fixes I :: "world \<Rightarrow> bool" and D :: "'s deployment"
    and KC :: "Campaign \<Rightarrow> bool" and KP :: "uuid \<Rightarrow> string \<Rightarrow> world \<Rightarrow> bool"
    and KD :: "DispatchMessage \<Rightarrow> world \<Rightarrow> bool" and KS :: "StatusMessage \<Rightarrow> world \<Rightarrow> bool"
    and KR :: "RetryMessage \<Rightarrow> world \<Rightarrow> bool"
  assumes I_core: "same_core w w' \<Longrightarrow> I w \<Longrightarrow> I w'"
    and create: "CampaignRepository_Create e c w = (err, w') \<Longrightarrow> I w \<Longrightarrow> I w'"
    and update: "CampaignRepository_Update e c w = (err, w') \<Longrightarrow> I w \<Longrightarrow> I w'"
    and replace: "BusinessHourRepository_Replace e i ws w = (err, w') \<Longrightarrow> I w \<Longrightarrow> I w'"
    and ensure: "CampaignStatisticsRepository_Ensure e i w = (err, w') \<Longrightarrow> I w \<Longrightarrow> I w'"
    and insert: "CampaignTargetRepository_BulkInsert e i ts w = (err, w') \<Longrightarrow> I w \<Longrightarrow> I w'"
    and mark: "CampaignTargetRepository_MarkScheduled e i ids t w = (err, w') \<Longrightarrow> I w \<Longrightarrow> I w'"
    and state: "CampaignTargetRepository_SetState e i ids st w = (err, w') \<Longrightarrow> I w \<Longrightarrow> I w'"
    and count: "CampaignStatisticsRepository_ApplyDelta e i dl w = (err, w') \<Longrightarrow> counted D dl \<Longrightarrow> I w \<Longrightarrow> I w'"
    and stable: "grown w w' \<Longrightarrow> KP i p w \<Longrightarrow> KP i p w'" "grown w w' \<Longrightarrow> KD d w \<Longrightarrow> KD d w'"
      "grown w w' \<Longrightarrow> KS sm w \<Longrightarrow> KS sm w'" "grown w w' \<Longrightarrow> KR rm w \<Longrightarrow> KR rm w'"
    and campaign_read: "CampaignRepository_Get e i w = (Inr c, w') \<Longrightarrow> I w \<Longrightarrow> KC c"
    and phone_validated: "dp_env D e \<Longrightarrow> validatePhoneInCampaignTargets e i p w = (None, w') \<Longrightarrow> KP i p w"
    and made: "KC c \<Longrightarrow> KP (tc_CampaignID input) (tc_PhoneNumber input) w \<Longrightarrow>
      KD (new_dispatch input c (thc_DefaultPerCampaign (cfg_Throttle (dp_cfg D))) u now) w"
    and dispatched: "DispatchCall e (call_topic D) d w = (err, w') \<Longrightarrow> KD d w \<Longrightarrow> I w \<Longrightarrow> I w'"
    and dispatch_read: "m \<in> set (w_kafka w) \<Longrightarrow> k_topic m = call_topic D \<Longrightarrow> Unmarshal dec_dispatch (k_value m) = Inr d \<Longrightarrow>
      I w \<Longrightarrow> KD d w"
    and answered: "answers (call_worker_of (dp_redis D) (dp_text D) (dp_cfg D) oc) d sm \<Longrightarrow> typed_provider (oc_provider oc) \<Longrightarrow>
      KD d w \<Longrightarrow> KS sm w"
    and published: "PublishStatus e (status_topic D) sm w = (err, w') \<Longrightarrow> KS sm w \<Longrightarrow> I w \<Longrightarrow> I w'"
    and status_read: "m \<in> set (w_kafka w) \<Longrightarrow> k_topic m = status_topic D \<Longrightarrow> Unmarshal dec_status (k_value m) = Inr sm \<Longrightarrow>
      I w \<Longrightarrow> KS sm w"
    and retried: "KS sm w \<Longrightarrow> sm_Retryable sm \<Longrightarrow> KR (retry_message sm nx) w"
    and scheduled: "ScheduleRetry e (retry_topics D) n rm w = (err, w') \<Longrightarrow> KR rm w \<Longrightarrow> I w \<Longrightarrow> I w'"
    and retry_read: "m \<in> set (w_kafka w) \<Longrightarrow> k_topic m \<in> set (retry_topics D) \<Longrightarrow> Unmarshal dec_retry (k_value m) = Inr rm \<Longrightarrow>
      I w \<Longrightarrow> KD ((rm_DispatchMessage rm)\<lparr>dm_EnqueuedAt := now\<rparr>) w"
begin

lemma keeping_quiet: "quiet_op op \<Longrightarrow> keeping I op"
  using I_core grown_core by (auto simp: quiet_op_def keeping_def)

lemma safe_ask_quiet:
  assumes "quiet_op op" "\<And>w1 a w2. grown w w1 \<Longrightarrow> grown w1 w2 \<Longrightarrow> I w1 \<Longrightarrow> op w1 = (a, w2) \<Longrightarrow> safe I (k a) w2"
  shows "safe I (ask op k) w"
  by (rule safe_ask) (auto dest: keepingD [OF keeping_quiet [OF assms(1)]] intro: assms(2))

lemma keeping_writes:
  "keeping I (CampaignRepository_Create e c)" "keeping I (CampaignRepository_Update e c)"
  "keeping I (BusinessHourRepository_Replace e i ws)" "keeping I (CampaignStatisticsRepository_Ensure e i)"
  "keeping I (CampaignTargetRepository_BulkInsert e i ts)" "keeping I (CampaignTargetRepository_MarkScheduled e i ids t)"
  "keeping I (CampaignTargetRepository_SetState e i ids st)"
  "counted D dl \<Longrightarrow> keeping I (CampaignStatisticsRepository_ApplyDelta e i dl)"
  by (auto intro!: keepingI dest: grown_writes create update replace ensure insert mark state count)

lemmas keeps = quiet_ops [THEN keeping_quiet, THEN safe_ask_keeping] keeping_writes(1-7) [THEN safe_ask_keeping]
  keeping_writes(8) [THEN safe_ask_keeping]

text \<open>The operations of the campaign service.\<close>

lemma safe_Create: "(\<And>a w'. safe I (k a) w') \<Longrightarrow> safe I (Create_job e loc d input k) w"
  by (auto simp: Create_job_def Let_def intro!: keeps split: option.split)

lemma safe_Update: "(\<And>a w'. safe I (k a) w') \<Longrightarrow> safe I (Update_job e d ui k) w"
  by (auto simp: Update_job_def Let_def intro!: keeps split: option.split sum.split)

lemma safe_moves:
  assumes "\<And>a w'. safe I (k a) w'"
  shows "safe I (Start_job e i k) w" "safe I (Pause_job e i k) w" "safe I (Complete_job e i k) w"
  using assms by (auto simp: Start_job_def Pause_job_def Complete_job_def intro!: keeps split: sum.split)

lemma safe_AddTargets: "(\<And>a w'. safe I (k a) w') \<Longrightarrow> safe I (AddTargets_job e i ts k) w"
  by (auto simp: AddTargets_job_def intro!: keeps split: option.split sum.split)

lemma safe_populate: "(\<And>a w'. safe I (k a) w') \<Longrightarrow> safe I (populate_job e cs k) w"
  by (induction cs arbitrary: k w) (auto intro!: keeps split: sum.split)

lemma safe_ListByStatus: "(\<And>a w'. safe I (k a) w') \<Longrightarrow> safe I (ListByStatus_job e st n k) w"
  by (auto simp: ListByStatus_job_def intro!: keeps safe_populate split: sum.split)

lemma safe_campaign: "safe I (campaign_job e loc d op) w"
  by (cases op) (auto intro!: keeps safe_Create safe_Update safe_moves safe_AddTargets safe_ListByStatus safe.Finished)

text \<open>The call service.\<close>

lemma dispatch_fails: "dp_env D e \<Longrightarrow> DispatchCall e topic d w = (Some err, w') \<Longrightarrow> counted D undo_delta"
  using dispatcher.publish_ok [of e topic d w] by (auto simp: counted_def faultless_def)

lemma safe_dispatch:
  assumes "dp_env D e" "KD d w" "\<And>w'. safe I (k None) w'"
    "\<And>err w'. counted D undo_delta \<Longrightarrow> safe I (k (Some err)) w'"
  shows "safe I (ask (DispatchCall e (call_topic D) d) k) w"
proof (rule safe_ask)
  show "safe I (k a) w2" if "DispatchCall e (call_topic D) d w1 = (a, w2)" for w1 a w2
    using that assms(3,4) dispatch_fails [OF assms(1)] by (cases a) auto
qed (auto dest: grown_messages(1) dispatched stable(2) [OF _ assms(2)])

lemma safe_TriggerCall:
  assumes "dp_env D e" "\<And>a w'. safe I (k a) w'"
  shows "safe I (TriggerCall_job e (call_topic D) (thc_DefaultPerCampaign (cfg_Throttle (dp_cfg D))) input k) w"
proof -
  let ?send = "\<lambda>c. ask (Now e) (\<lambda>now. ask (uuid_New e) (\<lambda>u. ask (CreateCall e (new_call input u now)) (\<lambda>r3. case r3 of
         Some err \<Rightarrow> k (Inl (Errorf ''call service: persist call: '' err []))
       | None \<Rightarrow>
      ask (CampaignStatisticsRepository_ApplyDelta e (tc_CampaignID input) trigger_delta) (\<lambda>r4. case r4 of
         Some err \<Rightarrow> k (Inl (Errorf ''call service: update stats: '' err []))
       | None \<Rightarrow>
      ask (DispatchCall e (call_topic D) (new_dispatch input c (thc_DefaultPerCampaign (cfg_Throttle (dp_cfg D))) u now)) (\<lambda>r5. case r5 of
         Some err \<Rightarrow>
           if tc_CampaignID input \<noteq> uuid_Nil
           then ask (CampaignStatisticsRepository_ApplyDelta e (tc_CampaignID input) undo_delta)
                  (\<lambda>_. k (Inl (Errorf ''call service: dispatch call: '' err [])))
           else k (Inl (Errorf ''call service: dispatch call: '' err []))
       | None \<Rightarrow> k (Inr (new_call input u now)))))))"
  have send: "safe I (?send c) w" if "KC c" "KP (tc_CampaignID input) (tc_PhoneNumber input) w" for c w
    using made [OF that] assms
    by (auto intro!: keeps safe_dispatch split: option.split) (meson stable(2))
  have validate: "safe I (ask (validatePhoneInCampaignTargets e (tc_CampaignID input) (tc_PhoneNumber input)) (\<lambda>r2. case r2 of
      Some err \<Rightarrow> k (Inl err) | None \<Rightarrow> ?send c)) w" if "KC c" for c w
  proof (rule safe_ask_quiet, simp)
    fix w1 a w2
    assume "grown w1 w2" "validatePhoneInCampaignTargets e (tc_CampaignID input) (tc_PhoneNumber input) w1 = (a, w2)"
    then show "safe I (case a of None \<Rightarrow> ?send c | Some err \<Rightarrow> k (Inl err)) w2"
      using send [OF that] stable(1) phone_validated [OF assms(1)] assms(2) by (cases a) auto
  qed
  show ?thesis
    unfolding TriggerCall_job_def trigger_delta_def [symmetric] undo_delta_def [symmetric]
    by (auto intro!: assms(2) safe_ask_quiet validate split: sum.split dest: campaign_read)
qed

text \<open>The scheduler.\<close>

lemma safe_trigger_loop:
  assumes "dp_env D e"
  shows "(\<And>a w'. safe I (k a) w') \<Longrightarrow> safe I (trigger_loop_job e (scheduler_of (dp_cfg D)) i ts k) w"
  by (induction ts arbitrary: k w) (simp_all add: safe_TriggerCall [OF assms])

lemma safe_schedule:
  assumes "dp_env D e" "\<And>w'. safe I k w'"
  shows "safe I (schedule_job e loc (scheduler_of (dp_cfg D)) now c k) w"
  by (auto simp: schedule_job_def intro!: keeps safe_trigger_loop assms split: sum.split option.split)

lemma safe_schedule_all:
  assumes "dp_env D e" "\<And>w'. safe I k w'"
  shows "safe I (schedule_all_job e loc (scheduler_of (dp_cfg D)) now cs k) w"
  by (induction cs arbitrary: w) (auto intro: safe_schedule assms)

lemma safe_tick:
  assumes "dp_env D e" "\<And>a w'. safe I (k a) w'"
  shows "safe I (tick_job e loc (scheduler_of (dp_cfg D)) probe k) w"
  by (auto simp: tick_job_def intro!: keeps safe_ListByStatus safe_schedule_all assms split: sum.split)

text \<open>The workers.\<close>

lemma safe_publish:
  assumes "KS sm w" "\<And>a w'. safe I (k a) w'"
  shows "safe I (ask (PublishStatus e (status_topic D) sm) k) w"
  by (rule safe_ask) (auto dest: grown_messages(2) published stable(3) [OF _ assms(1)] intro: assms(2))

lemma safe_retry_send:
  assumes "KR rm w" "\<And>a w'. safe I (k a) w'"
  shows "safe I (ask (ScheduleRetry e (retry_topics D) n rm) k) w"
  by (rule safe_ask) (auto dest: grown_messages(3) scheduled stable(4) [OF _ assms(1)] intro: assms(2))

lemma safe_commit: "(\<And>a w'. safe I (k a) w') \<Longrightarrow> safe I (ask (CommitMessages e g m) k) w"
  by (auto intro!: keeps)

lemma safe_status:
  assumes "m \<in> set (w_kafka w)" "k_topic m = status_topic D" "I w"
  shows "safe I (status_job e (status_worker_of (dp_cfg D)) m) w"
proof (cases "Unmarshal dec_status (k_value m)")
  case (Inl err)
  then show ?thesis by (simp add: status_job_def safe_commit safe.Finished)
next
  case (Inr st)
  have K: "sm_Retryable st \<Longrightarrow> KR (retry_message st nx) w" for nx
    using retried [OF status_read [OF assms(1,2) Inr assms(3)]] .
  show ?thesis
    by (auto simp: status_job_def Inr Let_def intro!: keeps safe_retry_send safe_commit safe.Finished split: option.split)
      (meson K stable(4))+
qed

lemma safe_retry:
  assumes "dp_env D e" "m \<in> set (w_kafka w)" "k_topic m \<in> set (retry_topics D)" "I w"
  shows "safe I (retry_job e (retry_worker_of (dp_cfg D) idx) ctxDone m) w"
proof (cases "Unmarshal dec_retry (k_value m)")
  case (Inl err)
  then show ?thesis by (simp add: retry_job_def safe_commit safe.Finished)
next
  case (Inr rm)
  have K: "grown w v \<Longrightarrow> KD ((rm_DispatchMessage rm)\<lparr>dm_EnqueuedAt := now\<rparr>) v" for now v
    by (rule stable(2) [OF _ retry_read [OF assms(2,3) Inr assms(4)]])
  show ?thesis
    by (auto simp: retry_job_def Inr Let_def intro!: keeps safe_dispatch [OF assms(1)] safe_commit safe.Finished split: option.split)
      (auto intro: K grown_trans)
qed

lemma safe_call:
  assumes "m \<in> set (w_kafka w)" "k_topic m = call_topic D" "typed_provider (oc_provider oc)" "I w" "\<And>a w'. safe I (k a) w'"
  shows "safe I (call_job e (call_worker_of (dp_redis D) (dp_text D) (dp_cfg D) oc) m k) w" (is "safe I (call_job e ?c m k) w")
proof (cases "Unmarshal dec_dispatch (k_value m)")
  case (Inl err)
  then show ?thesis by (simp add: call_job_def safe_commit assms(5))
next
  case (Inr d)
  have K: "grown w v \<Longrightarrow> answers ?c d sm \<Longrightarrow> KS sm v" for sm v
    using answered [OF _ assms(3)] stable(2) dispatch_read [OF assms(1,2) Inr assms(4)] by blast
  obtain res err where p: "cw_provider ?c (if cw_timeout ?c \<le> 0 then 10 * Second else cw_timeout ?c) d = (res, err)" by force
  note a = answers_made [OF p]
  show ?thesis
    unfolding call_job_def Inr Let_def p sum.case prod.case
    by (auto intro!: safe_ask_redis keeps safe_publish safe_commit assms(5) K a split: sum.split slot.split)
      (meson grown_trans)+
qed

text \<open>The whole system.\<close>

lemma safe_begins: "begins D w j \<Longrightarrow> I w \<Longrightarrow> safe I j w"
  by (erule begins.cases) (auto intro!: safe_campaign safe_TriggerCall safe_tick safe_call safe_status safe_retry safe.Finished)

lemma interleaved_step_keeps:
  assumes "interleaved_step D (w, s, js) (w', s', js')" "I w" "\<forall>j \<in> set js. safe I j w"
  shows "I w' \<and> (\<forall>j \<in> set js'. safe I j w')"
  using assms(1)
proof (cases rule: interleaved_step.cases)
  case (start j)
  then show ?thesis using assms(2,3) safe_begins by auto
next
  case (advance i j)
  then have "grown w w' \<and> I w' \<and> safe I j w'"
    using safe_step assms(2,3) by (metis nth_mem)
  then show ?thesis
    using assms(3) safe_grown [of I _ w w'] advance(1) by (auto dest!: set_update_subset_insert [THEN subsetD])
next
  case (crash i)
  then show ?thesis using assms(2,3) by (auto dest!: set_update_subset_insert [THEN subsetD] intro: safe.Finished)
next
  case read
  then show ?thesis using assms(2,3) I_core core_same safe_grown grown_same by blast
qed (use assms(2,3) in simp)

lemma interleaved_keeps:
  assumes "interleaved_run D x y" "I (fst x)" "\<forall>j \<in> set (snd (snd x)). safe I j (fst x)"
  shows "I (fst y) \<and> (\<forall>j \<in> set (snd (snd y)). safe I j (fst y))"
  using assms
proof (induction rule: rtranclp_induct)
  case (step y z)
  then show ?case
    using interleaved_step_keeps [of "fst y" "fst (snd y)" "snd (snd y)" "fst z" "fst (snd z)" "snd (snd z)"] by simp
qed simp

lemma pool_keeps: "interleaved_run D (w, s, []) (w', s', js) \<Longrightarrow> I w \<Longrightarrow> I w'"
  using interleaved_keeps [of "(w, s, [])" "(w', s', js)"] by simp

lemma run_keeps:
  assumes "system_run D (w, s) (w', s')" "I w"
  shows "I w'"
  using run_interleaved [OF assms(1), of "[]"] pool_keeps assms(2) by auto

end

end
