(* ===== verification/Invariants.thy ===== *)
theory Invariants
  imports Contracts
begin

text \<open>
  The invariants of the interleaved system, each as an interpretation of the contract of the requests:
  the constraints of the tables, the counters, and the messages of the log, that they can be read and
  that they are for registered numbers and for at most two attempts.
\<close>

subsection \<open>Tables\<close>

lemma core_pg: "same_core w w' \<Longrightarrow> same_pg w w'"
  by (simp add: same_core_def)

lemma message_pg:
  "DispatchCall e topic d w = (r, w') \<Longrightarrow> same_pg w w'"
  "PublishStatus e topic sm w = (r, w') \<Longrightarrow> same_pg w w'"
  "ScheduleRetry e ts n rm w = (r, w') \<Longrightarrow> same_pg w w'"
proof -
  show "ScheduleRetry e ts n rm w = (r, w') \<Longrightarrow> same_pg w w'"
    using ScheduleRetry_out_of_range [of n ts e rm w] ScheduleRetry_in_range [of n ts e rm w r w']
    by (cases "n \<le> 0 \<or> int (length ts) < n") (auto simp: same_pg_def dest: same_store_fields published_fields)
qed (simp_all add: same_pg_def dispatcher.publish_tables status_publisher.publish_tables)

lemma marks_wf:
  "CampaignTargetRepository_MarkScheduled e i ids t w = (err, w') \<Longrightarrow> pg_wf w \<Longrightarrow> pg_wf w'"
  "CampaignTargetRepository_SetState e i ids st w = (err, w') \<Longrightarrow> pg_wf w \<Longrightarrow> pg_wf w'"
  by (auto simp: CampaignTargetRepository_MarkScheduled_def CampaignTargetRepository_SetState_def
      split: if_splits dest: wf.keeps_run_stmt [OF _ _ update_targets_wf])

interpretation tables: request_contract pg_wf D "\<lambda>_. True" "\<lambda>_ _ _. True" "\<lambda>_ _. True" "\<lambda>_ _. True" "\<lambda>_ _. True" for D
  by unfold_locales
    (auto intro: Create_wf Update_wf Replace_wf Ensure_wf BulkInsert_wf marks_wf ApplyDelta_wf wf.I_pg [OF core_pg]
      wf.I_pg [OF message_pg(1)] wf.I_pg [OF message_pg(2)] wf.I_pg [OF message_pg(3)])

subsection \<open>Counters\<close>

text \<open>A property of every counter row. It is an invariant of the system when the empty row has it and
  the changes of a row keep it.\<close>

definition all_stats :: "(CampaignStats \<Rightarrow> bool) \<Rightarrow> world \<Rightarrow> bool" where
  "all_stats P w \<longleftrightarrow> (\<forall>i s. w_stats w i = Some s \<longrightarrow> P s)"

lemma all_stats_cong: "w_stats w' = w_stats w \<Longrightarrow> all_stats P w \<Longrightarrow> all_stats P w'"
  by (simp add: all_stats_def)

lemma all_stats_pg: "same_pg w w' \<Longrightarrow> all_stats P w \<Longrightarrow> all_stats P w'"
  by (simp add: all_stats_def same_pg_def)

lemma all_stats_moved: "stats_moved f i w w' \<Longrightarrow> (\<And>s. P s \<Longrightarrow> P (f s)) \<Longrightarrow> all_stats P w \<Longrightarrow> all_stats P w'"
  by (auto simp: all_stats_def stats_moved_def split: if_splits)

lemma pg_writes_stats:
  "CampaignRepository_Create e c w = (err, w') \<Longrightarrow> w_stats w' = w_stats w"
  "BusinessHourRepository_Replace e i ws w = (err, w') \<Longrightarrow> w_stats w' = w_stats w"
  "CampaignTargetRepository_BulkInsert e i ts w = (err, w') \<Longrightarrow> w_stats w' = w_stats w"
  "CampaignTargetRepository_MarkScheduled e i ids t w = (err, w') \<Longrightarrow> w_stats w' = w_stats w"
  "CampaignTargetRepository_SetState e i ids st w = (err, w') \<Longrightarrow> w_stats w' = w_stats w"
  by (auto elim!: Create_cases Replace_cases BulkInsert_cases MarkScheduled_cases SetState_cases
      dest: same_store_fields(4) only_hours_fields)

lemma Update_stats: "CampaignRepository_Update e c w = (err, w') \<Longrightarrow> w_stats w' = w_stats w"
  by (erule Update_cases) (auto simp: rewritten_def dest: same_store_fields)

lemma Ensure_stats:
  "CampaignStatisticsRepository_Ensure e i w = (err, w') \<Longrightarrow> w_stats w' = w_stats w \<or> w_stats w' = (w_stats w)(i \<mapsto> zero_stats)"
  by (erule Ensure_cases) (auto dest: same_store_fields)

locale counter_invariant =
  fixes P :: "CampaignStats \<Rightarrow> bool"
    and D :: "'s deployment"
  assumes zero: "P zero_stats"
    and change: "counted D dl \<Longrightarrow> P s \<Longrightarrow> P (add_delta dl s)"
begin

lemma change_keeps:
  assumes "CampaignStatisticsRepository_ApplyDelta e i dl w = (err, w')" "counted D dl" "all_stats P w"
  shows "all_stats P w'"
  using ApplyDelta_stats(1) [OF assms(1)] all_stats_moved [of "add_delta dl" i w w' P] change [OF assms(2)] assms(3)
    all_stats_cong by blast

lemma ensure_keeps: "CampaignStatisticsRepository_Ensure e i w = (err, w') \<Longrightarrow> all_stats P w \<Longrightarrow> all_stats P w'"
  using zero by (auto simp: all_stats_def dest!: Ensure_stats split: if_splits)

sublocale request_contract "all_stats P" D "\<lambda>_. True" "\<lambda>_ _ _. True" "\<lambda>_ _. True" "\<lambda>_ _. True" "\<lambda>_ _. True"
  by unfold_locales
    (auto intro: change_keeps ensure_keeps all_stats_pg [OF core_pg] all_stats_pg [OF message_pg(1)] all_stats_pg [OF message_pg(2)]
      all_stats_pg [OF message_pg(3)] all_stats_cong [OF pg_writes_stats(1)] all_stats_cong [OF pg_writes_stats(2)]
      all_stats_cong [OF pg_writes_stats(3)] all_stats_cong [OF pg_writes_stats(4)] all_stats_cong [OF pg_writes_stats(5)]
      all_stats_cong [OF Update_stats])

end

text \<open>Whatever fails: no call is counted twice as finished beyond the total, the counters of finished
  calls and of retries never fall below zero, and the counter of calls in progress is never used.\<close>

definition counters_ok :: "CampaignStats \<Rightarrow> bool" where
  "counters_ok s \<longleftrightarrow> 0 \<le> CompletedCalls s \<and> 0 \<le> FailedCalls s \<and> 0 \<le> RetriesAttempted s \<and> InProgressCalls s = 0
     \<and> CompletedCalls s + FailedCalls s + PendingCalls s \<le> TotalCalls s"

lemmas deltas = add_delta_def trigger_delta_def undo_delta_def zero_delta_def status_delta_def Let_def zero_stats_def

interpretation bounded: counter_invariant counters_ok D for D
  by unfold_locales (auto simp: counters_ok_def deltas counted_def)

interpretation exact: counter_invariant "\<lambda>s. faultless D \<longrightarrow> balanced s" D for D
  by unfold_locales (auto simp: status_delta_balanced counted_def, auto simp: balanced_def deltas)

subsection \<open>Messages\<close>

text \<open>What a consumer reads is what was written, for every message that can be read at all.\<close>

lemma dec_int_JInt_Some: "dec_int (JInt i) x = Some j \<longleftrightarrow> int64 i \<and> j = i"
  by auto

lemma decoded_dispatch:
  assumes "Unmarshal dec_dispatch (enc_dispatch d) = Inr d'"
  shows "dm_CallID d' = dm_CallID d \<and> dm_CampaignID d' = dm_CampaignID d \<and> dm_PhoneNumber d' = dm_PhoneNumber d
    \<and> dm_Attempt d' = dm_Attempt d \<and> dm_MaxAttempts d' = dm_MaxAttempts d"
  using assms
  by (auto simp: enc_dispatch_def dec_dispatch_def field_names dec_int_JInt_Some bind_eq_Some_conv
      simp del: dec_int.simps split: option.splits)

lemma dec_status_fields:
  assumes "dec_status kvs = Some st"
  shows "dec_field dec_uuid uuid_Nil ''call_id'' kvs = Some (sm_CallID st)"
    "dec_field dec_uuid uuid_Nil ''campaign_id'' kvs = Some (sm_CampaignID st)"
    "dec_field dec_str [] ''phone_number'' kvs = Some (sm_PhoneNumber st)"
    "dec_field dec_str [] ''status'' kvs = Some (sm_Status st)"
    "dec_field dec_int 0 ''attempt'' kvs = Some (sm_Attempt st)"
    "dec_field dec_bool False ''retryable'' kvs = Some (sm_Retryable st)"
  using assms by (auto simp: dec_status_def bind_eq_Some_conv)

lemma decoded_status:
  assumes "Unmarshal dec_status (enc_status st) = Inr st'"
  shows "sm_CallID st' = sm_CallID st \<and> sm_CampaignID st' = sm_CampaignID st \<and> sm_PhoneNumber st' = sm_PhoneNumber st
    \<and> sm_Attempt st' = sm_Attempt st \<and> sm_Retryable st' = sm_Retryable st \<and> sm_Status st' = sm_Status st"
proof -
  obtain kvs where kvs: "enc_status st = JObj kvs" by (simp add: enc_status_def)
  then have "dec_status kvs = Some st'"
    using assms by (simp split: option.splits)
  note f = dec_status_fields [OF this]
  have "dec_field dec_uuid uuid_Nil ''call_id'' kvs = Some (sm_CallID st)"
    "dec_field dec_uuid uuid_Nil ''campaign_id'' kvs = Some (sm_CampaignID st)"
    "dec_field dec_str [] ''phone_number'' kvs = Some (sm_PhoneNumber st)"
    "dec_field dec_str [] ''status'' kvs = Some (sm_Status st)"
    "dec_field dec_int 0 ''attempt'' kvs = dec_int (JInt (sm_Attempt st)) 0"
    "dec_field dec_bool False ''retryable'' kvs = Some (sm_Retryable st)"
    using kvs by (auto simp: enc_status_def field_names simp del: dec_int.simps split: option.splits)
  then show ?thesis
    using f dec_int_JInt_Some [of "sm_Attempt st" 0 "sm_Attempt st'"] by (simp del: dec_int.simps)
qed

lemma decoded_retry:
  assumes "Unmarshal dec_retry (enc_retry m) = Inr m'"
  shows "dm_CallID (rm_DispatchMessage m') = dm_CallID (rm_DispatchMessage m)
    \<and> dm_CampaignID (rm_DispatchMessage m') = dm_CampaignID (rm_DispatchMessage m)
    \<and> dm_PhoneNumber (rm_DispatchMessage m') = dm_PhoneNumber (rm_DispatchMessage m)
    \<and> dm_Attempt (rm_DispatchMessage m') = dm_Attempt (rm_DispatchMessage m) \<and> dm_MaxAttempts (rm_DispatchMessage m') = 0"
  using assms
  by (auto simp: enc_retry_def dec_retry_def dec_dispatch_def field_names dec_int_JInt_Some bind_eq_Some_conv Let_def
      simp del: dec_int.simps split: option.splits)

text \<open>The topics serve one purpose each.\<close>

definition separate_topics :: "'s deployment \<Rightarrow> bool" where
  "separate_topics D \<longleftrightarrow> call_topic D \<noteq> status_topic D \<and> call_topic D \<notin> set (retry_topics D)
     \<and> status_topic D \<notin> set (retry_topics D)"

text \<open>A log whose records are messages of which \<open>KD\<close>, \<open>KS\<close> and \<open>KR\<close> hold.\<close>

definition record_of ::
    "'s deployment \<Rightarrow> (DispatchMessage \<Rightarrow> world \<Rightarrow> bool) \<Rightarrow> (StatusMessage \<Rightarrow> world \<Rightarrow> bool) \<Rightarrow> (RetryMessage \<Rightarrow> world \<Rightarrow> bool)
      \<Rightarrow> world \<Rightarrow> kafka_record \<Rightarrow> bool" where
  "record_of D KD KS KR w r \<longleftrightarrow>
     (k_topic r = call_topic D \<longrightarrow> (\<exists>d. k_value r = enc_dispatch d \<and> KD d w))
     \<and> (k_topic r = status_topic D \<longrightarrow> (\<exists>st. k_value r = enc_status st \<and> KS st w))
     \<and> (k_topic r \<in> set (retry_topics D) \<longrightarrow> (\<exists>m. k_value r = enc_retry m \<and> KR m w))"

definition log_of ::
    "'s deployment \<Rightarrow> (DispatchMessage \<Rightarrow> world \<Rightarrow> bool) \<Rightarrow> (StatusMessage \<Rightarrow> world \<Rightarrow> bool) \<Rightarrow> (RetryMessage \<Rightarrow> world \<Rightarrow> bool)
      \<Rightarrow> world \<Rightarrow> bool" where
  "log_of D KD KS KR w \<longleftrightarrow> (\<forall>r \<in> set (w_kafka w). record_of D KD KS KR w r)"

text \<open>The contract between the writers and the readers of the log, for deployments with \<open>G\<close> and
  tables with \<open>B\<close>: what is known of a message when it is written is known when it is read.\<close>

locale log_contract =
  fixes G :: bool and B :: "world \<Rightarrow> bool" and D :: "'s deployment"
    and KC :: "Campaign \<Rightarrow> bool" and KP :: "uuid \<Rightarrow> string \<Rightarrow> world \<Rightarrow> bool"
    and KD :: "DispatchMessage \<Rightarrow> world \<Rightarrow> bool" and KS :: "StatusMessage \<Rightarrow> world \<Rightarrow> bool"
    and KR :: "RetryMessage \<Rightarrow> world \<Rightarrow> bool"
  assumes base: "request_contract B D (\<lambda>_. True) (\<lambda>_ _ _. True) (\<lambda>_ _. True) (\<lambda>_ _. True) (\<lambda>_ _. True)"
    and topics: "G \<Longrightarrow> separate_topics D"
    and stable: "grown w w' \<Longrightarrow> KP i p w \<Longrightarrow> KP i p w'" "grown w w' \<Longrightarrow> KD d w \<Longrightarrow> KD d w'"
      "grown w w' \<Longrightarrow> KS sm w \<Longrightarrow> KS sm w'" "grown w w' \<Longrightarrow> KR rm w \<Longrightarrow> KR rm w'"
    and campaign_read: "CampaignRepository_Get e i w = (Inr c, w') \<Longrightarrow> B w \<Longrightarrow> KC c"
    and phone_validated: "G \<Longrightarrow> dp_env D e \<Longrightarrow> validatePhoneInCampaignTargets e i p w = (None, w') \<Longrightarrow> KP i p w"
    and made: "G \<Longrightarrow> KC c \<Longrightarrow> KP (tc_CampaignID input) (tc_PhoneNumber input) w \<Longrightarrow>
      KD (new_dispatch input c (thc_DefaultPerCampaign (cfg_Throttle (dp_cfg D))) u now) w"
    and dispatch_decoded: "Unmarshal dec_dispatch (enc_dispatch d) = Inr d' \<Longrightarrow> KD d w \<Longrightarrow> KD d' w"
    and answered: "answers (call_worker_of (dp_redis D) (dp_text D) (dp_cfg D) oc) d sm \<Longrightarrow> typed_provider (oc_provider oc) \<Longrightarrow>
      KD d w \<Longrightarrow> KS sm w"
    and status_decoded: "Unmarshal dec_status (enc_status sm) = Inr sm' \<Longrightarrow> KS sm w \<Longrightarrow> KS sm' w"
    and retried: "KS sm w \<Longrightarrow> sm_Retryable sm \<Longrightarrow> KR (retry_message sm nx) w"
    and retry_decoded: "Unmarshal dec_retry (enc_retry rm) = Inr rm' \<Longrightarrow> KR rm w \<Longrightarrow>
      KD ((rm_DispatchMessage rm')\<lparr>dm_EnqueuedAt := now\<rparr>) w"
begin

abbreviation log_ok :: "world \<Rightarrow> bool" where
  "log_ok \<equiv> log_of D KD KS KR"

lemma record_mono: "record_of D KD KS KR w r \<Longrightarrow> grown w w' \<Longrightarrow> record_of D KD KS KR w' r"
  unfolding record_of_def using stable by meson

lemma log_grows:
  assumes "log_ok w" "grown w w'" "w_kafka w' = w_kafka w @ rs" "\<forall>r \<in> set rs. record_of D KD KS KR w r"
  shows "log_ok w'"
  using assms record_mono by (auto simp: log_of_def)

lemma log_same: "log_ok w \<Longrightarrow> grown w w' \<Longrightarrow> w_kafka w' = w_kafka w \<Longrightarrow> log_ok w'"
  using log_grows [of w w' "[]"] by simp

lemma log_appends:
  assumes "log_ok w" "grown w w'" "w_kafka w' = w_kafka w \<or> w_kafka w' = w_kafka w @ [r]" "record_of D KD KS KR w r"
  shows "log_ok w'"
  using assms log_same log_grows [of w w' "[r]"] by auto

lemma dispatch_keeps:
  assumes "G" "DispatchCall e (call_topic D) d w = (err, w')" "KD d w" "log_ok w"
  shows "log_ok w'"
proof (rule log_appends [OF assms(4) grown_messages(1) [OF assms(2)]])
  show "w_kafka w' = w_kafka w \<or> w_kafka w' = w_kafka w @
      [\<lparr>k_topic = call_topic D, k_key = dm_CallID d, k_value = enc_dispatch d, k_time = utc (now_at e (now_n w))\<rparr>]"
    using dispatcher.publish_kafka [OF assms(2)] by auto
qed (use topics [OF assms(1)] assms(3) in \<open>auto simp: record_of_def separate_topics_def\<close>)

lemma publish_keeps:
  assumes "G" "PublishStatus e (status_topic D) sm w = (err, w')" "KS sm w" "log_ok w"
  shows "log_ok w'"
proof (rule log_appends [OF assms(4) grown_messages(2) [OF assms(2)]])
  show "w_kafka w' = w_kafka w \<or> w_kafka w' = w_kafka w @
      [\<lparr>k_topic = status_topic D, k_key = sm_CallID sm, k_value = enc_status sm, k_time = utc (now_at e (now_n w))\<rparr>]"
    using status_publisher.publish_kafka [OF assms(2)] by auto
qed (use topics [OF assms(1)] assms(3) in \<open>auto simp: record_of_def separate_topics_def\<close>)

lemma schedule_keeps:
  assumes "G" "ScheduleRetry e (retry_topics D) n rm w = (err, w')" "KR rm w" "log_ok w"
  shows "log_ok w'"
proof (cases "n \<le> 0 \<or> int (length (retry_topics D)) < n")
  case True
  then have "w' = w" using ScheduleRetry_out_of_range assms(2) by fastforce
  then show ?thesis using assms(4) by simp
next
  case False
  then have "retry_topics D ! nat (n - 1) \<in> set (retry_topics D)" by (intro nth_mem) auto
  then have r: "record_of D KD KS KR w \<lparr>k_topic = retry_topics D ! nat (n - 1), k_key = dm_CallID (rm_DispatchMessage rm),
      k_value = enc_retry rm, k_time = t\<rparr>" for t
    using topics [OF assms(1)] assms(3) unfolding record_of_def separate_topics_def by auto
  have "w_kafka w' = w_kafka w \<or> w_kafka w' = w_kafka w @ [\<lparr>k_topic = retry_topics D ! nat (n - 1),
      k_key = dm_CallID (rm_DispatchMessage rm), k_value = enc_retry rm, k_time = utc (now_at e (now_n w))\<rparr>]"
    using ScheduleRetry_in_range [OF _ _ assms(2)] False by (auto dest: same_store_fields published_fields)
  from log_appends [OF assms(4) grown_messages(3) [OF assms(2)] this r] show ?thesis .
qed

lemma reads_dispatch: "log_ok w \<Longrightarrow> m \<in> set (w_kafka w) \<Longrightarrow> k_topic m = call_topic D \<Longrightarrow>
    Unmarshal dec_dispatch (k_value m) = Inr d \<Longrightarrow> KD d w"
  unfolding log_of_def record_of_def by (metis dispatch_decoded)

lemma reads_status: "log_ok w \<Longrightarrow> m \<in> set (w_kafka w) \<Longrightarrow> k_topic m = status_topic D \<Longrightarrow>
    Unmarshal dec_status (k_value m) = Inr sm \<Longrightarrow> KS sm w"
  unfolding log_of_def record_of_def by (metis status_decoded)

lemma reads_retry: "log_ok w \<Longrightarrow> m \<in> set (w_kafka w) \<Longrightarrow> k_topic m \<in> set (retry_topics D) \<Longrightarrow>
    Unmarshal dec_retry (k_value m) = Inr rm \<Longrightarrow> KD ((rm_DispatchMessage rm)\<lparr>dm_EnqueuedAt := now\<rparr>) w"
  unfolding log_of_def record_of_def by (metis retry_decoded)

lemma log_is_keeps: "log_is w w' \<Longrightarrow> log_ok w \<Longrightarrow> log_ok w'"
  by (rule log_same [OF _ grown_log]) (simp_all add: log_is_def)

lemmas log_writes = log_is_keeps [OF log_is_writes(1)] log_is_keeps [OF log_is_writes(2)] log_is_keeps [OF log_is_Update]
  log_is_keeps [OF log_is_Replace] log_is_keeps [OF log_is_ApplyDelta]

lemma log_grown_writes:
  assumes "log_ok w"
  shows "CampaignTargetRepository_BulkInsert e i ts w = (err, w') \<Longrightarrow> log_ok w'"
    "CampaignTargetRepository_MarkScheduled e i ids t w = (err, w') \<Longrightarrow> log_ok w'"
    "CampaignTargetRepository_SetState e i ids st w = (err, w') \<Longrightarrow> log_ok w'"
    "same_core w w' \<Longrightarrow> log_ok w'"
  by (auto intro: log_same [OF assms] grown_core dest: BulkInsert_grown grown_marks same_core_def [THEN iffD1])

sublocale requests: request_contract "\<lambda>w. G \<longrightarrow> B w \<and> log_ok w" D "\<lambda>c. G \<longrightarrow> KC c" "\<lambda>i p w. G \<longrightarrow> KP i p w"
  "\<lambda>d w. G \<longrightarrow> KD d w" "\<lambda>sm w. G \<longrightarrow> KS sm w" "\<lambda>rm w. G \<longrightarrow> KR rm w"
proof -
  note b = request_contract.I_core [OF base] request_contract.create [OF base] request_contract.update [OF base]
    request_contract.replace [OF base] request_contract.ensure [OF base] request_contract.insert [OF base]
    request_contract.mark [OF base] request_contract.state [OF base] request_contract.count [OF base]
    request_contract.dispatched [OF base] request_contract.published [OF base] request_contract.scheduled [OF base]
  show "request_contract (\<lambda>w. G \<longrightarrow> B w \<and> log_ok w) D (\<lambda>c. G \<longrightarrow> KC c) (\<lambda>i p w. G \<longrightarrow> KP i p w)
      (\<lambda>d w. G \<longrightarrow> KD d w) (\<lambda>sm w. G \<longrightarrow> KS sm w) (\<lambda>rm w. G \<longrightarrow> KR rm w)"
    by unfold_locales
      (auto intro: b log_writes log_grown_writes dispatch_keeps publish_keeps schedule_keeps reads_dispatch reads_status reads_retry
        stable campaign_read phone_validated made answered retried)
qed

end

text \<open>A message is lawful when it is for a registered number of its campaign, and for the first
  attempt or, with the maximal attempts lost, for the second.\<close>

definition lawful_dispatch :: "DispatchMessage \<Rightarrow> world \<Rightarrow> bool" where
  "lawful_dispatch d w \<longleftrightarrow> dm_PhoneNumber d \<in> phones_of (dm_CampaignID d) w
     \<and> (dm_Attempt d = 1 \<or> dm_Attempt d = 2 \<and> dm_MaxAttempts d = 0)"

definition lawful_status :: "StatusMessage \<Rightarrow> world \<Rightarrow> bool" where
  "lawful_status st w \<longleftrightarrow> sm_PhoneNumber st \<in> phones_of (sm_CampaignID st) w
     \<and> (sm_Attempt st = 1 \<or> sm_Attempt st = 2 \<and> \<not> sm_Retryable st)"

definition lawful_retry :: "RetryMessage \<Rightarrow> world \<Rightarrow> bool" where
  "lawful_retry m w \<longleftrightarrow> dm_PhoneNumber (rm_DispatchMessage m) \<in> phones_of (dm_CampaignID (rm_DispatchMessage m)) w
     \<and> dm_Attempt (rm_DispatchMessage m) = 2"

definition lawful_log :: "'s deployment \<Rightarrow> world \<Rightarrow> bool" where
  "lawful_log D = log_of D lawful_dispatch lawful_status lawful_retry"

text \<open>The deployments in which the topics are separate and the rows that a query scans are those of the
  table.\<close>

definition sound :: "'s deployment \<Rightarrow> bool" where
  "sound D \<longleftrightarrow> separate_topics D \<and> (\<forall>e. dp_env D e \<longrightarrow> env_scans e)"

lemma answers_phone: "answers c d sm \<Longrightarrow> sm_PhoneNumber sm = dm_PhoneNumber d"
  by (auto simp: answers_def make_status_def Let_def split: option.splits if_splits)

lemma lawful_answer:
  assumes "answers c d sm" "lawful_dispatch d w"
  shows "lawful_status sm w"
  using assms(2) answers_phone [OF assms(1)] answers_fields(2-5) [OF assms(1)]
  by (auto simp: lawful_dispatch_def lawful_status_def)

lemma trivial_contract: "request_contract (\<lambda>_. True) D (\<lambda>_. True) (\<lambda>_ _ _. True) (\<lambda>_ _. True) (\<lambda>_ _. True) (\<lambda>_ _. True)"
  by unfold_locales simp_all

interpretation messages: log_contract "sound D" "\<lambda>_. True" D "\<lambda>_. True" "\<lambda>i p w. p \<in> phones_of i w"
  lawful_dispatch lawful_status lawful_retry for D
proof (rule log_contract.intro [OF trivial_contract])
  show "sound D \<Longrightarrow> dp_env D e \<Longrightarrow> validatePhoneInCampaignTargets e i p w = (None, w') \<Longrightarrow> p \<in> phones_of i w" for e i p w w'
    by (auto simp: sound_def dest: validatePhone_None)
  show "Unmarshal dec_dispatch (enc_dispatch d) = Inr d' \<Longrightarrow> lawful_dispatch d w \<Longrightarrow> lawful_dispatch d' w" for d d' w
    by (auto simp: lawful_dispatch_def dest: decoded_dispatch)
  show "Unmarshal dec_status (enc_status sm) = Inr sm' \<Longrightarrow> lawful_status sm w \<Longrightarrow> lawful_status sm' w" for sm sm' w
    by (auto simp: lawful_status_def dest: decoded_status)
  show "Unmarshal dec_retry (enc_retry rm) = Inr rm' \<Longrightarrow> lawful_retry rm w \<Longrightarrow>
      lawful_dispatch ((rm_DispatchMessage rm')\<lparr>dm_EnqueuedAt := now\<rparr>) w" for rm rm' w now
    by (auto simp: lawful_retry_def lawful_dispatch_def dest: decoded_retry)
  show "answers (call_worker_of (dp_redis D) (dp_text D) (dp_cfg D) oc) d sm \<Longrightarrow> lawful_dispatch d w \<Longrightarrow> lawful_status sm w" for oc d sm w
    by (rule lawful_answer)
qed (auto simp: sound_def grown_def lawful_dispatch_def lawful_status_def lawful_retry_def retry_message_def int64_def)

text \<open>A message is well typed when its numbers are Go's 64-bit integers.\<close>

definition typed_log :: "'s deployment \<Rightarrow> world \<Rightarrow> bool" where
  "typed_log D = log_of D (\<lambda>d w. wf_dispatch d) (\<lambda>st w. wf_status st)
     (\<lambda>m w. wf_dispatch (rm_DispatchMessage m) \<and> int64 (rm_MaxAttempts m))"

definition typed_campaign :: "Campaign \<Rightarrow> bool" where
  "typed_campaign c \<longleftrightarrow> int64 (c_MaxConcurrentCalls c) \<and> int64 (MaxAttempts (c_RetryPolicy c))
     \<and> int64 (BaseDelay (c_RetryPolicy c)) \<and> int64 (MaxDelay (c_RetryPolicy c))"

definition typed_deployment :: "'s deployment \<Rightarrow> bool" where
  "typed_deployment D \<longleftrightarrow> separate_topics D \<and> int64 (thc_DefaultPerCampaign (cfg_Throttle (dp_cfg D)))"

lemma campaign_at_typed:
  assumes "campaign_at i w = Some c" "pg_wf w"
  shows "typed_campaign c"
proof -
  obtain row where row: "row \<in> set (w_campaigns w)" "c = toDomain row"
    using assms(1) by (auto simp: campaign_at_def dest: find_campaign_Some)
  then have "campaign_checks row"
    using assms(2) by (simp add: pg_wf_def)
  then have "int64 (r_max_concurrent_calls row)" "int64 (r_retry_max_attempts row)"
    by (auto simp: campaign_checks_def int32_def int64_def)
  then show ?thesis
    by (simp add: typed_campaign_def row(2) toDomain_def wrap64_range)
qed

lemma new_dispatch_wf:
  assumes "typed_campaign c" "int64 dc"
  shows "wf_dispatch (new_dispatch input c dc u now)"
proof -
  have "int64 (Milliseconds x)" if "int64 x" for x
    unfolding Milliseconds_def by (intro go_div_int64 that) (simp add: duration_units)
  moreover have "int64 1" by (simp add: int64_def)
  ultimately show ?thesis
    using assms by (simp add: wf_dispatch_def new_dispatch_def typed_campaign_def Let_def)
qed

lemma answers_wf:
  assumes "answers c d sm" "wf_dispatch d"
    and "\<And>res err. cw_provider c (if cw_timeout c \<le> 0 then 10 * Second else cw_timeout c) d = (res, err) \<Longrightarrow> int64 (res_Duration res)"
  shows "wf_status sm"
proof -
  obtain res err t nx where r: "int64 (res_Duration res)" "sm = (make_status d res err t)\<lparr>sm_NextAttempt := nx\<rparr>"
    using assms(1,3) unfolding answers_def by metis
  have "int64 (go_div (res_Duration res) Millisecond)"
    by (intro go_div_int64 r(1)) (simp add: duration_units)
  then have "int64 (sm_DurationMs (make_status d res err t))"
    by (auto simp: make_status_def Let_def int64_def split: option.splits)
  then show ?thesis
    using assms(2) by (simp add: r(2) wf_status_def wf_dispatch_def)
qed

lemma retry_message_wf:
  "wf_status sm \<Longrightarrow> wf_dispatch (rm_DispatchMessage (retry_message sm nx)) \<and> int64 (rm_MaxAttempts (retry_message sm nx))"
  by (simp add: wf_status_def wf_dispatch_def retry_message_def wrap64_range)

interpretation typed: log_contract "typed_deployment D" pg_wf D typed_campaign "\<lambda>_ _ _. True"
  "\<lambda>d w. wf_dispatch d" "\<lambda>st w. wf_status st" "\<lambda>m w. wf_dispatch (rm_DispatchMessage m) \<and> int64 (rm_MaxAttempts m)" for D
proof (rule log_contract.intro [OF tables.request_contract_axioms])
  show "answers (call_worker_of (dp_redis D) (dp_text D) (dp_cfg D) oc) d sm \<Longrightarrow> typed_provider (oc_provider oc) \<Longrightarrow>
      wf_dispatch d \<Longrightarrow> wf_status sm" for oc d sm
    by (erule answers_wf) (auto simp: call_worker_of_def typed_provider_def dest!: spec [of _ d] arg_cong [where f = fst])
  show "Unmarshal dec_retry (enc_retry rm) = Inr rm' \<Longrightarrow> wf_dispatch (rm_DispatchMessage rm) \<and> int64 (rm_MaxAttempts rm) \<Longrightarrow>
      wf_dispatch ((rm_DispatchMessage rm')\<lparr>dm_EnqueuedAt := now\<rparr>)" for rm rm' now
    by (auto simp: retry_roundtrip_aux wf_dispatch_def) (simp add: int64_def)
qed (auto simp: typed_deployment_def dispatch_roundtrip_aux status_roundtrip_aux retry_message_wf
    intro: campaign_at_typed [OF Get_found] new_dispatch_wf)

end
