(* ===== verification/System_Laws.thy ===== *)
theory System_Laws
  imports Invariants
begin

text \<open>
  What the composed processes guarantee: the life of a call from its trigger to its counters, and
  the properties of every run of the system, with a run that exercises them.
\<close>

subsection \<open>The life of a call\<close>

lemma process_effect:
  assumes "processMessage e c m (w, s) = Some (r, w', s')"
  shows "same_pg w w' \<and> (w_kafka w' = w_kafka w \<or>
    (\<exists>d sm t. Unmarshal dec_dispatch (k_value m) = Inr d \<and> answers c d sm
       \<and> w_kafka w' = w_kafka w @ [\<lparr>k_topic = cw_statusTopic c, k_key = sm_CallID sm, k_value = enc_status sm, k_time = t\<rparr>]))"
proof (cases "Unmarshal dec_dispatch (k_value m)")
  case (Inl err)
  then have "w' = snd (CommitMessages e (cw_group c) m w)"
    using assms by (simp add: processMessage_def)
  then show ?thesis by (simp add: same_pg_def commit_tables)
next
  case (Inr d)
  show ?thesis
  proof (cases "\<exists>q s1. waitForSlot (cw_redis c) (cw_text c) (cw_limiter c) (cw_defaultPerCampaign c) (cw_poll c) d s = Some (Inr q, s1)")
    case True
    then obtain q s1 where q: "waitForSlot (cw_redis c) (cw_text c) (cw_limiter c) (cw_defaultPerCampaign c) (cw_poll c) d s = Some (Inr q, s1)"
      by blast
    obtain sm w2 w3 p cm where st: "answers c d sm" "same_store w w2"
        "PublishStatus e (cw_statusTopic c) sm w2 = (p, w3)" "CommitMessages e (cw_group c) m w3 = (cm, w')"
      using processMessage_done [OF assms Inr q] by metis
    have w': "w' = snd (CommitMessages e (cw_group c) m w3)" using st(4) by simp
    show ?thesis
      using st(1) Inr status_publisher.publish_kafka [OF st(3)] status_publisher.publish_tables [OF st(3)]
        same_store_fields [OF st(2)]
      unfolding w' same_pg_def commit_tables by auto
  next
    case False
    then have "w' = w"
      using assms Inr by (auto simp: processMessage_def split: option.splits sum.splits prod.splits)
    then show ?thesis by (simp add: same_pg_def)
  qed
qed

lemma processMessage_publishes:
  assumes "no_faults e" "processMessage e c m (w, s) = Some (r, w', s')" "Unmarshal dec_dispatch (k_value m) = Inr d"
    and "waitForSlot (cw_redis c) (cw_text c) (cw_limiter c) (cw_defaultPerCampaign c) (cw_poll c) d s = Some (Inr q, s1)"
  obtains sm t where "answers c d sm" "same_pg w w'"
    "w_kafka w' = w_kafka w @ [\<lparr>k_topic = cw_statusTopic c, k_key = sm_CallID sm, k_value = enc_status sm, k_time = t\<rparr>]"
proof -
  obtain sm w2 w3 p cm where st: "answers c d sm" "same_store w w2"
      "PublishStatus e (cw_statusTopic c) sm w2 = (p, w3)" "CommitMessages e (cw_group c) m w3 = (cm, w')"
    using processMessage_done [OF assms(2-4)] by metis
  have "p = None"
    using status_publisher.publish_ok [OF assms(1), of "cw_statusTopic c" sm w2] st(3) by simp
  then have "w_kafka w3 = w_kafka w @ [\<lparr>k_topic = cw_statusTopic c, k_key = sm_CallID sm, k_value = enc_status sm,
      k_time = utc (now_at e (now_n w2))\<rparr>]"
    using status_publisher.publish_kafka [OF st(3)] same_store_fields(8) [OF st(2)] by simp
  moreover have "w_kafka w' = w_kafka w3"
    using commit_tables(4) [of e "cw_group c" m w3] st(4) by simp
  ultimately show thesis
    using that [OF st(1)] process_effect [OF assms(2)] by simp
qed

text \<open>What the call worker reports for a call that the provider could place.\<close>

lemma make_status_placed:
  "sm_Status (make_status d res None t) = res_Status res"
  "sm_Retryable (make_status d res None t) \<longleftrightarrow> res_Retryable res \<and> dm_Attempt d < dm_MaxAttempts d"
  by (simp_all add: make_status_def Let_def)

lemma placed_status:
  assumes "answers c d sm" "cw_provider c (if cw_timeout c \<le> 0 then 10 * Second else cw_timeout c) d = (res, None)"
  shows "sm_Status sm = res_Status res" "sm_Retryable sm \<longleftrightarrow> res_Retryable res \<and> dm_Attempt d < dm_MaxAttempts d"
    "sm_PhoneNumber sm = dm_PhoneNumber d"
  using assms by (auto simp: answers_def make_status_placed)

text \<open>The counters after the first attempt of a call.\<close>

definition after_first_attempt :: "Result \<Rightarrow> Campaign \<Rightarrow> CampaignStats \<Rightarrow> CampaignStats" where
  "after_first_attempt res campaign st =
     (if res_Status res = CallStatusCompleted then st\<lparr>TotalCalls := TotalCalls st + 1, CompletedCalls := CompletedCalls st + 1\<rparr>
      else if res_Status res = CallStatusFailed \<and> \<not> (res_Retryable res \<and> 1 < MaxAttempts (c_RetryPolicy campaign))
      then st\<lparr>TotalCalls := TotalCalls st + 1, FailedCalls := FailedCalls st + 1\<rparr>
      else st\<lparr>TotalCalls := TotalCalls st + 1, PendingCalls := PendingCalls st + 1\<rparr>)"

lemma first_attempt_counted:
  assumes "sm_Status sm = res_Status res" "sm_Retryable sm \<longleftrightarrow> res_Retryable res \<and> 1 < MaxAttempts (c_RetryPolicy campaign)"
    and "sm_Attempt sm = 1"
  shows "add_delta (status_delta sm) (add_delta trigger_delta st) = after_first_attempt res campaign st"
  using assms by (simp add: after_first_attempt_def deltas call_statuses)

lemma call_first_attempt:
  assumes e: "no_faults e" "env_scans e" and w: "pg_wf w" "campaign_at (tc_CampaignID input) w = Some campaign"
    and input: "int64 dc" "tc_CampaignID input \<noteq> uuid_Nil"
    and t: "TriggerCall e topic dc input w = (Inr call, w1)"
    and q: "waitForSlot (cw_redis c) (cw_text c) (cw_limiter c) (cw_defaultPerCampaign c) (cw_poll c)
        (new_dispatch input campaign dc (call_ID call) (call_CreatedAt call)) s = Some (Inr q, s1)"
    and pl: "cw_provider c (if cw_timeout c \<le> 0 then 10 * Second else cw_timeout c)
        (new_dispatch input campaign dc (call_ID call) (call_CreatedAt call)) = (res, None)" "int64 (res_Duration res)"
    and p: "processMessage e c (last (w_kafka w1)) (w1, s) = Some (r, w2, s2)"
  obtains sm tm where "Unmarshal dec_status (k_value (last (w_kafka w2))) = Inr sm" "wf_status sm"
    "last (w_kafka w2) = \<lparr>k_topic = cw_statusTopic c, k_key = call_ID call, k_value = enc_status sm, k_time = tm\<rparr>"
    "sm_CampaignID sm = tc_CampaignID input" "sm_CallID sm = call_ID call" "sm_Attempt sm = 1"
    "sm_PhoneNumber sm = tc_PhoneNumber input" "sm_Status sm = res_Status res"
    "sm_Retryable sm \<longleftrightarrow> res_Retryable res \<and> 1 < MaxAttempts (c_RetryPolicy campaign)"
    "sm_NextAttempt sm \<noteq> None \<longleftrightarrow> sm_Retryable sm"
    "w_stats w2 = (w_stats w)(tc_CampaignID input := map_option (add_delta trigger_delta) (w_stats w (tc_CampaignID input)))"
    "last (w_kafka w2) \<in> set (w_kafka w2)" "last (w_kafka w1) \<in> set (w_kafka w1)" "k_topic (last (w_kafka w1)) = topic"
proof -
  let ?d = "new_dispatch input campaign dc (call_ID call) (call_CreatedAt call)"
  obtain tm where k: "w_kafka w1 = w_kafka w @ [\<lparr>k_topic = topic, k_key = call_ID call, k_value = enc_dispatch ?d, k_time = tm\<rparr>]"
      and st: "stats_moved (add_delta trigger_delta) (tc_CampaignID input) w w1"
    using TriggerCall_dispatches [OF t e(2)] w(2) by auto
  have d: "wf_dispatch ?d"
    by (rule new_dispatch_wf [OF campaign_at_typed [OF w(2,1)] input(1)])
  then have u: "Unmarshal dec_dispatch (k_value (last (w_kafka w1))) = Inr ?d"
    by (simp add: k dispatch_roundtrip_aux)
  obtain sm tm2 where a: "answers c ?d sm" "same_pg w1 w2"
      "w_kafka w2 = w_kafka w1 @ [\<lparr>k_topic = cw_statusTopic c, k_key = sm_CallID sm, k_value = enc_status sm, k_time = tm2\<rparr>]"
    using processMessage_publishes [OF e(1) p u q] by metis
  have wf: "wf_status sm"
    using answers_wf [OF a(1) d] pl by simp
  have "Unmarshal dec_status (k_value (last (w_kafka w2))) = Inr sm"
    using wf by (simp add: a(3) status_roundtrip_aux)
  then show thesis
    using that [of sm tm2] wf a(2,3) k st answers_fields [OF a(1)] placed_status [OF a(1) pl(1)]
    by (simp add: same_pg_def stats_moved_def)
qed

text \<open>A retryable status is handed to the retry topic of its attempt.\<close>

lemma status_step_schedules:
  assumes "no_faults e" "Unmarshal dec_status (k_value m) = Inr sm" "sm_Retryable sm" "sm_NextAttempt sm = Some nx"
    and "0 < sm_Attempt sm" "sm_Attempt sm \<le> int (length (sw_retryTopics sw))"
  shows "\<exists>t. w_kafka (status_step e sw m w) = w_kafka w @
    [\<lparr>k_topic = sw_retryTopics sw ! nat (sm_Attempt sm - 1), k_key = sm_CallID sm,
      k_value = enc_retry (retry_message sm nx), k_time = t\<rparr>]"
proof -
  obtain w3 w4 where p: "rest_is w w3"
    "w4 = count_status e sm w3" "status_step e sw m w = snd (CommitMessages e (sw_group sw) m (schedule_status e sw sm w4))"
    using status_step_parts [OF assms(2)] by metis
  have w4: "w_kafka w4 = w_kafka w"
    using p(1,2) by (simp add: rest_is_def count_status_tables)
  obtain r w5 where r: "ScheduleRetry e (sw_retryTopics sw) (sm_Attempt sm) (retry_message sm nx) w4 = (r, w5)" by force
  have "r = None"
    using ScheduleRetry_ok [OF assms(1,5,6), of "retry_message sm nx" w4] r by simp
  then have "published w4 \<lparr>k_topic = sw_retryTopics sw ! nat (sm_Attempt sm - 1),
      k_key = dm_CallID (rm_DispatchMessage (retry_message sm nx)),
      k_value = enc_retry (retry_message sm nx), k_time = utc (now_at e (now_n w4))\<rparr> w5"
    using ScheduleRetry_in_range [OF assms(5,6) r] by simp
  from published_fields(1) [OF this] show ?thesis
    using w4 r assms(3,4) by (simp add: p(3) commit_tables schedule_status_def) (simp add: retry_message_def)
qed

lemma retry_step_sends:
  assumes "no_faults e" "Unmarshal dec_retry (k_value m) = Inr rm"
  shows "\<exists>now t. w_kafka (retry_step e rw None m w) = w_kafka w @
      [\<lparr>k_topic = rw_callTopic rw, k_key = dm_CallID (rm_DispatchMessage rm),
        k_value = enc_dispatch ((rm_DispatchMessage rm)\<lparr>dm_EnqueuedAt := now\<rparr>), k_time = t\<rparr>]"
  using assms
  by (auto simp: retry_step_def sleepUntil_def Now_def DispatchCall_def run_stmt_ok append_record_def
      CommitMessages_def exec_ok)

lemma retry_message_fields [simp]:
  "dm_CallID (rm_DispatchMessage (retry_message sm nx)) = sm_CallID sm"
  "dm_CampaignID (rm_DispatchMessage (retry_message sm nx)) = sm_CampaignID sm"
  "dm_PhoneNumber (rm_DispatchMessage (retry_message sm nx)) = sm_PhoneNumber sm"
  "dm_Attempt (rm_DispatchMessage (retry_message sm nx)) = wrap64 (sm_Attempt sm + 1)"
  by (simp_all add: retry_message_def)

lemma call_reported:
  assumes e: "no_faults e" "env_scans e" and w: "pg_wf w" "campaign_at (tc_CampaignID input) w = Some campaign"
    and input: "int64 dc" "tc_CampaignID input \<noteq> uuid_Nil"
    and t: "TriggerCall e topic dc input w = (Inr call, w1)"
    and q: "waitForSlot (cw_redis c) (cw_text c) (cw_limiter c) (cw_defaultPerCampaign c) (cw_poll c)
        (new_dispatch input campaign dc (call_ID call) (call_CreatedAt call)) s = Some (Inr q, s1)"
    and pl: "cw_provider c (if cw_timeout c \<le> 0 then 10 * Second else cw_timeout c)
        (new_dispatch input campaign dc (call_ID call) (call_CreatedAt call)) = (res, None)" "int64 (res_Duration res)"
    and p: "processMessage e c (last (w_kafka w1)) (w1, s) = Some (r, w2, s2)"
    and st: "w_stats w (tc_CampaignID input) = Some st" "stats_in_range (after_first_attempt res campaign st)"
  shows "w_stats (status_step e sw (last (w_kafka w2)) w2) (tc_CampaignID input) = Some (after_first_attempt res campaign st)"
    (is ?counted)
    and "res_Retryable res \<and> 1 < MaxAttempts (c_RetryPolicy campaign) \<and> sw_retryTopics sw \<noteq> [] \<longrightarrow>
      (\<exists>rm tm. last (w_kafka (status_step e sw (last (w_kafka w2)) w2)) =
           \<lparr>k_topic = hd (sw_retryTopics sw), k_key = call_ID call, k_value = enc_retry rm, k_time = tm\<rparr>
         \<and> wf_dispatch (rm_DispatchMessage rm) \<and> int64 (rm_MaxAttempts rm)
         \<and> dm_CallID (rm_DispatchMessage rm) = call_ID call \<and> dm_CampaignID (rm_DispatchMessage rm) = tc_CampaignID input
         \<and> dm_PhoneNumber (rm_DispatchMessage rm) = tc_PhoneNumber input \<and> dm_Attempt (rm_DispatchMessage rm) = 2
         \<and> w_kafka (status_step e sw (last (w_kafka w2)) w2) \<noteq> [])" (is ?retried)
proof -
  let ?m = "last (w_kafka w2)"
  obtain sm where sm: "Unmarshal dec_status (k_value ?m) = Inr sm" "wf_status sm" "sm_CampaignID sm = tc_CampaignID input"
      "sm_CallID sm = call_ID call" "sm_Attempt sm = 1" "sm_PhoneNumber sm = tc_PhoneNumber input" "sm_Status sm = res_Status res"
      "sm_Retryable sm \<longleftrightarrow> res_Retryable res \<and> 1 < MaxAttempts (c_RetryPolicy campaign)"
      "sm_NextAttempt sm \<noteq> None \<longleftrightarrow> sm_Retryable sm"
      "w_stats w2 = (w_stats w)(tc_CampaignID input := map_option (add_delta trigger_delta) (w_stats w (tc_CampaignID input)))"
    using call_first_attempt [OF e w input t q pl p] by metis
  have st2: "w_stats w2 (sm_CampaignID sm) = Some (add_delta trigger_delta st)"
    using sm(3,10) st(1) by simp
  note d = first_attempt_counted [OF sm(7,8,5), of st]
  show ?counted
    using status_step_counts [OF e(1) sm(1) st2] st(2) input(2) d sm(3) by simp
  show ?retried
  proof
    assume r: "res_Retryable res \<and> 1 < MaxAttempts (c_RetryPolicy campaign) \<and> sw_retryTopics sw \<noteq> []"
    then obtain nx where nx: "sm_NextAttempt sm = Some nx" "sm_Retryable sm" using sm(8,9) by auto
    have "1 \<le> int (length (sw_retryTopics sw))" using r by (cases "sw_retryTopics sw") auto
    then obtain tm where "w_kafka (status_step e sw ?m w2) = w_kafka w2 @
        [\<lparr>k_topic = sw_retryTopics sw ! 0, k_key = call_ID call, k_value = enc_retry (retry_message sm nx), k_time = tm\<rparr>]"
      using status_step_schedules [OF e(1) sm(1) nx(2,1), of sw w2] sm(4,5) by auto
    then show "\<exists>rm tm. last (w_kafka (status_step e sw ?m w2)) =
           \<lparr>k_topic = hd (sw_retryTopics sw), k_key = call_ID call, k_value = enc_retry rm, k_time = tm\<rparr>
         \<and> wf_dispatch (rm_DispatchMessage rm) \<and> int64 (rm_MaxAttempts rm)
         \<and> dm_CallID (rm_DispatchMessage rm) = call_ID call \<and> dm_CampaignID (rm_DispatchMessage rm) = tc_CampaignID input
         \<and> dm_PhoneNumber (rm_DispatchMessage rm) = tc_PhoneNumber input \<and> dm_Attempt (rm_DispatchMessage rm) = 2
         \<and> w_kafka (status_step e sw ?m w2) \<noteq> []"
      using retry_message_wf [OF sm(2), of nx] sm(3-6) r
      by (intro exI [of _ "retry_message sm nx"]) (simp add: hd_conv_nth int64_def)
  qed
qed

subsection \<open>A run of the system\<close>

text \<open>The sample configuration with a faultless environment and a provider whose calls all fail.\<close>

definition sample_deployment :: "memory deployment" where
  "sample_deployment = \<lparr>dp_env = (\<lambda>e. e = sample_env), dp_loc = sample_zones,
     dp_parse = (\<lambda>s. if s = ''one'' then Inr 1 else Inl (New ''invalid UUID'')), dp_cfg = sample_config,
     dp_redis = memory_redis, dp_text = sample_text\<rparr>"

definition sample_outcome :: "memory call_outcome" where
  "sample_outcome = \<lparr>oc_poll = sample_poll, oc_release = IoOk, oc_provider = failing_provider, oc_oob = 0, oc_rand = 1 / 2\<rparr>"

abbreviation sample_caller :: "memory call_worker" where
  "sample_caller \<equiv> call_worker_of memory_redis sample_text sample_config sample_outcome"

lemma sample_deployment_fields [simp]:
  "dp_env sample_deployment e \<longleftrightarrow> e = sample_env" "dp_loc sample_deployment = sample_zones"
  "dp_cfg sample_deployment = sample_config" "dp_redis sample_deployment = memory_redis" "dp_text sample_deployment = sample_text"
  "dp_parse sample_deployment ''one'' = Inr 1"
  by (simp_all add: sample_deployment_def)

lemma sample_topics [simp]:
  "kc_CallTopic (cfg_Kafka sample_config) = ''dispatch''" "kc_StatusTopic (cfg_Kafka sample_config) = ''status''"
  "kc_RetryTopics (cfg_Kafka sample_config) = [''retry.1'', ''retry.2'']"
  by (simp_all add: sample_config_def)

lemma sample_typed: "typed_provider (oc_provider sample_outcome)" "typed_deployment sample_deployment"
  by (simp_all add: typed_provider_def sample_outcome_def failing_provider_def int64_def duration_units
      typed_deployment_def separate_topics_def, simp add: sample_config_def)

lemma sample_sound: "sound sample_deployment"
  by (simp add: sound_def separate_topics_def)

lemma sample_slot:
  assumes "dm_CampaignID d = 1" "dm_ConcurrencyLimit d = 2"
  shows "\<exists>s1. waitForSlot memory_redis sample_text (Some l) n sample_poll d empty_memory = Some (Inr Slot, s1)"
proof -
  have "\<exists>s1. wait_loop memory_redis sample_text l sample_poll 1 2 0 empty_memory = Some (Inr Slot, s1)"
    by (rule wait_loop_slot [where n = 0])
      (simp_all add: uuid_Nil_def sample_poll_def current_def memory_redis_def empty_memory_def)
  then show ?thesis
    using assms by (auto simp: waitForSlot_def uuid_Nil_def)
qed

lemma sample_caller_fields [simp]:
  "cw_redis sample_caller = memory_redis" "cw_text sample_caller = sample_text" "cw_poll sample_caller = sample_poll"
  "cw_provider sample_caller = failing_provider"
  "\<exists>l. cw_limiter sample_caller = Some l"
  by (simp_all add: call_worker_of_def sample_outcome_def)

lemma sample_request:
  assumes "TriggerCall sample_env ''dispatch'' 10 sample_trigger w = (Inr call, w1)"
  shows "system_step sample_deployment (w, s) (w1, s)"
proof (rule system_step.request [where e = sample_env and traceID = "[]" and
    req = "PostCalls (Inr \<lparr>tr_CampaignID = ''one'', tr_PhoneNumber = ''+15550100'', tr_Metadata = None\<rparr>)"])
  show "serve sample_env (api_of (dp_loc sample_deployment) (dp_parse sample_deployment) (dp_cfg sample_deployment)) []
      (PostCalls (Inr \<lparr>tr_CampaignID = ''one'', tr_PhoneNumber = ''+15550100'', tr_Metadata = None\<rparr>)) w =
      (\<lparr>rs_code = 202, rs_body = CallBody (toCallResponse call)\<rparr>, w1)"
    using assms
    by (simp add: serve_def triggerCall_def with_id_def api_of_def Let_def sample_config_def sample_trigger_def)
qed simp

text \<open>The call is triggered, its first attempt fails and is reported, and the retry worker dispatches the
  second attempt.\<close>

lemma sample_first_attempt:
  obtains call w1 w2 s2 r where "TriggerCall sample_env ''dispatch'' 10 sample_trigger sample_world = (Inr call, w1)"
    "processMessage sample_env sample_caller (last (w_kafka w1)) (w1, empty_memory) = Some (r, w2, s2)"
    "\<exists>q s1. waitForSlot (cw_redis sample_caller) (cw_text sample_caller) (cw_limiter sample_caller)
       (cw_defaultPerCampaign sample_caller) (cw_poll sample_caller)
       (new_dispatch sample_trigger (toDomain sample_row) 10 (call_ID call) (call_CreatedAt call)) empty_memory = Some (Inr q, s1)"
proof -
  obtain call w1 where c: "TriggerCall sample_env ''dispatch'' 10 sample_trigger sample_world = (Inr call, w1)"
    using TriggerCall_ok [OF sample_no_faults sample_scans sample_world_wf sample_trigger_facts] by blast
  let ?d = "new_dispatch sample_trigger (toDomain sample_row) 10 (call_ID call) (call_CreatedAt call)"
  obtain tm where k: "w_kafka w1 = w_kafka sample_world @
      [\<lparr>k_topic = ''dispatch'', k_key = call_ID call, k_value = enc_dispatch ?d, k_time = tm\<rparr>]"
    using TriggerCall_dispatches [OF c sample_scans] sample_trigger_facts(1) by auto
  have "wf_dispatch ?d"
    using new_dispatch_wf [OF campaign_at_typed [OF sample_trigger_facts(1) sample_world_wf]] by (simp add: int64_def)
  then have u: "Unmarshal dec_dispatch (k_value (last (w_kafka w1))) = Inr ?d"
    by (simp add: k dispatch_roundtrip_aux)
  obtain l where l: "cw_limiter sample_caller = Some l"
    using sample_caller_fields(5) by blast
  have "dm_CampaignID ?d = 1" "dm_ConcurrencyLimit ?d = 2"
    by (simp_all add: sample_trigger_def new_dispatch_def toDomain_def sample_row_def)
  from sample_slot [OF this, of l "cw_defaultPerCampaign sample_caller"]
  obtain s1 where q: "waitForSlot (cw_redis sample_caller) (cw_text sample_caller) (cw_limiter sample_caller)
      (cw_defaultPerCampaign sample_caller) (cw_poll sample_caller) ?d empty_memory = Some (Inr Slot, s1)"
    by (auto simp: l)
  obtain r w2 s2 where "processMessage sample_env sample_caller (last (w_kafka w1)) (w1, empty_memory) = Some (r, w2, s2)"
    using processMessage_total [OF u q] by blast
  then show thesis using that c q by blast
qed

definition busy :: Result where
  "busy = \<lparr>res_Status = CallStatusFailed, res_Duration = 5 * Second, res_Retryable = True, res_Error = ''busy''\<rparr>"

lemma sample_input: "int64 10" "tc_CampaignID sample_trigger \<noteq> uuid_Nil"
  by (simp_all add: sample_trigger_def int64_def uuid_Nil_def)

lemma sample_placed:
  "cw_provider sample_caller (if cw_timeout sample_caller \<le> 0 then 10 * Second else cw_timeout sample_caller) d = (busy, None)"
  "int64 (res_Duration busy)"
  by (simp_all add: failing_provider_def busy_def int64_def duration_units)

lemma sample_counters:
  "w_stats sample_world (tc_CampaignID sample_trigger) = Some zero_stats"
  "stats_in_range (after_first_attempt busy (toDomain sample_row) zero_stats)"
  by (simp_all add: sample_trigger_def sample_world_def after_first_attempt_def zero_stats_def stats_in_range_def int64_def
      toDomain_def sample_row_def call_statuses busy_def)

lemma sample_reported:
  obtains call w1 w2 s2 r rm tm where "TriggerCall sample_env ''dispatch'' 10 sample_trigger sample_world = (Inr call, w1)"
    "processMessage sample_env sample_caller (last (w_kafka w1)) (w1, empty_memory) = Some (r, w2, s2)"
    "last (w_kafka w1) \<in> set (w_kafka w1)" "k_topic (last (w_kafka w1)) = ''dispatch''"
    "last (w_kafka w2) \<in> set (w_kafka w2)" "k_topic (last (w_kafka w2)) = ''status''"
    "last (w_kafka (status_step sample_env (status_worker_of sample_config) (last (w_kafka w2)) w2)) =
       \<lparr>k_topic = ''retry.1'', k_key = call_ID call, k_value = enc_retry rm, k_time = tm\<rparr>"
    "w_kafka (status_step sample_env (status_worker_of sample_config) (last (w_kafka w2)) w2) \<noteq> []"
    "wf_dispatch (rm_DispatchMessage rm)" "int64 (rm_MaxAttempts rm)" "dm_Attempt (rm_DispatchMessage rm) = 2"
proof -
  let ?sw = "status_worker_of sample_config"
  obtain call w1 w2 s2 r q s1 where c: "TriggerCall sample_env ''dispatch'' 10 sample_trigger sample_world = (Inr call, w1)"
    and p: "processMessage sample_env sample_caller (last (w_kafka w1)) (w1, empty_memory) = Some (r, w2, s2)"
    and q: "waitForSlot (cw_redis sample_caller) (cw_text sample_caller) (cw_limiter sample_caller)
       (cw_defaultPerCampaign sample_caller) (cw_poll sample_caller)
       (new_dispatch sample_trigger (toDomain sample_row) 10 (call_ID call) (call_CreatedAt call)) empty_memory = Some (Inr q, s1)"
    using sample_first_attempt by metis
  note first = sample_no_faults sample_scans sample_world_wf sample_trigger_facts(1) sample_input c q sample_placed p
  have m: "last (w_kafka w1) \<in> set (w_kafka w1) \<and> k_topic (last (w_kafka w1)) = ''dispatch''
      \<and> last (w_kafka w2) \<in> set (w_kafka w2) \<and> k_topic (last (w_kafka w2)) = ''status''"
    by (rule call_first_attempt [OF first]) simp
  have "\<exists>rm tm. last (w_kafka (status_step sample_env ?sw (last (w_kafka w2)) w2)) =
       \<lparr>k_topic = ''retry.1'', k_key = call_ID call, k_value = enc_retry rm, k_time = tm\<rparr>
       \<and> wf_dispatch (rm_DispatchMessage rm) \<and> int64 (rm_MaxAttempts rm) \<and> dm_Attempt (rm_DispatchMessage rm) = 2
       \<and> w_kafka (status_step sample_env ?sw (last (w_kafka w2)) w2) \<noteq> []"
    using call_reported(2) [OF first sample_counters, of ?sw] by (auto simp: toDomain_def sample_row_def busy_def)
  then show thesis using that [OF c p] m by blast
qed

lemma sample_second_attempt:
  obtains w s js m d where "interleaved_run sample_deployment (sample_world, empty_memory, []) (w, s, js)" "m \<in> set (w_kafka w)"
    "k_topic m = ''dispatch''" "Unmarshal dec_dispatch (k_value m) = Inr d" "dm_Attempt d = 2"
proof -
  let ?step = "system_step sample_deployment" and ?sw = "status_worker_of sample_config"
  obtain call w1 w2 s2 r rm tm where c: "TriggerCall sample_env ''dispatch'' 10 sample_trigger sample_world = (Inr call, w1)"
    and p: "processMessage sample_env sample_caller (last (w_kafka w1)) (w1, empty_memory) = Some (r, w2, s2)"
    and m: "last (w_kafka w1) \<in> set (w_kafka w1)" "k_topic (last (w_kafka w1)) = ''dispatch''"
      "last (w_kafka w2) \<in> set (w_kafka w2)" "k_topic (last (w_kafka w2)) = ''status''"
    and l: "last (w_kafka (status_step sample_env ?sw (last (w_kafka w2)) w2)) =
       \<lparr>k_topic = ''retry.1'', k_key = call_ID call, k_value = enc_retry rm, k_time = tm\<rparr>"
      "w_kafka (status_step sample_env ?sw (last (w_kafka w2)) w2) \<noteq> []"
    and rm: "wf_dispatch (rm_DispatchMessage rm)" "int64 (rm_MaxAttempts rm)" "dm_Attempt (rm_DispatchMessage rm) = 2"
    using sample_reported by metis
  let ?w3 = "status_step sample_env ?sw (last (w_kafka w2)) w2" and ?rw = "retry_worker_of sample_config 0"
  let ?w4 = "retry_step sample_env ?rw None (last (w_kafka ?w3)) ?w3"
  let ?d = "(rm_DispatchMessage rm)\<lparr>dm_MaxAttempts := 0\<rparr>"
  have "Unmarshal dec_retry (k_value (last (w_kafka ?w3))) = Inr (rm\<lparr>rm_DispatchMessage := ?d\<rparr>)"
    using retry_roundtrip_aux [OF rm(1,2)] by (simp add: l(1))
  from retry_step_sends [OF sample_no_faults this, of ?rw ?w3]
  obtain now t where w4: "w_kafka ?w4 = w_kafka ?w3 @ [\<lparr>k_topic = ''dispatch'', k_key = dm_CallID ?d,
      k_value = enc_dispatch (?d\<lparr>dm_EnqueuedAt := now\<rparr>), k_time = t\<rparr>]" by auto
  have "?step (sample_world, empty_memory) (w1, empty_memory)"
    by (rule sample_request [OF c])
  moreover have "?step (w1, empty_memory) (w2, s2)"
    using system_step.call [of sample_deployment sample_env "last (w_kafka w1)" w1 sample_outcome] m p sample_typed by simp
  moreover have "?step (w2, s2) (?w3, s2)"
    using system_step.status [of sample_deployment sample_env "last (w_kafka w2)" w2] m by simp
  moreover have "?step (?w3, s2) (?w4, s2)"
    using system_step.retry [of sample_deployment sample_env "last (w_kafka ?w3)" ?w3 0] last_in_set [OF l(2)]
    by (simp add: l(1))
  ultimately have "system_run sample_deployment (sample_world, empty_memory) (?w4, s2)"
    by (meson converse_rtranclp_into_rtranclp rtranclp.rtrancl_refl)
  then obtain js where run: "interleaved_run sample_deployment (sample_world, empty_memory, []) (?w4, s2, js)"
    using run_interleaved [of sample_deployment "(sample_world, empty_memory)" "(?w4, s2)" "[]"] by auto
  have "wf_dispatch (?d\<lparr>dm_EnqueuedAt := now\<rparr>)"
    using rm(1) by (simp add: wf_dispatch_def int64_def)
  then show thesis
    using that [OF run, of "last (w_kafka ?w4)"] w4 rm(3) dispatch_roundtrip_aux by simp
qed

lemma sample_log: "w_kafka sample_world = []"
  by (simp add: sample_world_def empty_world_def)

lemma retry_decodes:
  "wf_dispatch (rm_DispatchMessage m) \<Longrightarrow> int64 (rm_MaxAttempts m) \<Longrightarrow>
   \<exists>rm. Unmarshal dec_retry (enc_retry m) = Inr rm \<and> wf_dispatch (rm_DispatchMessage rm) \<and> int64 (rm_MaxAttempts rm)"
  by (auto simp: retry_roundtrip_aux wf_dispatch_def) (simp add: int64_def)

text \<open>What a run that starts with an empty log leaves in the log.\<close>

lemma empty_log: "w_kafka w = [] \<Longrightarrow> log_of D KD KS KR w"
  by (simp add: log_of_def)

lemma run_lawful:
  assumes "sound D" "w_kafka w = []" "interleaved_run D (w, s, []) (w', s', js)"
    and "m \<in> set (w_kafka w')" "k_topic m = call_topic D" "Unmarshal dec_dispatch (k_value m) = Inr d"
  shows "lawful_dispatch d w'"
  using messages.reads_dispatch [of D w' m d] messages.requests.pool_keeps [OF assms(3)] empty_log [OF assms(2)] assms by blast

subsection \<open>Properties\<close>

text \<open>C1: Only registered numbers are ever called. In every run of the system that starts with an empty
  log, however the requests of its processes interleave, whatever fails, wherever a process dies and
  however often messages are redelivered, each dispatch message a call worker can read from the call
  topic is for a phone number registered as a target of the message's campaign.\<close>

theorem only_registered_numbers_called:
  assumes "sound D" "w_kafka w = []" "interleaved_run D (w, s, []) (w', s', js)"
    and "m \<in> set (w_kafka w')" "k_topic m = call_topic D" "Unmarshal dec_dispatch (k_value m) = Inr d"
  shows "dm_PhoneNumber d \<in> phones_of (dm_CampaignID d) w'"
  using run_lawful [OF assms] by (simp add: lawful_dispatch_def)

theorem only_registered_numbers_called_witness:
  "\<exists>w s js m d. interleaved_run sample_deployment (sample_world, empty_memory, []) (w, s, js) \<and> m \<in> set (w_kafka w)
     \<and> Unmarshal dec_dispatch (k_value m) = Inr d \<and> dm_Attempt d = 2 \<and> dm_PhoneNumber d \<in> phones_of (dm_CampaignID d) w"
proof -
  obtain w s js m d where r: "interleaved_run sample_deployment (sample_world, empty_memory, []) (w, s, js)" "m \<in> set (w_kafka w)"
      "k_topic m = ''dispatch''" "Unmarshal dec_dispatch (k_value m) = Inr d" "dm_Attempt d = 2"
    by (rule sample_second_attempt)
  from only_registered_numbers_called [OF sample_sound sample_log r(1,2) _ r(4)] r show ?thesis by auto
qed

text \<open>C5: Whatever maximal number of attempts a campaign is given, no call is ever dispatched for a third
  attempt, in any interleaving: a dispatch message a call worker can read is for the first attempt,
  or for the second, and then it allows no attempts at all.\<close>

theorem at_most_two_attempts:
  assumes "sound D" "w_kafka w = []" "interleaved_run D (w, s, []) (w', s', js)"
    and "m \<in> set (w_kafka w')" "k_topic m = call_topic D" "Unmarshal dec_dispatch (k_value m) = Inr d"
  shows "dm_Attempt d = 1 \<or> dm_Attempt d = 2 \<and> dm_MaxAttempts d = 0"
  using run_lawful [OF assms] by (simp add: lawful_dispatch_def)

theorem at_most_two_attempts_witness:
  "\<exists>w s js m d. interleaved_run sample_deployment (sample_world, empty_memory, []) (w, s, js) \<and> m \<in> set (w_kafka w)
     \<and> Unmarshal dec_dispatch (k_value m) = Inr d \<and> dm_Attempt d = 2 \<and> dm_MaxAttempts d = 0
     \<and> r_retry_max_attempts sample_row = 5"
proof -
  obtain w s js m d where r: "interleaved_run sample_deployment (sample_world, empty_memory, []) (w, s, js)" "m \<in> set (w_kafka w)"
      "k_topic m = ''dispatch''" "Unmarshal dec_dispatch (k_value m) = Inr d" "dm_Attempt d = 2"
    by (rule sample_second_attempt)
  from at_most_two_attempts [OF sample_sound sample_log r(1,2) _ r(4)] r have "dm_MaxAttempts d = 0" by simp
  with r show ?thesis by (auto simp: sample_row_def)
qed



text \<open>C2: The counters of every campaign stay sound in every interleaving of the processes: whatever fails
  and wherever a process dies, at most as many calls are completed, failed or pending as were counted,
  and none of the counters of finished calls and of retries is negative; the counter of calls in
  progress is never used. When no request fails, every call counted is completed, failed or pending.\<close>

theorem system_counters:
  assumes "interleaved_run D (w, s, []) (w', s', js)" "all_stats counters_ok w" "w_stats w' i = Some c"
  shows "0 \<le> CompletedCalls c \<and> 0 \<le> FailedCalls c \<and> 0 \<le> RetriesAttempted c \<and> InProgressCalls c = 0
     \<and> CompletedCalls c + FailedCalls c + PendingCalls c \<le> TotalCalls c
     \<and> (faultless D \<and> all_balanced w \<longrightarrow> TotalCalls c = CompletedCalls c + FailedCalls c + PendingCalls c)"
proof -
  have "counters_ok c"
    using bounded.pool_keeps [OF assms(1,2)] assms(3) by (simp add: all_stats_def)
  moreover have "faultless D \<and> all_balanced w \<longrightarrow> balanced c"
    using exact.pool_keeps [OF assms(1)] assms(3) by (auto simp: all_stats_def all_balanced_def)
  ultimately show ?thesis by (simp add: counters_ok_def balanced_def)
qed

theorem system_counters_witness:
  "\<exists>w s js. interleaved_run sample_deployment (sample_world, empty_memory, []) (w, s, js) \<and> w_kafka w \<noteq> []
     \<and> (case w_stats w 1 of None \<Rightarrow> True | Some c \<Rightarrow> TotalCalls c = CompletedCalls c + FailedCalls c + PendingCalls c)"
proof -
  obtain w s js m where r: "interleaved_run sample_deployment (sample_world, empty_memory, []) (w, s, js)" "m \<in> set (w_kafka w)"
    by (rule sample_second_attempt)
  have "all_stats counters_ok sample_world" "all_balanced sample_world" "faultless sample_deployment"
    by (auto simp: all_stats_def all_balanced_def counters_ok_def balanced_def sample_world_def zero_stats_def faultless_def)
  then show ?thesis
    using system_counters [OF r(1), of 1] r by (intro exI [of _ w] exI [of _ s] exI [of _ js]) (auto split: option.splits)
qed





text \<open>C4: The life of a call, from its trigger through the call worker to the status worker: when no request
  fails and the provider places the call, the counters of its campaign have gone up by one in the
  total and, for a completed call, in the completed calls, for a call that failed for good, in the
  failed calls, and otherwise in the pending calls; a call that may be retried is scheduled on the
  first retry topic for its second attempt, to the same number.\<close>

theorem call_life:
  assumes "no_faults e" "env_scans e" "pg_wf w" "campaign_at (tc_CampaignID input) w = Some campaign"
    and "int64 dc" "tc_CampaignID input \<noteq> uuid_Nil"
    and "TriggerCall e topic dc input w = (Inr call, w1)"
    and "waitForSlot (cw_redis c) (cw_text c) (cw_limiter c) (cw_defaultPerCampaign c) (cw_poll c)
        (new_dispatch input campaign dc (call_ID call) (call_CreatedAt call)) s = Some (Inr q, s1)"
    and "cw_provider c (if cw_timeout c \<le> 0 then 10 * Second else cw_timeout c)
        (new_dispatch input campaign dc (call_ID call) (call_CreatedAt call)) = (res, None)" "int64 (res_Duration res)"
    and "processMessage e c (last (w_kafka w1)) (w1, s) = Some (r, w2, s2)"
    and "w_stats w (tc_CampaignID input) = Some st" "stats_in_range (after_first_attempt res campaign st)"
    and "w3 = status_step e sw (last (w_kafka w2)) w2"
  shows "w_stats w3 (tc_CampaignID input) = Some (after_first_attempt res campaign st)
    \<and> (res_Retryable res \<and> 1 < MaxAttempts (c_RetryPolicy campaign) \<and> sw_retryTopics sw \<noteq> [] \<longrightarrow>
        (\<exists>rm t. last (w_kafka w3) =
             \<lparr>k_topic = hd (sw_retryTopics sw), k_key = call_ID call, k_value = enc_retry rm, k_time = t\<rparr>
           \<and> dm_CallID (rm_DispatchMessage rm) = call_ID call \<and> dm_CampaignID (rm_DispatchMessage rm) = tc_CampaignID input
           \<and> dm_PhoneNumber (rm_DispatchMessage rm) = tc_PhoneNumber input \<and> dm_Attempt (rm_DispatchMessage rm) = 2))"
  using call_reported [OF assms(1-13), of sw] unfolding assms(14) by blast

theorem call_life_witness:
  "\<exists>call w1 r w2 s2 c. TriggerCall sample_env ''dispatch'' 10 sample_trigger sample_world = (Inr call, w1)
     \<and> processMessage sample_env sample_caller (last (w_kafka w1)) (w1, empty_memory) = Some (r, w2, s2)
     \<and> w_stats (status_step sample_env (status_worker_of sample_config) (last (w_kafka w2)) w2) 1 = Some c
     \<and> TotalCalls c = 1 \<and> PendingCalls c = 1 \<and> FailedCalls c = 0"
proof -
  obtain call w1 w2 s2 r q s1 where c: "TriggerCall sample_env ''dispatch'' 10 sample_trigger sample_world = (Inr call, w1)"
    and p: "processMessage sample_env sample_caller (last (w_kafka w1)) (w1, empty_memory) = Some (r, w2, s2)"
    and q: "waitForSlot (cw_redis sample_caller) (cw_text sample_caller) (cw_limiter sample_caller)
       (cw_defaultPerCampaign sample_caller) (cw_poll sample_caller)
       (new_dispatch sample_trigger (toDomain sample_row) 10 (call_ID call) (call_CreatedAt call)) empty_memory = Some (Inr q, s1)"
    using sample_first_attempt by metis
  have "w_stats (status_step sample_env (status_worker_of sample_config) (last (w_kafka w2)) w2) (tc_CampaignID sample_trigger) =
      Some (after_first_attempt busy (toDomain sample_row) zero_stats)"
    using call_life [OF sample_no_faults sample_scans sample_world_wf sample_trigger_facts(1) sample_input c q sample_placed p
        sample_counters refl, of "status_worker_of sample_config"] by blast
  then show ?thesis
    using c p by (auto simp: after_first_attempt_def busy_def toDomain_def sample_row_def zero_stats_def sample_trigger_def call_statuses)
qed

end
