(* ===== verification/Races.thy ===== *)
theory Races
  imports System_Laws
begin

text \<open>
  What the interleaving of the processes costs. The operations read, decide and write in separate
  requests without a lock or a version check, so two of them that overlap can end in a state that
  neither order of the two reaches.
\<close>

lemma ask_steps: "op w = (a, w') \<Longrightarrow> k a = j \<Longrightarrow> job_step\<^sup>*\<^sup>* (ask op k, w, s) (j, w', s)"
  by (intro r_into_rtranclp) (auto simp: ask_def)

subsection \<open>Two schedulers\<close>

lemma can_call_same:
  assumes "same_store w w'" "can_call n i w"
  shows "can_call n i w'"
  using assms(2) wf.I_same [OF assms(1)]
  by (simp add: can_call_def room_def campaign_at_same [OF assms(1)] targets_of_def same_store_fields [OF assms(1)])

lemma trigger_loop_leaves:
  "trigger_loop e sc i ts w = ([], w') \<Longrightarrow> can_call (n + length ts) i w \<Longrightarrow> can_call n i w'"
proof (induction ts arbitrary: w)
  case (Cons t ts)
  let ?in = "\<lparr>tc_CampaignID = i, tc_PhoneNumber = ct_PhoneNumber t, tc_Metadata = ct_Payload t\<rparr>"
  obtain r w1 where t: "TriggerCall e (sc_callTopic sc) (sc_defaultConcurrency sc) ?in w = (r, w1)" by force
  obtain call where c: "r = Inr call" "trigger_loop e sc i ts w1 = ([], w')"
    using Cons.prems(1) t by (auto split: prod.splits sum.splits)
  have "can_call (n + length ts) i w1"
    using can_call_step [OF t [unfolded c(1)]] Cons.prems(2) by simp
  then show ?case using Cons.IH [OF c(2)] by simp
qed simp

lemma claim_sends:
  assumes e: "no_faults e" "env_scans e" and ts: "ts \<noteq> []" "\<forall>t \<in> set ts. ct_PhoneNumber t \<noteq> [] \<and> ct_PhoneNumber t \<in> phones_of i w"
    and w: "can_call (n + length ts) i w"
  shows "\<exists>rs. w_kafka (claim_batch e sc i ts w) = w_kafka w @ rs
    \<and> (\<forall>t \<in> set ts. \<exists>x \<in> set rs. dispatches_one (sc_callTopic sc) i {ct_PhoneNumber t} x)
    \<and> can_call n i (claim_batch e sc i ts w) \<and> phones_of i (claim_batch e sc i ts w) = phones_of i w"
proof -
  obtain tm w2 where nw: "Now e w = (tm, w2)" by force
  note s2 = Now_same [OF nw]
  obtain t1 w3 where m: "CampaignTargetRepository_MarkScheduled e i (map ct_ID ts) tm w2 = (None, w3)"
      "same_store (w2\<lparr>w_targets := retargeted t1 i (map ct_ID ts) (queue_target tm) (w_targets w2)\<rparr>) w3"
    using MarkScheduled_ok [OF e(1), of "map ct_ID ts" i tm w2] ts(1) by auto
  have "can_call (n + length ts) i w2"
    by (rule can_call_same [OF s2 w])
  then have c3: "can_call (n + length ts) i w3"
    by (rule can_call_marked [OF m(2)])
  have k: "phones_of i w3 = phones_of i w" "w_kafka w3 = w_kafka w"
    using MarkScheduled_keeps [OF m(1)] phones_of_same [OF s2] same_store_fields(8) [OF s2] by (simp_all add: keeps_lists_def)
  have "can_call (length ts) i w3"
    using c3 by (auto simp: can_call_def room_def)
  then obtain w4 where l: "trigger_loop e sc i ts w3 = ([], w4)"
    using trigger_loop_ok [OF e, of ts i w3 sc] ts(2) k(1) by auto
  have u: "claim_batch e sc i ts w = w4"
    by (simp add: claim_batch_def nw m(1) l)
  obtain rs where rs: "w_kafka w4 = w_kafka w @ rs" "length rs = length ts"
    using trigger_loop_kafka [OF l] k(2) by auto
  have "phones_of i w4 = phones_of i w"
    using trigger_loop_tables [OF l] k(1) by (simp add: phones_of_def targets_of_def)
  moreover have "\<exists>x \<in> set rs. dispatches_one (sc_callTopic sc) i {ct_PhoneNumber t} x" if "t \<in> set ts" for t
    using trigger_loop_each [OF l that] rs(1) k(2) by simp
  ultimately show ?thesis
    using rs trigger_loop_leaves [OF l c3] u by blast
qed

text \<open>The job of a scheduler once it has read the batch.\<close>

lemma schedule_reads:
  fixes s :: 's
  assumes "isWithinBusinessHours loc now c"
    and "CampaignTargetRepository_NextBatchForScheduling e (c_ID c) (sc_maxBatchSize sc) w = (Inr ts, w1)" "ts \<noteq> []"
  obtains j where "job_step\<^sup>*\<^sup>* (schedule_job e loc sc now c Finished, w, s) (j, w1, s)"
    "\<And>w. job_step\<^sup>*\<^sup>* (j, w, s) (Finished, claim_batch e sc (c_ID c) ts w, s)"
proof -
  let ?k = "\<lambda>r. case r of
             Inl err \<Rightarrow> Finished :: (world \<times> 's) job
           | Inr targets \<Rightarrow>
               if targets = [] then Finished
               else ask (Now e) (\<lambda>scheduledAt.
                      ask (CampaignTargetRepository_MarkScheduled e (c_ID c) (map ct_ID targets) scheduledAt) (\<lambda>r2. case r2 of
                         Some err \<Rightarrow> Finished
                       | None \<Rightarrow>
                           trigger_loop_job e sc (c_ID c) targets (\<lambda>failed.
                             if failed \<noteq> []
                             then ask (CampaignTargetRepository_SetState e (c_ID c) failed ''pending'') (\<lambda>_. Finished)
                             else Finished)))"
  have "run_job (?k (Inr ts)) (w, s) = Some (claim_batch e sc (c_ID c) ts w, s)" for w
    using assms(3) by (simp add: claim_batch_def split: option.splits prod.splits)
  then have "job_step\<^sup>*\<^sup>* (?k (Inr ts), w, s) (Finished, claim_batch e sc (c_ID c) ts w, s)" for w
    by (rule run_job_steps)
  moreover have "job_step\<^sup>*\<^sup>* (schedule_job e loc sc now c Finished, w, s) (?k (Inr ts), w1, s)"
  proof -
    have eq: "schedule_job e loc sc now c Finished =
        ask (CampaignTargetRepository_NextBatchForScheduling e (c_ID c) (sc_maxBatchSize sc)) ?k"
      unfolding schedule_job_def using assms(1) by simp
    show ?thesis
      unfolding eq by (rule ask_steps, rule assms(2), simp)
  qed
  ultimately show thesis using that by blast
qed

text \<open>Two schedulers that both read the batch before either marks it.\<close>

lemma both_claim:
  assumes c: "isWithinBusinessHours loc now c" and "ts \<noteq> []"
    and b1: "CampaignTargetRepository_NextBatchForScheduling e (c_ID c) (sc_maxBatchSize sc) w = (Inr ts, w1)"
    and b2: "CampaignTargetRepository_NextBatchForScheduling e (c_ID c) (sc_maxBatchSize sc) w1 = (Inr ts, w2)"
  shows "interleaved_run D (w, s, [schedule_job e loc sc now c Finished, schedule_job e loc sc now c Finished])
    (claim_batch e sc (c_ID c) ts (claim_batch e sc (c_ID c) ts w2), s, [Finished, Finished])"
proof -
  let ?j = "schedule_job e loc sc now c Finished" and ?claim = "claim_batch e sc (c_ID c) ts"
  obtain j1 where j1: "job_step\<^sup>*\<^sup>* (?j, w, s) (j1, w1, s)" "\<And>w. job_step\<^sup>*\<^sup>* (j1, w, s) (Finished, ?claim w, s)"
    by (rule schedule_reads [OF c b1 assms(2), of s]) auto
  obtain j2 where j2: "job_step\<^sup>*\<^sup>* (?j, w1, s) (j2, w2, s)" "\<And>w. job_step\<^sup>*\<^sup>* (j2, w, s) (Finished, ?claim w, s)"
    by (rule schedule_reads [OF c b2 assms(2), of s]) auto
  have "interleaved_run D (w, s, [?j, ?j]) (w1, s, [j1, ?j])"
    using advances [OF j1(1), of 0 "[?j, ?j]" D] by simp
  also have "interleaved_run D (w1, s, [j1, ?j]) (w2, s, [j1, j2])"
    using advances [OF j2(1), of 1 "[j1, ?j]" D] by simp
  also have "interleaved_run D (w2, s, [j1, j2]) (?claim w2, s, [j1, Finished])"
    using advances [OF j2(2), of 1 "[j1, j2]" D] by simp
  also have "interleaved_run D (?claim w2, s, [j1, Finished]) (?claim (?claim w2), s, [Finished, Finished])"
    using advances [OF j1(2), of 0 "[j1, Finished]" D] by simp
  finally show ?thesis .
qed

lemma sends_twice:
  assumes e: "no_faults e" "env_scans e" and c: "isWithinBusinessHours loc now c" "0 < sc_maxBatchSize sc"
    and batch: "batch = select_targets e (c_ID c) (Some ''pending'') (sc_maxBatchSize sc) w" "batch \<noteq> []"
    and w: "can_call (2 * length batch) (c_ID c) w" "\<forall>r \<in> set batch. tg_phone_number r \<noteq> []"
  obtains w' rs1 rs2 where
    "interleaved_run D (w, s, [schedule_job e loc sc now c Finished, schedule_job e loc sc now c Finished]) (w', s, [Finished, Finished])"
    "w_kafka w' = w_kafka w @ rs1 @ rs2"
    "\<forall>r \<in> set batch. \<exists>x \<in> set rs1. dispatches_one (sc_callTopic sc) (c_ID c) {tg_phone_number r} x"
    "\<forall>r \<in> set batch. \<exists>x \<in> set rs2. dispatches_one (sc_callTopic sc) (c_ID c) {tg_phone_number r} x"
proof -
  define ts where "ts = map (toModel (c_ID c)) batch"
  let ?claim = "claim_batch e sc (c_ID c) ts"
  have n: "(if sc_maxBatchSize sc \<le> 0 then 100 else sc_maxBatchSize sc) = sc_maxBatchSize sc"
    using c(2) by simp
  have again: "select_targets e (c_ID c) (Some ''pending'') (sc_maxBatchSize sc) v = batch" if "same_store w v" for v
    using same_store_fields(3) [OF that] by (simp add: batch(1) select_targets_def)
  have fetch: "\<exists>v'. CampaignTargetRepository_NextBatchForScheduling e (c_ID c) (sc_maxBatchSize sc) v = (Inr ts, v') \<and> same_store v v'"
    if "same_store w v" for v
    using NextBatch_ok [OF e(1), of "c_ID c" "sc_maxBatchSize sc" v] unfolding n again [OF that] ts_def [symmetric] .
  obtain w1 where b1: "CampaignTargetRepository_NextBatchForScheduling e (c_ID c) (sc_maxBatchSize sc) w = (Inr ts, w1)" "same_store w w1"
    using fetch [OF same_store_refl] by blast
  obtain w2 where b2: "CampaignTargetRepository_NextBatchForScheduling e (c_ID c) (sc_maxBatchSize sc) w1 = (Inr ts, w2)" "same_store w1 w2"
    using fetch [OF b1(2)] by blast
  have ne: "ts \<noteq> []" and s2: "same_store w w2"
    using batch(2) same_store_trans [OF b1(2) b2(2)] by (simp_all add: ts_def)
  have "tg_phone_number r \<in> phones_of (c_ID c) w2" if "r \<in> set batch" for r
    using select_targets_phones [of e r "c_ID c" "Some ''pending''" "sc_maxBatchSize sc" w] that e(2)
    unfolding batch(1) phones_of_same [OF s2] env_scans_def by blast
  then have ph: "\<forall>t \<in> set ts. ct_PhoneNumber t \<noteq> [] \<and> ct_PhoneNumber t \<in> phones_of (c_ID c) w2"
    using w(2) by (simp add: ts_def toModel_def)
  have "can_call (length ts + length ts) (c_ID c) w2"
    using can_call_same [OF s2 w(1)] unfolding ts_def length_map mult_2 .
  from claim_sends [OF e ne ph this, of sc]
  obtain rs1 where r1: "w_kafka (?claim w2) = w_kafka w @ rs1" "can_call (length ts) (c_ID c) (?claim w2)"
      "phones_of (c_ID c) (?claim w2) = phones_of (c_ID c) w2"
      "\<forall>t \<in> set ts. \<exists>x \<in> set rs1. dispatches_one (sc_callTopic sc) (c_ID c) {ct_PhoneNumber t} x"
    using same_store_fields(8) [OF s2] by auto
  obtain rs2 where r2: "w_kafka (?claim (?claim w2)) = w_kafka (?claim w2) @ rs2"
      "\<forall>t \<in> set ts. \<exists>x \<in> set rs2. dispatches_one (sc_callTopic sc) (c_ID c) {ct_PhoneNumber t} x"
    using claim_sends [OF e ne, of "c_ID c" "?claim w2" 0 sc] ph r1(2,3) by auto
  show thesis
    using that [OF both_claim [OF c(1) ne b1(1) b2(1), of D s]] r1(1,4) r2 by (simp add: ts_def toModel_def)
qed

subsection \<open>Overlapping changes of a campaign\<close>

lemma Complete_ok:
  assumes "no_faults e" "pg_wf w" "names_unique e w" "find_campaign i w = Some r"
  shows "\<exists>w' r'. campaign_Complete e i w = (None, w') \<and> find_campaign i w' = Some r' \<and> names_unique e w'
     \<and> r_status r' = CampaignStatusCompleted \<and> r_name r' = r_name r"
proof -
  let ?w2 = "(tick_io w)\<lparr>now_n := Suc (now_n w)\<rparr>"
  let ?c = "(toDomain r)\<lparr>c_Status := CampaignStatusCompleted, c_CompletedAt := Some (utc (now_at e (now_n w)))\<rparr>"
  have c: "?c = (toDomain r)\<lparr>c_Status := CampaignStatusCompleted, c_StartedAt := None,
      c_CompletedAt := Some (utc (now_at e (now_n w)))\<rparr>"
    by (simp add: toDomain_def)
  have "same_store w ?w2"
    by (simp add: same_store_def tick_io_def)
  from write_back_ok [OF assms(1-3) this assms(4), where st = CampaignStatusCompleted
      and a = None and b = "Some (utc (now_at e (now_n w)))"]
  have u: "CampaignRepository_Update e ?c ?w2 = (None, tick_io (rewritten e ?c (tick_io ?w2)))"
    by (simp only: c [symmetric])
  have i: "c_ID ?c = i" "r_id r = i"
    using find_campaign_Some [OF assms(4)] by (simp_all add: toDomain_def)
  have "campaign_Complete e i w = (None, tick_io (rewritten e ?c (tick_io ?w2)))"
    using assms u by (simp add: campaign_Complete_def Get_ok campaign_at_def Now_def)
  moreover have "find_campaign i (tick_io (rewritten e ?c (tick_io ?w2))) = Some (updated_row e (tick_io ?w2) (to_row ?c) r)"
    using i assms(4) by (simp add: find_rewritten) (simp add: find_campaign_def)
  moreover have "names_unique e (rewritten e ?c (tick_io ?w2))"
    using assms i by (intro rewritten_names [where r = r and w = w]) (simp_all add: toDomain_def)
  then have "names_unique e (tick_io (rewritten e ?c (tick_io ?w2)))"
    by (simp add: names_unique_def)
  ultimately show ?thesis
    by (simp add: updated_row_def to_row_def toDomain_def)
qed

text \<open>Writing back a campaign that was read before another write.\<close>

lemma stale_write_ok:
  assumes e: "no_faults e" and w: "pg_wf w" "find_campaign i w = Some r"
    and w1: "find_campaign i w1 = Some r'" "r_name r' = r_name r" "names_unique e w1"
  shows "\<exists>r''. CampaignRepository_Update e ((toDomain r)\<lparr>c_Status := st, c_StartedAt := a\<rparr>) w1
      = (None, tick_io (rewritten e ((toDomain r)\<lparr>c_Status := st, c_StartedAt := a\<rparr>) (tick_io w1)))
    \<and> find_campaign i (tick_io (rewritten e ((toDomain r)\<lparr>c_Status := st, c_StartedAt := a\<rparr>) (tick_io w1))) = Some r''
    \<and> r_status r'' = st"
proof -
  let ?c = "(toDomain r)\<lparr>c_Status := st, c_StartedAt := a\<rparr>"
  have ids: "r_id r = i" "r \<in> set (w_campaigns w)" "r_id r' = i" "r' \<in> set (w_campaigns w1)"
    using find_campaign_Some [OF w(2)] find_campaign_Some [OF w1(1)] by auto
  have row: "r_id (to_row ?c) = i" "r_name (to_row ?c) = r_name r"
    "r_max_concurrent_calls (to_row ?c) = r_max_concurrent_calls r"
    "r_retry_max_attempts (to_row ?c) = r_retry_max_attempts r" "c_ID ?c = i"
    using ids by (simp_all add: to_row_def toDomain_def)
  have "campaign_checks (to_row ?c)"
    using w(1) ids(2) unfolding campaign_checks_def row by (simp add: pg_wf_def campaign_checks_def)
  moreover have "\<not> name_taken e (to_row ?c) (w_campaigns w1)"
    using w1(2,3) ids(3,4) unfolding name_taken_def row names_unique_def by metis
  ultimately have u: "CampaignRepository_Update e ?c w1 = (None, tick_io (rewritten e ?c (tick_io w1)))"
    using w1(1) by (intro Update_ok [OF e]) (simp_all add: toDomain_def ids(1))
  have "find_campaign i (tick_io (rewritten e ?c (tick_io w1))) = Some (updated_row e (tick_io w1) (to_row ?c) r')"
    using w1(1) row(5) by (simp add: find_rewritten)
  moreover have "r_status (updated_row e (tick_io w1) (to_row ?c) r') = st"
    by (simp add: updated_row_def to_row_def)
  ultimately show ?thesis using u by blast
qed

lemma start_overlaps_complete:
  assumes "no_faults e" "pg_wf w" "names_unique e w" "find_campaign i w = Some r"
    and "r_status r \<noteq> CampaignStatusCompleted" "r_status r \<noteq> CampaignStatusInProgress"
  obtains w' r'' where "interleaved_run D (w, s, [Start_job e i (\<lambda>_. Finished), Complete_job e i (\<lambda>_. Finished)]) (w', s, [Finished, Finished])"
    "find_campaign i w' = Some r''" "r_status r'' = CampaignStatusInProgress"
proof -
  let ?go = "\<lambda>now. ask (CampaignRepository_Update e ((toDomain r)\<lparr>c_Status := CampaignStatusInProgress, c_StartedAt := Some now\<rparr>)) (\<lambda>_. Finished)"
  let ?j2 = "Complete_job e i (\<lambda>_. Finished)" and ?w1 = "tick_io w"
  have g: "CampaignRepository_Get e i w = (Inr (toDomain r), ?w1)"
    using assms(1,4) by (simp add: Get_ok campaign_at_def)
  have "c_Status (toDomain r) = r_status r" by (simp add: toDomain_def)
  then have 1: "job_step\<^sup>*\<^sup>* (Start_job e i (\<lambda>_. Finished), w, s) (ask (Now e) ?go, ?w1, s)"
    unfolding Start_job_def using assms(5,6) by (intro ask_steps [of "CampaignRepository_Get e i" w "Inr (toDomain r)", OF g]) simp
  have w1: "pg_wf ?w1" "names_unique e ?w1" "find_campaign i ?w1 = Some r"
    using assms(2-4) wf.keeps_tick by (simp_all add: names_unique_def find_campaign_def)
  obtain w2 r' where c: "campaign_Complete e i ?w1 = (None, w2)" "find_campaign i w2 = Some r'" "names_unique e w2" "r_name r' = r_name r"
    using Complete_ok [OF assms(1) w1] by auto
  have 2: "job_step\<^sup>*\<^sup>* (?j2, ?w1, s) (Finished, w2, s)"
    by (rule run_job_steps) (simp add: c(1))
  obtain now w3 where n: "Now e w2 = (now, w3)" by force
  have w3: "find_campaign i w3 = Some r'" "names_unique e w3"
    using c(2,3) same_store_fields(1) [OF Now_same [OF n]] by (simp_all add: find_campaign_def names_unique_def)
  obtain w4 r'' where u: "CampaignRepository_Update e ((toDomain r)\<lparr>c_Status := CampaignStatusInProgress, c_StartedAt := Some now\<rparr>) w3 = (None, w4)"
      "find_campaign i w4 = Some r''" "r_status r'' = CampaignStatusInProgress"
    using stale_write_ok [OF assms(1,2,4) w3(1) c(4) w3(2)] by blast
  have 3: "job_step\<^sup>*\<^sup>* (ask (Now e) ?go, w2, s) (Finished, w4, s)"
    by (rule run_job_steps) (simp add: n u(1))
  have "interleaved_run D (w, s, [Start_job e i (\<lambda>_. Finished), ?j2]) (?w1, s, [ask (Now e) ?go, ?j2])"
    using advances [OF 1, of 0 "[Start_job e i (\<lambda>_. Finished), ?j2]" D] by simp
  also have "interleaved_run D (?w1, s, [ask (Now e) ?go, ?j2]) (w2, s, [ask (Now e) ?go, Finished])"
    using advances [OF 2, of 1 "[ask (Now e) ?go, ?j2]" D] by simp
  also have "interleaved_run D (w2, s, [ask (Now e) ?go, Finished]) (w4, s, [Finished, Finished])"
    using advances [OF 3, of 0 "[ask (Now e) ?go, Finished]" D] by simp
  finally show thesis using that u(2,3) by blast
qed

text \<open>One after the other, in either order, the campaign ends completed.\<close>

lemma start_then_complete:
  assumes "no_faults e" "pg_wf w" "names_unique e w" "find_campaign i w = Some r"
    and "r_status r \<noteq> CampaignStatusCompleted" "r_status r \<noteq> CampaignStatusInProgress"
  shows "status_at i (snd (campaign_Start e i (snd (campaign_Complete e i w)))) = Some CampaignStatusCompleted"
    "status_at i (snd (campaign_Complete e i (snd (campaign_Start e i w)))) = Some CampaignStatusCompleted"
proof -
  obtain w1 r1 where c: "campaign_Complete e i w = (None, w1)" "find_campaign i w1 = Some r1" "r_status r1 = CampaignStatusCompleted"
    using Complete_ok [OF assms(1-4)] by blast
  then have "campaign_Start e i w1 = (Some (New ''campaign service: cannot start completed campaign''), tick_io w1)"
    using assms(1) by (simp add: campaign_Start_def Get_ok campaign_at_def toDomain_def campaign_statuses)
  then show "status_at i (snd (campaign_Start e i (snd (campaign_Complete e i w)))) = Some CampaignStatusCompleted"
    using c by (simp add: status_at_def campaign_at_def find_campaign_def toDomain_def)
  let ?c = "(toDomain r)\<lparr>c_Status := CampaignStatusInProgress, c_StartedAt := Some (utc (now_at e (now_n w)))\<rparr>"
  let ?w2 = "(tick_io w)\<lparr>now_n := Suc (now_n w)\<rparr>"
  have i: "c_ID ?c = i" "r_id r = i" using find_campaign_Some [OF assms(4)] by (simp_all add: toDomain_def)
  have w2: "find_campaign i ?w2 = Some r" "names_unique e ?w2"
    using assms(3,4) by (simp_all add: find_campaign_def names_unique_def)
  obtain r2 where u: "CampaignRepository_Update e ?c ?w2 = (None, tick_io (rewritten e ?c (tick_io ?w2)))"
      "find_campaign i (tick_io (rewritten e ?c (tick_io ?w2))) = Some r2"
    using stale_write_ok [OF assms(1,2,4) w2(1) refl w2(2)] by blast
  then have s: "campaign_Start e i w = (None, tick_io (rewritten e ?c (tick_io ?w2)))"
    using assms by (simp add: campaign_Start_def Get_ok campaign_at_def Now_def toDomain_def)
  have "names_unique e (rewritten e ?c (tick_io ?w2))"
    using assms i by (intro rewritten_names [where r = r and w = w]) (simp_all add: toDomain_def)
  then have "names_unique e (tick_io (rewritten e ?c (tick_io ?w2)))" by (simp add: names_unique_def)
  moreover have "pg_wf (tick_io (rewritten e ?c (tick_io ?w2)))"
    using lifecycle_wf(1) [OF s assms(2)] .
  ultimately obtain w3 r3 where "campaign_Complete e i (tick_io (rewritten e ?c (tick_io ?w2))) = (None, w3)"
      "find_campaign i w3 = Some r3" "r_status r3 = CampaignStatusCompleted"
    using Complete_ok [OF assms(1) _ _ u(2)] by blast
  then show "status_at i (snd (campaign_Complete e i (snd (campaign_Start e i w)))) = Some CampaignStatusCompleted"
    by (simp add: s status_at_def campaign_at_def toDomain_def)
qed

subsection \<open>Properties\<close>

text \<open>C39: Two schedulers call everyone twice. When nothing fails and an open campaign has pending targets,
  there is an interleaving of two schedulers that have both listed the campaign in which every target
  of the batch is dispatched by each of them: nothing keeps the second from reading the targets that
  the first has read and not yet marked.\<close>

theorem two_schedulers_dispatch_twice:
  assumes "no_faults e" "env_scans e" "isWithinBusinessHours loc now c" "0 < sc_maxBatchSize sc"
    and "batch = select_targets e (c_ID c) (Some ''pending'') (sc_maxBatchSize sc) w" "batch \<noteq> []"
    and "can_call (2 * length batch) (c_ID c) w" "\<forall>r \<in> set batch. tg_phone_number r \<noteq> []"
  shows "\<exists>w' rs1 rs2.
     interleaved_run D (w, s, [schedule_job e loc sc now c Finished, schedule_job e loc sc now c Finished]) (w', s, [Finished, Finished])
     \<and> w_kafka w' = w_kafka w @ rs1 @ rs2
     \<and> (\<forall>r \<in> set batch. (\<exists>x \<in> set rs1. dispatches_one (sc_callTopic sc) (c_ID c) {tg_phone_number r} x)
          \<and> (\<exists>x \<in> set rs2. dispatches_one (sc_callTopic sc) (c_ID c) {tg_phone_number r} x))"
  by (rule sends_twice [OF assms, of D s]) blast

theorem two_schedulers_dispatch_twice_witness:
  "\<exists>w'. interleaved_run sample_deployment (sample_running, empty_memory,
        [schedule_job sample_env sample_zones sample_scheduler (utc 0) sample_campaign Finished,
         schedule_job sample_env sample_zones sample_scheduler (utc 0) sample_campaign Finished])
       (w', empty_memory, [Finished, Finished]) \<and> 2 \<le> length (w_kafka w')"
proof -
  have b: "[sample_target] = select_targets sample_env (c_ID sample_campaign) (Some ''pending'')
      (sc_maxBatchSize sample_scheduler) sample_running"
    by (simp add: sample_running_targets sample_scheduler_def)
  have c: "can_call 2 1 sample_running"
    using sample_can_call by (simp add: can_call_def room_def sample_running_def sample_world_def zero_stats_def)
  have "\<exists>w' rs1 rs2. interleaved_run sample_deployment (sample_running, empty_memory,
        [schedule_job sample_env sample_zones sample_scheduler (utc 0) sample_campaign Finished,
         schedule_job sample_env sample_zones sample_scheduler (utc 0) sample_campaign Finished])
       (w', empty_memory, [Finished, Finished]) \<and> w_kafka w' = w_kafka sample_running @ rs1 @ rs2 \<and> rs1 \<noteq> [] \<and> rs2 \<noteq> []"
    using two_schedulers_dispatch_twice [OF sample_no_faults sample_scans sample_open [of "utc 0"] _ b, of sample_deployment empty_memory] c
    by (fastforce simp: sample_scheduler_def sample_target_def)
  then obtain w' rs1 rs2 where r: "interleaved_run sample_deployment (sample_running, empty_memory,
        [schedule_job sample_env sample_zones sample_scheduler (utc 0) sample_campaign Finished,
         schedule_job sample_env sample_zones sample_scheduler (utc 0) sample_campaign Finished])
       (w', empty_memory, [Finished, Finished])" "w_kafka w' = w_kafka sample_running @ rs1 @ rs2" "rs1 \<noteq> []" "rs2 \<noteq> []"
    by blast
  have "2 \<le> length (w_kafka w')"
    using r(2-4) by (cases rs1; cases rs2) auto
  with r(1) show ?thesis by blast
qed

text \<open>C40: A completion can be lost. Starting and completing a campaign, in either order, leaves it
  completed; when the two overlap, the campaign can be in progress at the end, although both report
  success: the start writes back the row it has read before the completion.\<close>

theorem overlapping_start_undoes_completion:
  assumes "no_faults e" "pg_wf w" "names_unique e w" "find_campaign i w = Some r"
    and "r_status r \<noteq> CampaignStatusCompleted" "r_status r \<noteq> CampaignStatusInProgress"
  shows "status_at i (snd (campaign_Start e i (snd (campaign_Complete e i w)))) = Some CampaignStatusCompleted
    \<and> status_at i (snd (campaign_Complete e i (snd (campaign_Start e i w)))) = Some CampaignStatusCompleted
    \<and> (\<exists>w'. interleaved_run D (w, s, [Start_job e i (\<lambda>_. Finished), Complete_job e i (\<lambda>_. Finished)]) (w', s, [Finished, Finished])
         \<and> status_at i w' = Some CampaignStatusInProgress)"
proof -
  have "\<exists>w'. interleaved_run D (w, s, [Start_job e i (\<lambda>_. Finished), Complete_job e i (\<lambda>_. Finished)]) (w', s, [Finished, Finished])
         \<and> status_at i w' = Some CampaignStatusInProgress"
    by (rule start_overlaps_complete [OF assms, of D s]) (auto simp: status_at_def campaign_at_def toDomain_def)
  then show ?thesis using start_then_complete [OF assms] by blast
qed

theorem overlapping_start_undoes_completion_witness:
  "\<exists>w'. interleaved_run sample_deployment (sample_world, empty_memory,
       [Start_job sample_env 1 (\<lambda>_. Finished), Complete_job sample_env 1 (\<lambda>_. Finished)]) (w', empty_memory, [Finished, Finished])
     \<and> status_at 1 w' = Some CampaignStatusInProgress"
  using overlapping_start_undoes_completion [OF sample_no_faults sample_world_wf sample_names sample_found, of sample_deployment empty_memory]
  by (simp add: sample_row_def campaign_statuses)

end
