(* ===== verification/Processes.thy ===== *)
theory Processes
  imports Container
begin

text \<open>
  The processes: setting up tracing (\<open>internal/telemetry/setup.go\<close>), the loops of the services
  (\<open>Run\<close> of the scheduler and of the workers) and the entry points under \<open>cmd/\<close>. What the client
  libraries reply is a parameter; so is the state of the process's context, which a signal cancels.
\<close>

subsection \<open>Tracing\<close>

record tracing =
  tr_endpoint :: string
  tr_serviceName :: string
  tr_serviceVersion :: string
  tr_ratio :: float64

text \<open>\<open>Setup\<close>: \<open>None\<close> when tracing is disabled, and then the shutdown function does nothing.\<close>

definition Setup :: "(string \<Rightarrow> go_error option) \<Rightarrow> go_error option \<Rightarrow> TelemetryConfig \<Rightarrow> string \<Rightarrow> go_error + tracing option" where
  "Setup newExporter newResource cfg serviceName =
     (if \<not> tlc_TracingEnabled cfg then Inr None
      else (let ratio = (if tlc_SampleRatio cfg \<le> 0 then 1 else tlc_SampleRatio cfg)
            in case newExporter (tlc_Endpoint cfg) of
                 Some err \<Rightarrow> Inl (Errorf ''otel exporter: '' err [])
               | None \<Rightarrow>
                   (case newResource of
                      Some err \<Rightarrow> Inl (Errorf ''otel resource: '' err [])
                    | None \<Rightarrow> Inr (Some \<lparr>tr_endpoint = tlc_Endpoint cfg, tr_serviceName = serviceName,
                        tr_serviceVersion = tlc_ServiceName cfg, tr_ratio = ratio\<rparr>))))"

subsection \<open>The loops of the services\<close>

text \<open>\<open>ctx n\<close>: the error of the context at the \<open>n\<close>-th turn of a loop, \<open>None\<close> while it is not
  done. A loop whose context is never done does not return, and its value is then \<open>None\<close>.\<close>

type_synonym context_state = "nat \<Rightarrow> go_error option"

definition tick_interval :: "Config \<Rightarrow> duration" where
  "tick_interval cfg = (let interval = sdc_TickInterval (cfg_Scheduler cfg) in if interval \<le> 0 then Minute_d else interval)"

partial_function (option) scheduler_Run ::
    "env \<Rightarrow> (string \<Rightarrow> go_error + location) \<Rightarrow> scheduler \<Rightarrow> (nat \<Rightarrow> string \<Rightarrow> go_error option) \<Rightarrow> context_state
      \<Rightarrow> nat \<Rightarrow> world \<Rightarrow> (go_error option \<times> world) option" where
  "scheduler_Run e loc sc probe ctx n w =
     (case tick e loc sc (probe n) w of (err, w1) \<Rightarrow>
        (case ctx n of
           Some ctxErr \<Rightarrow> Some (Some ctxErr, w1)
         | None \<Rightarrow> scheduler_Run e loc sc probe ctx (Suc n) w1))"

text \<open>The loop of a consumer: \<open>fetch n\<close> is the record the \<open>n\<close>-th fetch delivers, or its error. The
  body may change the state, or block for ever.\<close>

partial_function (option) consume ::
    "(kafka_record \<Rightarrow> 's \<Rightarrow> 's option) \<Rightarrow> (nat \<Rightarrow> go_error + kafka_record) \<Rightarrow> context_state \<Rightarrow> nat \<Rightarrow> 's \<Rightarrow> (go_error option \<times> 's) option" where
  "consume body fetch ctx n s =
     (case fetch n of
        Inl err \<Rightarrow> (case ctx n of Some ctxErr \<Rightarrow> Some (Some ctxErr, s) | None \<Rightarrow> consume body fetch ctx (Suc n) s)
      | Inr m \<Rightarrow> (case body m s of None \<Rightarrow> None | Some s' \<Rightarrow> consume body fetch ctx (Suc n) s'))"

text \<open>The error of \<open>processMessage\<close> is only logged.\<close>

definition call_Run ::
    "env \<Rightarrow> 's call_worker \<Rightarrow> (nat \<Rightarrow> go_error + kafka_record) \<Rightarrow> context_state \<Rightarrow> world \<times> 's \<Rightarrow> (go_error option \<times> world \<times> 's) option" where
  "call_Run e c fetch ctx ws =
     consume (\<lambda>m ws. case processMessage e c m ws of None \<Rightarrow> None | Some (err, ws') \<Rightarrow> Some ws') fetch ctx 0 ws"

definition status_Run ::
    "env \<Rightarrow> status_worker \<Rightarrow> (nat \<Rightarrow> go_error + kafka_record) \<Rightarrow> context_state \<Rightarrow> world \<Rightarrow> (go_error option \<times> world) option" where
  "status_Run e sw fetch ctx w = consume (\<lambda>m w. Some (status_step e sw m w)) fetch ctx 0 w"

text \<open>One consumer of the retry worker; \<open>sleepDone m\<close> is the context's error when it is done before the
  next attempt of message \<open>m\<close> is due. The worker itself starts one consumer per topic and waits for
  its context, as it does without topics; its consumers run as steps of their own.\<close>

definition consumeTopic ::
    "env \<Rightarrow> retry_worker \<Rightarrow> (kafka_record \<Rightarrow> go_error option) \<Rightarrow> (nat \<Rightarrow> go_error + kafka_record) \<Rightarrow> context_state \<Rightarrow> world
      \<Rightarrow> (go_error option \<times> world) option" where
  "consumeTopic e rw sleepDone fetch ctx w = consume (\<lambda>m w. Some (retry_step e rw (sleepDone m) m w)) fetch ctx 0 w"

partial_function (option) wait_done :: "context_state \<Rightarrow> nat \<Rightarrow> go_error option" where
  "wait_done ctx n = (case ctx n of Some ctxErr \<Rightarrow> Some ctxErr | None \<Rightarrow> wait_done ctx (Suc n))"

definition retry_Run :: "Config \<Rightarrow> context_state \<Rightarrow> (go_error option \<times> retry_worker list) option" where
  "retry_Run cfg ctx =
     (let topics = kc_RetryTopics (cfg_Kafka cfg);
          consumers = (if topics = [] then [] else map (retry_worker_of cfg) [0..<length topics])
      in case wait_done ctx 0 of None \<Rightarrow> None | Some ctxErr \<Rightarrow> Some (Some ctxErr, consumers))"

subsection \<open>Entry points\<close>

definition getEnv :: "(string \<Rightarrow> string) \<Rightarrow> string \<Rightarrow> string \<Rightarrow> string" where
  "getEnv environ key fallback = (if environ key \<noteq> [] then environ key else fallback)"

definition config_path :: "(string \<Rightarrow> string) \<Rightarrow> string option \<Rightarrow> string" where
  "config_path environ flag = (case flag of Some path \<Rightarrow> path | None \<Rightarrow> getEnv environ ''CONFIG_FILE'' ''configs/config.yaml'')"

text \<open>How a process ends: \<open>main\<close> returns and its deferred calls run, or \<open>log.Fatalf\<close> exits at once
  with status one and no deferred call runs.\<close>

datatype exit = MainReturned | Fatal string

datatype deferred = TracesFlushed | ContainerClosed

record process =
  pr_environ :: "string \<Rightarrow> string"
  pr_flag :: "string option"
  pr_drivers :: drivers
  pr_exporter :: "string \<Rightarrow> go_error option"
  pr_resource :: "go_error option"
  pr_call_broker :: broker
  pr_retry_broker :: broker
  pr_dead_broker :: broker
  pr_context :: context_state

definition bootstrap :: "process \<Rightarrow> go_error + Container" where
  "bootstrap p = fst (Build (pr_drivers p) (config_path (pr_environ p) (pr_flag p)))"

text \<open>The \<open>main\<close> of the scheduler and of the workers, which differ in the name of the service and in
  what they run. \<open>None\<close>: the service does not return.\<close>

definition service_main ::
    "process \<Rightarrow> string \<Rightarrow> string \<Rightarrow> (Config \<Rightarrow> (go_error option \<times> 'r) option) \<Rightarrow> (exit \<times> deferred list) option" where
  "service_main p suffix terminated run =
     (case bootstrap p of
        Inl err \<Rightarrow> Some (Fatal (''failed to bootstrap application: '' @ Error err), [])
      | Inr c \<Rightarrow>
     (let cfg = ctr_Config c
      in case Setup (pr_exporter p) (pr_resource p) (cfg_Telemetry cfg) (app_Name (cfg_App cfg) @ suffix) of
        Inl err \<Rightarrow> Some (Fatal (''failed to initialize telemetry: '' @ Error err), [])
      | Inr _ \<Rightarrow>
     (case fst (container_EnsureTopics (pr_call_broker p) (pr_retry_broker p) (pr_dead_broker p) (cfg_Kafka cfg)) of
        Some err \<Rightarrow> Some (Fatal (''failed to ensure kafka topics: '' @ Error err), [])
      | None \<Rightarrow>
     (case run cfg of
        None \<Rightarrow> None
      | Some (Some err, result) \<Rightarrow> Some (Fatal (terminated @ Error err), [])
      | Some (None, result) \<Rightarrow> Some (MainReturned, [TracesFlushed, ContainerClosed])))))"

definition scheduler_main ::
    "process \<Rightarrow> env \<Rightarrow> (string \<Rightarrow> go_error + location) \<Rightarrow> (nat \<Rightarrow> string \<Rightarrow> go_error option) \<Rightarrow> world \<Rightarrow> (exit \<times> deferred list) option" where
  "scheduler_main p e loc probe w = service_main p ''-scheduler'' ''scheduler terminated: ''
     (\<lambda>cfg. scheduler_Run e loc (scheduler_of cfg) probe (pr_context p) 0 w)"

definition callworker_main ::
    "process \<Rightarrow> env \<Rightarrow> 's redis \<Rightarrow> (uuid \<Rightarrow> string) \<Rightarrow> 's call_outcome \<Rightarrow> (nat \<Rightarrow> go_error + kafka_record) \<Rightarrow> world \<times> 's
      \<Rightarrow> (exit \<times> deferred list) option" where
  "callworker_main p e R us oc fetch ws = service_main p ''-call-worker'' ''worker terminated: ''
     (\<lambda>cfg. call_Run e (call_worker_of R us cfg oc) fetch (pr_context p) ws)"

definition statusworker_main ::
    "process \<Rightarrow> env \<Rightarrow> (nat \<Rightarrow> go_error + kafka_record) \<Rightarrow> world \<Rightarrow> (exit \<times> deferred list) option" where
  "statusworker_main p e fetch w = service_main p ''-status-worker'' ''worker terminated: ''
     (\<lambda>cfg. status_Run e (status_worker_of cfg) fetch (pr_context p) w)"

definition retryworker_main :: "process \<Rightarrow> (exit \<times> deferred list) option" where
  "retryworker_main p = service_main p ''-retry-worker'' ''worker terminated: '' (\<lambda>cfg. retry_Run cfg (pr_context p))"

text \<open>The API server has no tracing and creates no topics. \<open>listen\<close> is the error of \<open>app.Listen\<close> on an
  address, nil after a shutdown; \<open>shutdownWithContext\<close> stops the server within its timeout.\<close>

record Server =
  srv_ReadTimeout :: duration
  srv_WriteTimeout :: duration
  srv_IdleTimeout :: duration
  srv_deps :: Container

definition NewServer :: "Container \<Rightarrow> Server" where
  "NewServer deps = \<lparr>srv_ReadTimeout = http_ReadTimeout (cfg_HTTP (ctr_Config deps)),
     srv_WriteTimeout = http_WriteTimeout (cfg_HTTP (ctr_Config deps)), srv_IdleTimeout = http_IdleTimeout (cfg_HTTP (ctr_Config deps)),
     srv_deps = deps\<rparr>"

definition Start :: "(string \<Rightarrow> go_error option) \<Rightarrow> Server \<Rightarrow> go_error option" where
  "Start listen s = listen ('':'' @ show_int (http_Port (cfg_HTTP (ctr_Config (srv_deps s)))))"

definition Shutdown :: "(duration \<Rightarrow> go_error option) \<Rightarrow> go_error option" where
  "Shutdown shutdownWithContext = shutdownWithContext (10 * Second)"

definition api_main :: "process \<Rightarrow> (string \<Rightarrow> go_error option) \<Rightarrow> exit \<times> deferred list" where
  "api_main p listen =
     (case bootstrap p of
        Inl err \<Rightarrow> (Fatal (''failed to bootstrap application: '' @ Error err), [])
      | Inr container \<Rightarrow>
          (case Start listen (NewServer container) of
             Some err \<Rightarrow> (Fatal (''server terminated: '' @ Error err), [])
           | None \<Rightarrow> (MainReturned, [ContainerClosed])))"

subsection \<open>The loops end with their context\<close>

lemma scheduler_Run_stops:
  assumes "\<forall>k. n \<le> k \<and> k < m \<longrightarrow> ctx k = None" "ctx m = Some err" "n \<le> m"
  shows "scheduler_Run e loc sc probe ctx n w = Some (Some err, fold (\<lambda>k w. snd (tick e loc sc (probe k) w)) [n..<Suc m] w)"
  using assms
proof (induction "m - n" arbitrary: n w)
  case 0
  then show ?case by (subst scheduler_Run.simps) (simp split: prod.split)
next
  case (Suc d)
  then have "n < m" "ctx n = None" by auto
  then show ?case
    using Suc by (subst scheduler_Run.simps) (auto simp: upt_rec [of n] split: prod.split)
qed

text \<open>The records delivered before turn \<open>m\<close>.\<close>

definition delivered :: "(nat \<Rightarrow> go_error + kafka_record) \<Rightarrow> nat \<Rightarrow> nat \<Rightarrow> kafka_record list" where
  "delivered fetch n m = concat (map (\<lambda>k. case fetch k of Inl err \<Rightarrow> [] | Inr r \<Rightarrow> [r]) [n..<m])"

lemma consume_stops:
  assumes "\<forall>k. n \<le> k \<and> k < m \<longrightarrow> ctx k = None" "ctx m = Some err" "fetch m = Inl ferr" "n \<le> m"
    and "\<And>r s. body r s = Some (f r s)"
  shows "consume body fetch ctx n s = Some (Some err, fold f (delivered fetch n m) s)"
  using assms(1,4)
proof (induction "m - n" arbitrary: n s)
  case 0
  then show ?case using assms(2,3) by (subst consume.simps) (simp add: delivered_def)
next
  case (Suc d)
  then have "n < m" "ctx n = None" by auto
  moreover have "delivered fetch n m = (case fetch n of Inl err \<Rightarrow> [] | Inr r \<Rightarrow> [r]) @ delivered fetch (Suc n) m"
    using \<open>n < m\<close> by (simp add: delivered_def upt_rec [of n])
  ultimately show ?case
    using Suc assms(5) by (subst consume.simps) (auto split: sum.split)
qed

lemma wait_done_stops: "\<forall>k. n \<le> k \<and> k < m \<longrightarrow> ctx k = None \<Longrightarrow> ctx m = Some err \<Longrightarrow> n \<le> m \<Longrightarrow> wait_done ctx n = Some err"
proof (induction "m - n" arbitrary: n)
  case 0
  then show ?case by (subst wait_done.simps) simp
next
  case (Suc d)
  then show ?case by (subst wait_done.simps) auto
qed

text \<open>No service ever returns without an error.\<close>

lemma scheduler_Run_error:
  assumes "scheduler_Run e loc sc probe ctx n w = Some y"
  shows "fst y \<noteq> None"
  by (rule scheduler_Run.raw_induct [where P = "\<lambda>e loc sc probe ctx n w y. fst y \<noteq> None", OF _ assms])
    (auto split: prod.splits option.splits)

lemma consume_error:
  assumes "consume body fetch ctx n s = Some y"
  shows "fst y \<noteq> None"
  by (rule consume.raw_induct [where P = "\<lambda>body fetch ctx n s y. fst y \<noteq> None", OF _ assms])
    (auto split: prod.splits option.splits sum.splits)

lemma retry_Run_error: "retry_Run cfg ctx = Some y \<Longrightarrow> fst y \<noteq> None"
  by (cases "wait_done ctx 0") (auto simp: retry_Run_def Let_def)

text \<open>The contract between an entry point and its service: the service never returns nil. Then \<open>main\<close>
  never returns, and its deferred calls never run.\<close>

locale looping_service =
  fixes run :: "Config \<Rightarrow> (go_error option \<times> 'r) option"
  assumes run_error: "run cfg = Some (r, y) \<Longrightarrow> r \<noteq> None"
begin

lemma main_fatal:
  assumes "service_main p suffix terminated run = Some (x, ds)"
  shows "ds = [] \<and> (\<exists>msg. x = Fatal msg)"
  using assms by (auto simp: service_main_def Let_def split: sum.splits option.splits dest: run_error)

end

interpretation scheduler_service: looping_service "\<lambda>cfg. scheduler_Run e loc (scheduler_of cfg) probe ctx 0 w"
  for e loc probe ctx w
  by unfold_locales (auto dest: scheduler_Run_error)

interpretation call_service: looping_service "\<lambda>cfg. call_Run e (call_worker_of R us cfg oc) fetch ctx ws"
  for e R us oc fetch ctx ws
  by unfold_locales (auto simp: call_Run_def dest: consume_error)

interpretation status_service: looping_service "\<lambda>cfg. status_Run e (status_worker_of cfg) fetch ctx w"
  for e fetch ctx w
  by unfold_locales (auto simp: status_Run_def dest: consume_error)

interpretation retry_service: looping_service "\<lambda>cfg. retry_Run cfg ctx" for ctx
  by unfold_locales (auto dest: retry_Run_error)

subsection \<open>Properties\<close>



text \<open>C38: A scheduler or worker process never ends in an orderly way. Whatever its servers reply, when it
  ends it does so through \<open>log.Fatalf\<close>, even when it is stopped by a signal, so that the deferred
  calls that flush its traces and close its connections do not run. The API server, in contrast,
  closes its connections after a shutdown.\<close>

theorem stopped_workers_exit_fatally:
  "(\<forall>x ds. scheduler_main p e loc probe w = Some (x, ds) \<longrightarrow> ds = [] \<and> (\<exists>msg. x = Fatal msg))
   \<and> (\<forall>x ds. callworker_main p e R us oc fetch ws = Some (x, ds) \<longrightarrow> ds = [] \<and> (\<exists>msg. x = Fatal msg))
   \<and> (\<forall>x ds. statusworker_main p e fetch w = Some (x, ds) \<longrightarrow> ds = [] \<and> (\<exists>msg. x = Fatal msg))
   \<and> (\<forall>x ds. retryworker_main p = Some (x, ds) \<longrightarrow> ds = [] \<and> (\<exists>msg. x = Fatal msg))
   \<and> (\<forall>c. bootstrap p = Inr c \<longrightarrow> api_main p (\<lambda>_. None) = (MainReturned, [ContainerClosed]))"
  unfolding scheduler_main_def callworker_main_def statusworker_main_def retryworker_main_def
  by (intro conjI allI impI; (elim scheduler_service.main_fatal [THEN conjunct1] scheduler_service.main_fatal [THEN conjunct2]
      call_service.main_fatal [THEN conjunct1] call_service.main_fatal [THEN conjunct2]
      status_service.main_fatal [THEN conjunct1] status_service.main_fatal [THEN conjunct2]
      retry_service.main_fatal [THEN conjunct1] retry_service.main_fatal [THEN conjunct2])?)
    (simp add: api_main_def Start_def)

definition sample_broker :: broker where
  "sample_broker = \<lparr>bk_dial = None, bk_partitions = Inr [], bk_create = (\<lambda>_. None)\<rparr>"

definition sample_process :: process where
  "sample_process = \<lparr>pr_environ = (\<lambda>_. []), pr_flag = None,
     pr_drivers = sample_drivers,
     pr_exporter = (\<lambda>_. None), pr_resource = None, pr_call_broker = sample_broker, pr_retry_broker = sample_broker,
     pr_dead_broker = sample_broker, pr_context = (\<lambda>n. if n = 3 then Some Canceled else None)\<rparr>"

lemma sample_bootstrap:
  obtains c where "bootstrap sample_process = Inr c" "ctr_Config c = sample_config"
  by (rule sample_Build) (simp add: bootstrap_def sample_process_def config_path_def getEnv_def)

theorem stopped_workers_exit_fatally_witness:
  "(\<exists>msg. retryworker_main sample_process = Some (Fatal msg, []))
   \<and> api_main sample_process (\<lambda>_. None) = (MainReturned, [ContainerClosed])"
proof -
  have b: "pr_call_broker sample_process = sample_broker" "pr_retry_broker sample_process = sample_broker"
      "pr_dead_broker sample_process = sample_broker"
    by (simp_all add: sample_process_def)
  have "fst (container_EnsureTopics sample_broker sample_broker sample_broker (cfg_Kafka sample_config)) = None"
    by (simp add: container_EnsureTopics_def ensure_on_def EnsureTopics_def sample_broker_def sample_config_def)
  moreover obtain tr where "Setup (pr_exporter sample_process) (pr_resource sample_process) (cfg_Telemetry sample_config)
      (app_Name (cfg_App sample_config) @ ''-retry-worker'') = Inr tr"
    by (cases "tlc_TracingEnabled (cfg_Telemetry sample_config)") (auto simp: Setup_def sample_process_def Let_def)
  moreover have "wait_done (pr_context sample_process) 0 = Some Canceled"
    by (rule wait_done_stops [where m = 3]) (simp_all add: sample_process_def)
  moreover obtain c where c: "bootstrap sample_process = Inr c" "ctr_Config c = sample_config"
    by (rule sample_bootstrap)
  ultimately obtain x ds where "retryworker_main sample_process = Some (x, ds)"
    using b by (simp add: retryworker_main_def service_main_def retry_Run_def Let_def)
  then show ?thesis
    using stopped_workers_exit_fatally [where p = sample_process] c(1) by blast
qed

end
