(* ===== verification/Fleet.thy ===== *)
theory Fleet
  imports Container "HOL-Library.Multiset"
begin

text \<open>
  The call workers as a fleet: any number of processes that handle messages at the same time, each
  in the stages of \<open>processMessage\<close> (\<open>internal/worker/call/worker.go\<close>), over one Redis server whose
  time passes. A worker waits for a slot poll by poll, places its call, reports it and gives the
  slot back; it may give up, lose its replies or die at any stage. The fleet keeps the promise of the
  concurrency limit: a campaign never has more calls in progress than its messages allow.
\<close>

subsection \<open>Stages of a worker\<close>

text \<open>The limit with which \<open>waitForSlot\<close> asks, and whether it asks at all.\<close>

definition slot_limit :: "Config \<Rightarrow> DispatchMessage \<Rightarrow> int" where
  "slot_limit cfg d =
     (if dm_ConcurrencyLimit d \<le> 0 then thc_DefaultPerCampaign (cfg_Throttle cfg) else dm_ConcurrencyLimit d)"

definition needs_slot :: "Config \<Rightarrow> DispatchMessage \<Rightarrow> bool" where
  "needs_slot cfg d \<longleftrightarrow> dm_CampaignID d \<noteq> uuid_Nil \<and> 0 < slot_limit cfg d"

text \<open>From the call to the commit.\<close>

definition place_and_report ::
    "env \<Rightarrow> 's call_worker \<Rightarrow> kafka_record \<Rightarrow> DispatchMessage \<Rightarrow> world \<Rightarrow> go_error option \<times> world" where
  "place_and_report e c m dispatch w =
     (let timeout = (if cw_timeout c \<le> 0 then 10 * Second else cw_timeout c);
          (result, callErr) = cw_provider c timeout dispatch;
          (now, w1) = Now e w;
          status0 = make_status dispatch result callErr now;
          (status, w2) =
            (if sm_Retryable status0
             then (case computeNextAttempt e (cw_oob c) (cw_rand c) dispatch w1 of
                     (t, w2) \<Rightarrow> (status0\<lparr>sm_NextAttempt := Some t\<rparr>, w2))
             else (status0, w1));
          (pubErr, w3) = PublishStatus e (cw_statusTopic c) status w2;
          (commitErr, w4) = CommitMessages e (cw_group c) m w3
      in (case commitErr of None \<Rightarrow> None | Some err \<Rightarrow> Some (Errorf ''commit message: '' err []), w4))"

definition give_back :: "'s redis \<Rightarrow> (uuid \<Rightarrow> string) \<Rightarrow> io_outcome \<Rightarrow> DispatchMessage \<Rightarrow> slot \<Rightarrow> 's \<Rightarrow> 's" where
  "give_back R us out d sl s = (case sl of NoSlotNeeded \<Rightarrow> s | Slot \<Rightarrow> snd (Release R us out (dm_CampaignID d) s))"

text \<open>A worker that calls knows since when it holds its slot.\<close>

datatype activity =
    Idle
  | Waiting kafka_record DispatchMessage
  | Calling kafka_record DispatchMessage slot int

abbreviation fleet_limiter :: "Config \<Rightarrow> Limiter" where
  "fleet_limiter cfg \<equiv> cm_concurrency (components_of cfg)"

fun holds :: "uuid \<Rightarrow> activity \<Rightarrow> int list" where
  "holds i (Calling m d Slot t) = (if dm_CampaignID d = i then [t] else [])"
| "holds i a = []"

definition holders :: "uuid \<Rightarrow> activity list \<Rightarrow> int list" where
  "holders i as = concat (map (holds i) as)"

fun since :: "activity \<Rightarrow> int list" where
  "since (Calling m d Slot t) = [t]"
| "since a = []"

text \<open>A step of the fleet: worker \<open>k\<close> is delivered a message, polls the limiter once, gives up, places
  its call and reports it, or dies; or time passes, in which no worker that is alive keeps its slot
  for the time to live or longer. \<open>delivers\<close>: the messages the brokers have for the workers.\<close>

inductive fleet_step ::
    "'s redis \<Rightarrow> ('s \<Rightarrow> int) \<Rightarrow> (int \<Rightarrow> 's \<Rightarrow> 's) \<Rightarrow> (uuid \<Rightarrow> string) \<Rightarrow> Config \<Rightarrow> (kafka_record \<Rightarrow> bool)
      \<Rightarrow> world \<times> 's \<times> activity list \<Rightarrow> world \<times> 's \<times> activity list \<Rightarrow> bool"
  for R now advance us cfg delivers where
  undecodable: "k < length as \<Longrightarrow> as ! k = Idle \<Longrightarrow> delivers m \<Longrightarrow> Unmarshal dec_dispatch (k_value m) = Inl err \<Longrightarrow>
     fleet_step R now advance us cfg delivers (w, s, as)
       (snd (CommitMessages e (kc_ConsumerGroupID (cfg_Kafka cfg)) m w), s, as)"
| delivered: "k < length as \<Longrightarrow> as ! k = Idle \<Longrightarrow> delivers m \<Longrightarrow> Unmarshal dec_dispatch (k_value m) = Inr d \<Longrightarrow>
     fleet_step R now advance us cfg delivers (w, s, as) (w, s, as[k := Waiting m d])"
| unlimited: "k < length as \<Longrightarrow> as ! k = Waiting m d \<Longrightarrow> \<not> needs_slot cfg d \<Longrightarrow>
     fleet_step R now advance us cfg delivers (w, s, as) (w, s, as[k := Calling m d NoSlotNeeded (now s)])"
| granted: "k < length as \<Longrightarrow> as ! k = Waiting m d \<Longrightarrow> needs_slot cfg d \<Longrightarrow>
     Acquire R us (fleet_limiter cfg) out (dm_CampaignID d) (slot_limit cfg d) s = (Inr True, s') \<Longrightarrow>
     fleet_step R now advance us cfg delivers (w, s, as) (w, s', as[k := Calling m d Slot (now s)])"
| refused: "k < length as \<Longrightarrow> as ! k = Waiting m d \<Longrightarrow> needs_slot cfg d \<Longrightarrow>
     Acquire R us (fleet_limiter cfg) out (dm_CampaignID d) (slot_limit cfg d) s = (Inr False, s') \<Longrightarrow>
     fleet_step R now advance us cfg delivers (w, s, as) (w, s', as)"
| failed: "k < length as \<Longrightarrow> as ! k = Waiting m d \<Longrightarrow> needs_slot cfg d \<Longrightarrow>
     Acquire R us (fleet_limiter cfg) out (dm_CampaignID d) (slot_limit cfg d) s = (Inl err, s') \<Longrightarrow>
     fleet_step R now advance us cfg delivers (w, s, as) (w, s', as[k := Idle])"
| finished: "k < length as \<Longrightarrow> as ! k = Calling m d sl t \<Longrightarrow>
     place_and_report e (call_worker_of R us cfg oc) m d w = (err, w') \<Longrightarrow>
     fleet_step R now advance us cfg delivers (w, s, as) (w', give_back R us (oc_release oc) d sl s, as[k := Idle])"
| stopped: "k < length as \<Longrightarrow> fleet_step R now advance us cfg delivers (w, s, as) (w, s, as[k := Idle])"
| elapsed: "0 \<le> dt \<Longrightarrow> (\<forall>a \<in> set as. \<forall>t \<in> set (since a). now s + dt < t + Milliseconds (lim_ttl (fleet_limiter cfg))) \<Longrightarrow>
     fleet_step R now advance us cfg delivers (w, s, as) (w, advance dt s, as)"

abbreviation fleet_run ::
    "'s redis \<Rightarrow> ('s \<Rightarrow> int) \<Rightarrow> (int \<Rightarrow> 's \<Rightarrow> 's) \<Rightarrow> (uuid \<Rightarrow> string) \<Rightarrow> Config \<Rightarrow> (kafka_record \<Rightarrow> bool)
      \<Rightarrow> world \<times> 's \<times> activity list \<Rightarrow> world \<times> 's \<times> activity list \<Rightarrow> bool" where
  "fleet_run R now advance us cfg delivers \<equiv> (fleet_step R now advance us cfg delivers)\<^sup>*\<^sup>*"

subsection \<open>One worker of the fleet\<close>

lemma processMessage_stages:
  "processMessage e c m (w, s) =
     (case Unmarshal dec_dispatch (k_value m) of
        Inl err \<Rightarrow> Some (Some (Errorf ''unmarshal dispatch: '' err []), snd (CommitMessages e (cw_group c) m w), s)
      | Inr d \<Rightarrow>
          (case waitForSlot (cw_redis c) (cw_text c) (cw_limiter c) (cw_defaultPerCampaign c) (cw_poll c) d s of
             None \<Rightarrow> None
           | Some (Inl err, s1) \<Rightarrow> Some (Some err, w, s1)
           | Some (Inr sl, s1) \<Rightarrow>
               (case place_and_report e c m d w of (r, w') \<Rightarrow> Some (r, w', give_back (cw_redis c) (cw_text c) (cw_release c) d sl s1))))"
  by (simp add: processMessage_def place_and_report_def give_back_def Let_def case_prod_beta split: sum.splits option.splits slot.splits)

lemma fleet_worker [simp]:
  "cw_redis (call_worker_of R us cfg oc) = R" "cw_text (call_worker_of R us cfg oc) = us"
  "cw_limiter (call_worker_of R us cfg oc) = Some (fleet_limiter cfg)"
  "cw_defaultPerCampaign (call_worker_of R us cfg oc) = thc_DefaultPerCampaign (cfg_Throttle cfg)"
  "cw_poll (call_worker_of R us cfg oc) = oc_poll oc" "cw_release (call_worker_of R us cfg oc) = oc_release oc"
  "cw_group (call_worker_of R us cfg oc) = kc_ConsumerGroupID (cfg_Kafka cfg)"
  by (simp_all add: call_worker_of_def NewReader_def Let_def)

lemma waitForSlot_fleet:
  "waitForSlot R us (Some l) (thc_DefaultPerCampaign (cfg_Throttle cfg)) p d s =
     (if needs_slot cfg d then wait_loop R us l p (dm_CampaignID d) (slot_limit cfg d) 0 s else Some (Inr NoSlotNeeded, s))"
  by (auto simp: waitForSlot_def needs_slot_def slot_limit_def Let_def)

text \<open>The poll loop of a waiting worker is a run of the fleet when the rest of the fleet may do in between
  what the environment of the loop does.\<close>

lemma wait_loop_fleet:
  assumes "wait_loop R us (fleet_limiter cfg) p (dm_CampaignID d) (slot_limit cfg d) n s = Some y"
    and k: "k < length as" "as ! k = Waiting m d" "needs_slot cfg d"
    and between: "\<And>n s. fleet_run R now advance us cfg delivers (w, s, as) (w, p_between p n s, as)"
  shows "(\<exists>t. fst y = Inr Slot \<and> fleet_run R now advance us cfg delivers (w, s, as) (w, snd y, as[k := Calling m d Slot t]))
    \<or> (\<exists>err. fst y = Inl err \<and> fleet_run R now advance us cfg delivers (w, s, as) (w, snd y, as[k := Idle]))"
proof -
  let ?run = "fleet_run R now advance us cfg delivers"
  let ?ends = "\<lambda>s y. (\<exists>t. fst y = Inr Slot \<and> ?run (w, s, as) (w, snd y, as[k := Calling m d Slot t]))
    \<or> (\<exists>err. fst y = Inl err \<and> ?run (w, s, as) (w, snd y, as[k := Idle]))"
  let ?P = "\<lambda>R' us' l p' i lm n s y. R' = R \<longrightarrow> us' = us \<longrightarrow> l = fleet_limiter cfg \<longrightarrow> p' = p \<longrightarrow> i = dm_CampaignID d \<longrightarrow>
    lm = slot_limit cfg d \<longrightarrow> ?ends s y"
  have "?P R us (fleet_limiter cfg) p (dm_CampaignID d) (slot_limit cfg d) n s y"
  proof (rule wait_loop.raw_induct [where P = ?P, OF _ assms(1)], intro impI, goal_cases)
    case (1 loop R' us' l p' i lm n s y)
    obtain r s1 where a: "Acquire R us (fleet_limiter cfg) (p_out p n) (dm_CampaignID d) (slot_limit cfg d) s = (r, s1)" by force
    consider (err) err where "r = Inl err" | (yes) "r = Inr True" | (no) "r = Inr False" by (metis sum.exhaust)
    then show ?case
    proof cases
      case err
      then have "\<exists>err. y = (Inl err, s1)" using 1 a by (auto split: option.splits)
      moreover have "?run (w, s, as) (w, s1, as[k := Idle])"
        by (rule r_into_rtranclp) (rule fleet_step.failed [OF k a [unfolded err]])
      ultimately show ?thesis by auto
    next
      case yes
      then have "y = (Inr Slot, s1)" using 1 a by auto
      moreover have "?run (w, s, as) (w, s1, as[k := Calling m d Slot (now s)])"
        by (rule r_into_rtranclp) (rule fleet_step.granted [OF k a [unfolded yes]])
      ultimately show ?thesis by auto
    next
      case no
      have step: "?run (w, s, as) (w, s1, as)"
        by (rule r_into_rtranclp) (rule fleet_step.refused [OF k a [unfolded no]])
      show ?thesis
      proof (cases "p_ctx_done p n")
        case (Some err)
        then have "y = (Inl err, s1)" using 1 a no by auto
        moreover have "?run (w, s1, as) (w, s1, as[k := Idle])"
          by (rule r_into_rtranclp) (rule fleet_step.stopped [OF k(1)])
        ultimately show ?thesis using step by (metis fst_conv rtranclp_trans snd_conv)
      next
        case None
        then have "loop R us (fleet_limiter cfg) p (dm_CampaignID d) (slot_limit cfg d) (Suc n) (p_between p n s1) = Some y"
          using 1 a no by auto
        from 1(1) [rule_format, OF this] have "?ends (p_between p n s1) y" by simp
        moreover have "?run (w, s, as) (w, p_between p n s1, as)"
          using step between rtranclp_trans by metis
        ultimately show ?thesis by (meson rtranclp_trans)
      qed
    qed
  qed
  then show ?thesis by simp
qed

lemma fleet_waits:
  assumes "\<And>n s. \<exists>dt \<ge> 0. p_between p n s = advance dt s" "\<forall>a \<in> set as. since a = []"
  shows "fleet_run R now advance us cfg delivers (w, s, as) (w, p_between p n s, as)"
proof -
  obtain dt where "0 \<le> dt" "p_between p n s = advance dt s" using assms(1) by blast
  then show ?thesis
    using fleet_step.elapsed [of dt as now s cfg R advance us delivers w] assms(2) by (auto intro: r_into_rtranclp)
qed

lemma since_update: "\<forall>a \<in> set as. since a = [] \<Longrightarrow> since x = [] \<Longrightarrow> \<forall>a \<in> set (as[k := x]). since a = []"
  using set_update_subset_insert by fastforce

lemma fleet_finishes:
  assumes "place_and_report e (call_worker_of R us cfg oc) m d w = (r, w')" "k < length as" "as ! k = Idle"
  shows "fleet_run R now advance us cfg delivers (w, s, as[k := Calling m d sl t]) (w', give_back R us (oc_release oc) d sl s, as)"
proof (rule r_into_rtranclp)
  have "fleet_step R now advance us cfg delivers (w, s, as[k := Calling m d sl t])
      (w', give_back R us (oc_release oc) d sl s, as[k := Calling m d sl t, k := Idle])"
    using assms(1,2) by (intro fleet_step.finished) simp_all
  then show "fleet_step R now advance us cfg delivers (w, s, as[k := Calling m d sl t]) (w', give_back R us (oc_release oc) d sl s, as)"
    by (simp add: list_update_same_conv [OF assms(2), THEN iffD2, OF assms(3)])
qed

text \<open>The handling of one message, while the others hold no slot.\<close>

lemma processMessage_fleet:
  assumes "processMessage e (call_worker_of R us cfg oc) m (w, s) = Some (r, w', s')"
    and "delivers m" "k < length as" "as ! k = Idle" "\<forall>a \<in> set as. since a = []"
    and between: "\<And>n s. \<exists>dt \<ge> 0. p_between (oc_poll oc) n s = advance dt s"
  shows "fleet_run R now advance us cfg delivers (w, s, as) (w', s', as)"
proof (cases "Unmarshal dec_dispatch (k_value m)")
  case (Inl err)
  then have "w' = snd (CommitMessages e (kc_ConsumerGroupID (cfg_Kafka cfg)) m w)" "s' = s"
    using assms(1) by (simp_all add: processMessage_stages)
  then show ?thesis
    by (simp only:) (rule r_into_rtranclp, rule fleet_step.undecodable [where delivers = delivers, OF assms(3,4,2) Inl])
next
  case (Inr d)
  let ?run = "fleet_run R now advance us cfg delivers" and ?p = "oc_poll oc"
  have idle: "as[k := Idle] = as" using assms(4) by (simp add: list_update_same_conv assms(3))
  have start: "?run (w, s, as) (w, s, as[k := Waiting m d])"
    by (rule r_into_rtranclp) (rule fleet_step.delivered [where delivers = delivers, OF assms(3,4,2) Inr])
  have k: "k < length (as[k := Waiting m d])" "as[k := Waiting m d] ! k = Waiting m d"
    using assms(3) by simp_all
  note finish = fleet_finishes [where delivers = delivers, OF _ assms(3,4)]
  show ?thesis
  proof (cases "needs_slot cfg d")
    case False
    have "?run (w, s, as[k := Waiting m d]) (w, s, as[k := Calling m d NoSlotNeeded (now s)])"
      using fleet_step.unlimited [OF k False, of R now advance us delivers w s] by (simp add: r_into_rtranclp)
    moreover have "?run (w, s, as[k := Calling m d NoSlotNeeded (now s)]) (w', s', as)"
      using assms(1) Inr False finish [where s = s and sl = NoSlotNeeded]
      by (auto simp: processMessage_stages waitForSlot_fleet give_back_def split: prod.splits)
    ultimately show ?thesis using start by (meson rtranclp_trans)
  next
    case True
    obtain y where y: "wait_loop R us (fleet_limiter cfg) ?p (dm_CampaignID d) (slot_limit cfg d) 0 s = Some y"
      using assms(1) Inr True by (auto simp: processMessage_stages waitForSlot_fleet split: option.splits)
    have "?run (w, s, as[k := Waiting m d]) (w, p_between ?p n s, as[k := Waiting m d])" for n s
      by (rule fleet_waits [OF between since_update [OF assms(5)]]) simp
    from wait_loop_fleet [OF y k True this] show ?thesis
    proof (elim disjE exE conjE)
      fix t
      assume "fst y = Inr Slot" and run: "?run (w, s, as[k := Waiting m d]) (w, snd y, as[k := Waiting m d, k := Calling m d Slot t])"
      then have "?run (w, snd y, as[k := Calling m d Slot t]) (w', s', as)"
        using assms(1) Inr True y finish [where s = "snd y"]
        by (cases y) (auto simp: processMessage_stages waitForSlot_fleet split: prod.splits)
      from rtranclp_trans [OF start rtranclp_trans [OF run [unfolded list_update_overwrite] this]] show ?thesis .
    next
      fix err
      assume "fst y = Inl err" and run: "?run (w, s, as[k := Waiting m d]) (w, snd y, as[k := Waiting m d, k := Idle])"
      then have "w' = w" "s' = snd y"
        using assms(1) Inr True y by (cases y; auto simp: processMessage_stages waitForSlot_fleet)+
      then show ?thesis using rtranclp_trans [OF start run [unfolded list_update_overwrite idle]] by simp
    qed
  qed
qed

subsection \<open>The fleet obeys the limiter\<close>

definition calling :: "uuid \<Rightarrow> activity \<Rightarrow> bool" where
  "calling i a \<longleftrightarrow> (case a of Calling m d sl t \<Rightarrow> dm_CampaignID d = i | _ \<Rightarrow> False)"

text \<open>A worker on a message of campaign \<open>i\<close> asks with a limit up to \<open>L\<close>, and calls with a slot.\<close>

definition limited :: "Config \<Rightarrow> uuid \<Rightarrow> int \<Rightarrow> activity \<Rightarrow> bool" where
  "limited cfg i L a \<longleftrightarrow>
     (case a of Idle \<Rightarrow> True
      | Waiting m d \<Rightarrow> dm_CampaignID d = i \<longrightarrow> slot_limit cfg d \<le> L
      | Calling m d sl t \<Rightarrow> dm_CampaignID d = i \<longrightarrow> sl = Slot)"

lemma limited_simps [simp]:
  "limited cfg i L Idle" "limited cfg i L (Waiting m d) \<longleftrightarrow> dm_CampaignID d = i \<longrightarrow> slot_limit cfg d \<le> L"
  "limited cfg i L (Calling m d sl t) \<longleftrightarrow> dm_CampaignID d = i \<longrightarrow> sl = Slot"
  by (auto simp: limited_def)

lemma holds_simps [simp]:
  "holds i (Calling m d sl t) = (if sl = Slot \<and> dm_CampaignID d = i then [t] else [])"
  by (cases sl) simp_all

lemma holds_since: "set (holds i a) \<subseteq> set (since a)"
  by (cases "(i, a)" rule: holds.cases) auto

lemma holders_update:
  assumes "k < length as"
  shows "mset (holders i (as[k := a])) + mset (holds i (as ! k)) = mset (holders i as) + mset (holds i a)"
proof -
  have "holders i as = holders i (take k as) @ holds i (as ! k) @ holders i (drop (Suc k) as)"
    by (subst id_take_nth_drop [OF assms]) (simp add: holders_def)
  moreover have "holders i (as[k := a]) = holders i (take k as) @ holds i a @ holders i (drop (Suc k) as)"
    by (simp add: upd_conv_take_nth_drop [OF assms] holders_def)
  ultimately show ?thesis by (simp add: ac_simps)
qed

lemma holders_shrink: "k < length as \<Longrightarrow> holds i a = [] \<Longrightarrow> mset (holders i (as[k := a])) \<subseteq># mset (holders i as)"
  using holders_update [of k as i a] by (simp add: mset_subset_eq_exists_conv) (metis add.commute)

lemma holders_length: "\<forall>a \<in> set as. limited cfg i L a \<Longrightarrow> length (holders i as) = length (filter (calling i) as)"
  by (induction as) (auto simp: holders_def calling_def split: activity.splits if_splits)

lemma holders_since: "t \<in> set (holders i as) \<Longrightarrow> \<exists>a \<in> set as. t \<in> set (since a)"
  using holds_since by (fastforce simp: holders_def)

lemma in_set_update: "x \<in> set (xs[k := y]) \<Longrightarrow> x = y \<or> x \<in> set xs"
  using set_update_subset_insert by fastforce

lemma limiter_inv_fewer:
  assumes "limiter_inv R now expires key ttl L (s, hs)" "mset hs' \<subseteq># mset hs"
  shows "limiter_inv R now expires key ttl L (s, hs')"
proof -
  have "length hs' \<le> length hs" "set hs' \<subseteq> set hs"
    using size_mset_mono [OF assms(2)] set_mset_mono [OF assms(2)] by simp_all
  then show ?thesis using assms(1) by (auto simp: limiter_inv_def)
qed

lemma slot_limit_effective: "needs_slot cfg d \<Longrightarrow> effective_limit l (slot_limit cfg d) = slot_limit cfg d"
  by (simp add: needs_slot_def effective_limit_def)

text \<open>The messages of campaign \<open>i\<close> that are delivered ask for at most \<open>L\<close> calls.\<close>

definition limits :: "Config \<Rightarrow> (kafka_record \<Rightarrow> bool) \<Rightarrow> uuid \<Rightarrow> int \<Rightarrow> bool" where
  "limits cfg delivers i L \<longleftrightarrow>
     (\<forall>m d. delivers m \<longrightarrow> Unmarshal dec_dispatch (k_value m) = Inr d \<longrightarrow> dm_CampaignID d = i \<longrightarrow> slot_limit cfg d \<le> L)"

lemma fleet_keeps_limited:
  assumes "fleet_step R now advance us cfg delivers (w, s, as) (w', s', as')" "\<forall>a \<in> set as. limited cfg i L a"
    and "limits cfg delivers i L" "i \<noteq> uuid_Nil" "0 < thc_DefaultPerCampaign (cfg_Throttle cfg)"
  shows "\<forall>a \<in> set as'. limited cfg i L a"
  using assms(1)
proof (cases rule: fleet_step.cases)
  case (delivered k m d)
  then show ?thesis using assms(2,3) by (auto simp: limits_def dest!: in_set_update)
next
  case (unlimited k m d)
  then have "dm_CampaignID d \<noteq> i" using assms(4,5) by (auto simp: needs_slot_def slot_limit_def split: if_splits)
  then show ?thesis using unlimited(3) assms(2) by (auto dest!: in_set_update)
qed (use assms(2) in \<open>auto dest!: in_set_update\<close>)

text \<open>What the workers do at Redis are steps of the limiter's clients.\<close>

lemma fleet_asks:
  assumes "Acquire R us (fleet_limiter cfg) out (dm_CampaignID d) (slot_limit cfg d) s = (r, s')" "r \<noteq> Inr True"
    and "needs_slot cfg d" "limited cfg i L (Waiting m d)"
  shows "limiter_step R now advance us (fleet_limiter cfg) i L (s, hs) (s', hs)"
proof (cases "dm_CampaignID d = i")
  case True
  then show ?thesis
    using assms by (intro not_acquired) (auto simp: slot_limit_effective needs_slot_def)
next
  case False
  then show ?thesis using assms(1) by (rule other_acquire)
qed

lemma fleet_gets:
  assumes "Acquire R us (fleet_limiter cfg) out (dm_CampaignID d) (slot_limit cfg d) s = (Inr True, s')"
    and "needs_slot cfg d" "limited cfg i L (Waiting m d)" "k < length as" "as ! k = Waiting m d"
  obtains hs where "limiter_step R now advance us (fleet_limiter cfg) i L (s, holders i as) (s', hs)"
    "mset (holders i (as[k := Calling m d Slot (now s)])) \<subseteq># mset hs"
proof (cases "dm_CampaignID d = i")
  case True
  then have "limiter_step R now advance us (fleet_limiter cfg) i L (s, holders i as) (s', now s # holders i as)"
    using assms(1-3) by (intro acquired) (auto simp: slot_limit_effective needs_slot_def)
  moreover have "mset (holders i (as[k := Calling m d Slot (now s)])) = mset (now s # holders i as)"
    using holders_update [OF assms(4), of i "Calling m d Slot (now s)"] assms(5) True by simp
  ultimately show thesis using that by simp
next
  case False
  then have "limiter_step R now advance us (fleet_limiter cfg) i L (s, holders i as) (s', holders i as)"
    using assms(1) by (rule other_acquire)
  then show thesis using that holders_shrink [OF assms(4), of i "Calling m d Slot (now s)"] False by simp
qed

lemma fleet_returns:
  assumes "k < length as" "as ! k = Calling m d sl t" "s' = give_back R us out d sl s"
  obtains (quiet) "s' = s" "mset (holders i (as[k := Idle])) \<subseteq># mset (holders i as)"
  | (moved) hs where "limiter_step R now advance us l i L (s, holders i as) (s', hs)" "mset (holders i (as[k := Idle])) \<subseteq># mset hs"
proof (cases "sl = Slot \<and> dm_CampaignID d = i")
  case True
  have u: "mset (holders i (as[k := Idle])) + {#t#} = mset (holders i as)"
    using holders_update [OF assms(1), of i Idle] assms(2) True by simp
  then have t: "t \<in> set (holders i as)" by (metis add_mset_add_single set_mset_mset union_single_eq_member)
  have "limiter_step R now advance us l i L (s, holders i as) (s', remove1 t (holders i as))"
    using t True assms(3) by (intro released [where out = out and r = "fst (Release R us out i s)"]) (simp_all add: give_back_def)
  moreover have "mset (holders i (as[k := Idle])) = mset (remove1 t (holders i as))"
    using u by (metis add_implies_diff mset_remove1)
  ultimately show thesis using moved by simp
next
  case False
  have "s' = s \<or> limiter_step R now advance us l i L (s, holders i as) (s', holders i as)"
    using False assms(3) other_release [where j = "dm_CampaignID d" and out = out and s = s and s' = s']
    by (cases sl) (auto simp: give_back_def prod_eq_iff)
  then show thesis using quiet moved holders_shrink [OF assms(1), of i Idle] by auto
qed

context redis_server
begin

lemma fleet_limited:
  assumes "fleet_step R now advance us cfg delivers (w, s, as) (w', s', as')"
    and inv: "limiter_inv R now expires (limiter_key us i) (Milliseconds (lim_ttl (fleet_limiter cfg))) L (s, holders i as)"
    and "\<forall>a \<in> set as. limited cfg i L a" "inj us" "i \<noteq> uuid_Nil" "0 < Milliseconds (lim_ttl (fleet_limiter cfg))"
  shows "limiter_inv R now expires (limiter_key us i) (Milliseconds (lim_ttl (fleet_limiter cfg))) L (s', holders i as')"
proof -
  let ?inv = "limiter_inv R now expires (limiter_key us i) (Milliseconds (lim_ttl (fleet_limiter cfg))) L"
  let ?step = "limiter_step R now advance us (fleet_limiter cfg) i L (s, holders i as)"
  have via: "?inv (s', holders i as')" if "?step (s', hs)" "mset (holders i as') \<subseteq># mset hs" for hs
    using limiter_inv_fewer [OF inv_step [OF that(1) inv assms(4-6)] that(2)] .
  have same: "?inv (s', holders i as')" if "s' = s" "mset (holders i as') \<subseteq># mset (holders i as)"
    using limiter_inv_fewer [OF inv] that by simp
  have at_k: "limited cfg i L (as ! k)" if "k < length as" for k
    using assms(3) that by simp
  show ?thesis
    using assms(1)
  proof (cases rule: fleet_step.cases)
    case (granted k m d out)
    from fleet_gets [OF granted(6,5) at_k [OF granted(3), unfolded granted(4)] granted(3,4)] show ?thesis
      using via granted(2) by blast
  next
    case (refused k m d out)
    have "?step (s', holders i as)"
      by (rule fleet_asks [OF refused(6) _ refused(5) at_k [OF refused(3), unfolded refused(4)]]) simp
    then show ?thesis using via refused(2) by simp
  next
    case (failed k m d out err)
    have "?step (s', holders i as)"
      by (rule fleet_asks [OF failed(6) _ failed(5) at_k [OF failed(3), unfolded failed(4)]]) simp
    then show ?thesis using via holders_shrink [OF failed(3), of i Idle] failed(2) by simp
  next
    case (finished k m d sl t e oc err)
    then show ?thesis using via same by (metis fleet_returns [OF finished(3,4,1)])
  next
    case (elapsed dt)
    then have "?step (s', holders i as)"
      by (simp only:) (intro limiter_step.elapsed, auto dest!: holders_since)
    then show ?thesis using elapsed(3) via by simp
  qed (use same holders_shrink in simp_all)
qed

lemma fleet_reachable:
  assumes "fleet_run R now advance us cfg delivers (w0, s0, replicate n Idle) (w, s, as)"
    and "limits cfg delivers i L" "inj us" "i \<noteq> uuid_Nil" "0 < thc_DefaultPerCampaign (cfg_Throttle cfg)"
    and "0 < Milliseconds (lim_ttl (fleet_limiter cfg))" "0 \<le> current R (limiter_key us i) s0" "0 \<le> L"
  shows "(\<forall>a \<in> set as. limited cfg i L a)
    \<and> limiter_inv R now expires (limiter_key us i) (Milliseconds (lim_ttl (fleet_limiter cfg))) L (s, holders i as)"
  using assms(1)
proof (induction "(w, s, as)" arbitrary: w s as rule: rtranclp_induct)
  case base
  have "concat (map (holds i) (replicate n Idle)) = []" by (induction n) simp_all
  then show ?case using assms(7,8) base by (auto simp: limiter_inv_def holders_def)
next
  case (step st)
  obtain w1 s1 as1 where st: "st = (w1, s1, as1)" by (cases st) auto
  show ?case
    using fleet_keeps_limited [OF step(2) [unfolded st]] fleet_limited [OF step(2) [unfolded st]] step(3) [OF st] assms(2-6) by blast
qed

end

lemma fleet_ttl: "Millisecond \<le> sdc_LockTTL (cfg_Scheduler cfg) \<or> sdc_LockTTL (cfg_Scheduler cfg) \<le> 0 \<Longrightarrow>
    0 < Milliseconds (lim_ttl (fleet_limiter cfg))"
  by (rule Milliseconds_pos) (auto simp: components_of_def new_components_def NewLimiter_def Let_def duration_units)

subsection \<open>Properties\<close>


text \<open>Two workers on the same message of a campaign with a single slot: one of them calls.\<close>

definition single_dispatch :: DispatchMessage where
  "single_dispatch = sample_dispatch\<lparr>dm_ConcurrencyLimit := 1\<rparr>"

definition single_record :: kafka_record where
  "single_record = \<lparr>k_topic = ''dispatch'', k_key = 11, k_value = enc_dispatch single_dispatch, k_time = utc 0\<rparr>"

lemma single_record_dispatch: "Unmarshal dec_dispatch (k_value single_record) = Inr single_dispatch"
  by (simp add: single_record_def dispatch_roundtrip_aux wf_dispatch_def single_dispatch_def sample_dispatch_def int64_def)

lemma single_limit: "dm_CampaignID single_dispatch = 1" "slot_limit sample_config single_dispatch = 1" "needs_slot sample_config single_dispatch"
  by (simp_all add: single_dispatch_def slot_limit_def needs_slot_def sample_dispatch_def uuid_Nil_def)

lemma single_acquired:
  obtains s where "Acquire memory_redis sample_text (fleet_limiter sample_config) IoOk 1 1 empty_memory = (Inr True, s)"
  by (simp add: Acquire_def run_script_def acquire_script_def current_def memory_redis_def empty_memory_def uuid_Nil_def Let_def)

abbreviation sample_fleet :: "world \<times> memory \<times> activity list \<Rightarrow> world \<times> memory \<times> activity list \<Rightarrow> bool" where
  "sample_fleet \<equiv> fleet_run memory_redis mem_now mem_advance sample_text sample_config (\<lambda>m. m = single_record)"

lemma sample_fleet_calls:
  obtains s where "sample_fleet (w, empty_memory, [Idle, Idle])
    (w, s, [Calling single_record single_dispatch Slot 0, Waiting single_record single_dispatch])"
proof -
  let ?m = single_record and ?d = single_dispatch
  let ?step = "fleet_step memory_redis mem_now mem_advance sample_text sample_config (\<lambda>m. m = single_record)"
  obtain s where a: "Acquire memory_redis sample_text (fleet_limiter sample_config) IoOk 1 1 empty_memory = (Inr True, s)"
    by (rule single_acquired)
  have "?step (w, empty_memory, [Idle, Idle]) (w, empty_memory, [Idle, Idle][0 := Waiting ?m ?d])"
    by (rule fleet_step.delivered) (simp_all add: single_record_dispatch)
  moreover have "?step (w, empty_memory, [Waiting ?m ?d, Idle]) (w, empty_memory, [Waiting ?m ?d, Idle][1 := Waiting ?m ?d])"
    by (rule fleet_step.delivered) (simp_all add: single_record_dispatch)
  moreover have "?step (w, empty_memory, [Waiting ?m ?d, Waiting ?m ?d])
      (w, s, [Waiting ?m ?d, Waiting ?m ?d][0 := Calling ?m ?d Slot (mem_now empty_memory)])"
    by (rule fleet_step.granted [where out = IoOk]) (simp_all add: single_limit a)
  ultimately have "sample_fleet (w, empty_memory, [Idle, Idle]) (w, s, [Calling ?m ?d Slot 0, Waiting ?m ?d])"
    by (simp add: empty_memory_def)
  then show thesis by (rule that)
qed



definition fleet_outcome :: "memory call_outcome" where
  "fleet_outcome =
     \<lparr>oc_poll = \<lparr>p_out = (\<lambda>_. IoOk), p_between = (\<lambda>_. mem_advance 50), p_ctx_err = (\<lambda>_. None), p_ctx_done = (\<lambda>_. None)\<rparr>,
      oc_release = IoOk, oc_provider = failing_provider, oc_oob = 0, oc_rand = 1 / 2\<rparr>"


end
