(* ===== verification/Spec2Isabelle.thy ===== *)
theory Spec2Isabelle
  imports Races Processes Fleet
begin

text \<open>
  \<^bold>\<open>A verification development for the outbound call campaign services.\<close>

  \<^bold>\<open>The program.\<close> Campaigns of outbound calls are managed through an HTTP API. The scheduler
  periodically takes the campaigns in progress, tests their business hours, marks a batch of pending
  targets and dispatches a call for each through Kafka. Call workers wait for a slot of the
  campaign's concurrency limit (a counter in Redis), place the call with a telephony provider and
  publish a status message; the status worker records it in ScyllaDB, moves the campaign's counters
  in PostgreSQL and hands a retryable failure to the retry topic of its attempt; retry workers wait
  until the next attempt is due and dispatch the call again.

  \<^bold>\<open>Theories and sources\<close> (paths under \<open>src/\<close>).
  \<^item> \<open>Prelude\<close>, \<open>Go_Time\<close>, \<open>Go_Float\<close>, \<open>Go_Duration\<close>, \<open>Errors\<close>: what the sources use of Go: 64-bit
    integers with wrap-around, truncating division, times and durations, \<open>time.ParseDuration\<close> and
    \<open>Duration.String\<close>, rounding of \<open>float64\<close>, error values with wrapping (\<open>pkg/errors\<close>).
  \<^item> \<open>Domain\<close> (\<open>internal/domain\<close>), \<open>Business_Hours\<close> (the test in \<open>internal/scheduler\<close>).
  \<^item> \<open>Store\<close>: the state \<open>world\<close> (the tables of PostgreSQL and ScyllaDB, the Kafka log and the commits)
    and the environment \<open>env\<close> (clocks, uuids, the outcome of every request: success, failure, or
    failure of the reply after the effect). \<open>Postgres\<close>, \<open>Postgres_Laws\<close>
    (\<open>internal/repository/postgres\<close>): each SQL statement as a function on the tables with its
    constraints, each method over it. \<open>Scylla\<close> (\<open>internal/repository/scylla\<close>) likewise.
  \<^item> \<open>Campaign_Service\<close>, \<open>Campaign_Laws\<close> (\<open>internal/service/campaign\<close>); \<open>Call_Service\<close>, \<open>Base64\<close>
    (\<open>internal/service/call\<close>, \<open>internal/service/common\<close>); \<open>Limiter\<close> (\<open>internal/service/concurrency\<close>,
    both Lua scripts over an abstract server whose laws are a locale); \<open>Queue\<close> (\<open>internal/queue\<close>:
    messages, their JSON form under the struct tags, publishers, creation of topics).
  \<^item> \<open>Scheduler\<close>, \<open>Call_Worker\<close>, \<open>Status_Worker\<close>, \<open>Retry_Worker\<close> (\<open>internal/scheduler\<close>,
    \<open>internal/worker\<close>, \<open>internal/telephony\<close>): one tick, and the handling of one message.
  \<^item> \<open>Api\<close>, \<open>Api_Laws\<close> (\<open>internal/api\<close>): requests, responses, every handler, the routes and the error
    handler. \<open>Configuration\<close> (\<open>internal/config\<close>): the settings. \<open>Clients\<close> (\<open>pkg/logger\<close>,
    \<open>internal/infra\<close>, the constructors of \<open>internal/queue\<close>): what a client is opened with, and closing.
    \<open>Container\<close> (\<open>internal/app\<close>): bootstrap, the components made once on demand and what each service
    gets of them, topics, shutdown. \<open>Processes\<close> (\<open>internal/telemetry\<close>, \<open>cmd\<close>): tracing, the loops of
    the services, the entry points.
  \<^item> \<open>Jobs\<close>: every operation again as a sequence of requests to the servers, with the lemma that running
    it alone is the operation. \<open>Pipeline\<close>: the composed system, once with whole operations as steps and
    once with single requests, in which processes interleave and may die between two requests; every
    run of the first is a run of the second. \<open>Contracts\<close>: what has to hold of the requests for an
    invariant to survive every interleaving. \<open>Invariants\<close>: the invariants that do. \<open>System_Laws\<close>: what
    holds in every run. \<open>Races\<close>: what concurrency does break. \<open>Fleet\<close>: any number of call workers in the
    stages of handling a message, over a Redis server whose time passes.
  \<^item> \<open>Samples\<close>: concrete environments and stores on which the theorems are instantiated.

  \<^bold>\<open>State and operations.\<close> An operation takes the environment and the world and returns its result
  with the new world; a Go error is the left value of a sum or the value of an option. The counters
  in the world index the environment, so that each request, clock reading and uuid is its own. The
  call worker also threads the Redis server, whose state is abstract.

  \<^bold>\<open>Interfaces.\<close> \<open>store_invariant\<close> and \<open>pg_invariant\<close> (which requests keep an invariant of the tables),
  \<open>campaign_repository\<close> and \<open>business_hour_repository\<close> (what a read returns after a write), the laws of
  the Redis server, \<open>publisher\<close> (a record is appended, or the error has no effect),
  \<open>refusing_service\<close> (an error with a sentinel has no effect), \<open>looping_service\<close> (a service never
  returns nil), \<open>request_contract\<close> (the requests keep an invariant and the messages written obey it, so
  every interleaving keeps it) with \<open>counter_invariant\<close> and \<open>log_contract\<close> over it. Each is interpreted
  on the model's own operations.

  \<^bold>\<open>What is shown.\<close> For the system, in every interleaving of the requests of its processes, with
  faults, redelivery and crashes: only registered numbers are called, no call has a third attempt, the
  tables stay well formed, the counters sound and every record of a topic decodes to a message of its
  kind. A fleet of call workers never has more calls of a campaign in progress than its limit. The life
  of a call ends in one counter. Two schedulers can dispatch a batch twice, and a start
  that overlaps a completion can undo it. For
  the scheduler: only open campaigns within their hours are dispatched, in bounded batches, and
  without faults the whole batch goes out. The limiter never exceeds its limit and recovers leaked
  slots; waiting for a slot ends; the back-off has its bounds with rounding included. Messages,
  paging tokens, business hours, retry policies and calls survive their round trips, with the
  exceptions that are stated. The life cycle of campaigns is a refinement of a transition relation.
  Requests the API refuses have no effect. Every loop of a service ends with its context. A container
  closes exactly what it holds.

  \<^bold>\<open>Bounds.\<close> No loop is cut by fuel: recursion is structural, or \<open>partial_function (option)\<close> where a loop
  may run for ever (waiting for a slot, the loops of the services), with a theorem that it returns.
  Integers of the program wrap at 64 bits; columns have their SQL ranges.

  \<^bold>\<open>Limits.\<close> The interleaving has the grain of a request: one call of a repository, a reading of the
  clock, one message written or committed. The transactions of \<open>internal/repository/postgres\<close> are such a
  request, as are the two writes of a call store method and the whole wait for a slot on the Redis
  server (\<open>Fleet\<close> interleaves the polls of the workers, and \<open>Limiter\<close> those of any clients); what an
  operation only reads is one. Messages may be redelivered at any time and in any order. The Go interfaces of
  \<open>internal/repository/interfaces.go\<close> are not objects of the model: each has one implementation, which
  the services call. A map of metadata is the list of its entries, as JSON has them.
  Decoding of HTTP bodies and of uuids, the time zone database, the telephony provider and the client
  libraries are parameters. Logging, tracing spans, the text of driver errors and the transport are
  not modelled.
\<close>

end
